theory Spec2Isabelle
  imports Main "HOL-Library.Word"
begin

unbundle bit_operations_syntax

section \<open>Bytes, words and buffers\<close>

text \<open>
  The tuple engine of \<^verbatim>\<open>NewInternalTypes.h\<close> works on raw byte buffers. A buffer is a
  list of bytes, a pointer into it is an offset, and the stores and loads that the
  source performs through \<^verbatim>\<open>reinterpret_cast<uint32_t *>\<close> are little-endian, as on the
  x86 enclave the code is built for.
\<close>

type_synonym byte = "8 word"
type_synonym u32 = "32 word"

text \<open>\<^verbatim>\<open>*reinterpret_cast<uint32_t *>(p) = w\<close>: the four bytes stored at \<open>p\<close>.\<close>

definition le32 :: "u32 \<Rightarrow> byte list" where
  "le32 w = [ucast w, ucast (drop_bit 8 w), ucast (drop_bit 16 w), ucast (drop_bit 24 w)]"

text \<open>
  \<^verbatim>\<open>*reinterpret_cast<uint32_t *>(p)\<close>, where the argument is the memory from \<open>p\<close> on.
  Fewer than four bytes means that the load runs past the end of the buffer; the
  functions below check the bounds before they load, so the value \<open>0\<close> is never used.
\<close>

fun rd32 :: "byte list \<Rightarrow> u32" where
  "rd32 (a # b # c # d # _) =
     ucast a OR push_bit 8 (ucast b) OR push_bit 16 (ucast c) OR push_bit 24 (ucast d)"
| "rd32 _ = 0"

text \<open>\<^verbatim>\<open>memcpy(mem + p, bs, length bs)\<close> on a buffer held as a list.\<close>

definition store_bytes :: "byte list \<Rightarrow> nat \<Rightarrow> byte list \<Rightarrow> byte list" where
  "store_bytes mem p bs = take p mem @ bs @ drop (p + length bs) mem"

text \<open>The \<open>n\<close> bytes at offset \<open>p\<close>.\<close>

definition load_bytes :: "byte list \<Rightarrow> nat \<Rightarrow> nat \<Rightarrow> byte list" where
  "load_bytes mem p n = take n (drop p mem)"

section \<open>Errors\<close>

text \<open>
  Every \<^verbatim>\<open>check(...)\<close> of the source prints a message and asserts; the enclave call is
  aborted. The model returns the failure as a value. \<open>OutOfBounds\<close> stands for a load or
  store outside the buffer it addresses, which the source does not check.
\<close>

datatype error =
    TypeMismatch
  | IndexOutOfRange
  | CapacityExceeded
  | FormatError
  | CipherError
  | GroupingMismatch
  | OutOfBounds

definition ebind :: "error + 'a \<Rightarrow> ('a \<Rightarrow> error + 'b) \<Rightarrow> error + 'b" where
  "ebind m f = (case m of Inl e \<Rightarrow> Inl e | Inr x \<Rightarrow> f x)"

section \<open>NewRecord\<close>

text \<open>
  \<^verbatim>\<open>class NewRecord\<close>: the row buffer, allocated with \<^verbatim>\<open>calloc(upper_bound, 1)\<close>, and the
  number of bytes of it in use. The row is
  \<^verbatim>\<open>[uint32_t num_cols]([uint8_t type][uint32_t len][contents])...\<close>.
\<close>

record NewRecord =
  row :: "byte list"
  row_length :: u32

definition NewRecord_new :: "u32 \<Rightarrow> NewRecord" where
  "NewRecord_new upper_bound = \<lparr> row = replicate (unat upper_bound) 0, row_length = 4 \<rparr>"

definition num_cols :: "NewRecord \<Rightarrow> u32" where
  "num_cols r = rd32 (row r)"

definition set_num_cols :: "NewRecord \<Rightarrow> u32 \<Rightarrow> NewRecord" where
  "set_num_cols r n = r\<lparr> row := store_bytes (row r) 0 (le32 n) \<rparr>"

text \<open>
  Modelled from the spec: the bodies of the \<^verbatim>\<open>NewRecord\<close> methods that the header only
  declares (\<^verbatim>\<open>clear\<close>, \<^verbatim>\<open>set\<close>, \<^verbatim>\<open>append\<close>, \<^verbatim>\<open>add_attr\<close>, \<^verbatim>\<open>get_attr\<close>, \<^verbatim>\<open>get_attr_value\<close>,
  \<^verbatim>\<open>is_dummy\<close>, \<^verbatim>\<open>write\<close>, \<^verbatim>\<open>read\<close>) and \<^verbatim>\<open>attrs_equal\<close>. \<^verbatim>\<open>clear()\<close> sets
  \<^verbatim>\<open>num_cols = 0\<close> and the logical length to 4.
\<close>

definition clear :: "NewRecord \<Rightarrow> NewRecord" where
  "clear r = (set_num_cols r 0)\<lparr> row_length := 4 \<rparr>"

text \<open>
  Modelled from the spec: a store of \<open>bs\<close> at offset \<open>p\<close> of the row fails with
  capacity-exceeded when it would leave the buffer.
\<close>

definition row_store :: "NewRecord \<Rightarrow> nat \<Rightarrow> byte list \<Rightarrow> error + NewRecord" where
  "row_store r p bs =
     (if p + length bs \<le> length (row r) then Inr (r\<lparr> row := store_bytes (row r) p bs \<rparr>)
      else Inl CapacityExceeded)"

text \<open>
  Modelled from the spec: \<^verbatim>\<open>set(other)\<close> copies \<open>other\<close>'s logical bytes and length.
\<close>

definition set_record :: "NewRecord \<Rightarrow> NewRecord \<Rightarrow> error + NewRecord" where
  "set_record r other =
     (if unat (row_length other) \<le> length (row other)
      then ebind (row_store r 0 (load_bytes (row other) 0 (unat (row_length other))))
             (\<lambda>r'. Inr (r'\<lparr> row_length := row_length other \<rparr>))
      else Inl OutOfBounds)"

text \<open>
  Modelled from the spec: \<^verbatim>\<open>add_attr(type, len, value)\<close> appends \<^verbatim>\<open>[type][len][value]\<close> at
  the tail and bumps \<^verbatim>\<open>num_cols\<close>. The value is passed as the \<open>len\<close> bytes it points to.
\<close>

definition add_attr :: "NewRecord \<Rightarrow> byte \<Rightarrow> byte list \<Rightarrow> error + NewRecord" where
  "add_attr r ty val =
     ebind (row_store r (unat (row_length r)) (ty # le32 (word_of_nat (length val)) @ val))
       (\<lambda>r'. Inr ((set_num_cols r' (num_cols r' + 1))
                    \<lparr> row_length := row_length r + 5 + word_of_nat (length val) \<rparr>))"

text \<open>
  Modelled from the spec: \<^verbatim>\<open>append(other)\<close> concatenates \<open>other\<close>'s attributes (its bytes
  after the column count) and increments \<^verbatim>\<open>num_cols\<close> accordingly.
\<close>

definition append_record :: "NewRecord \<Rightarrow> NewRecord \<Rightarrow> error + NewRecord" where
  "append_record r other =
     (if 4 \<le> unat (row_length other) \<and> unat (row_length other) \<le> length (row other)
      then ebind (row_store r (unat (row_length r))
                    (load_bytes (row other) 4 (unat (row_length other) - 4)))
             (\<lambda>r'. Inr ((set_num_cols r' (num_cols r' + num_cols other))
                          \<lparr> row_length := row_length r + (row_length other - 4) \<rparr>))
      else Inl OutOfBounds)"

text \<open>
  Modelled from the spec: \<^verbatim>\<open>get_attr_internal(row, attr_idx, num_cols)\<close> walks from the
  first attribute (offset 4) over \<open>attr_idx - 1\<close> attributes, each \<open>1 + 4 + len\<close> bytes long.
  The walk takes the attribute header at \<open>p\<close> to lie inside the buffer.
\<close>

fun attr_walk :: "byte list \<Rightarrow> nat \<Rightarrow> nat \<Rightarrow> error + nat" where
  "attr_walk mem p 0 = Inr p"
| "attr_walk mem p (Suc k) =
     (if p + 5 \<le> length mem
      then attr_walk mem (p + 5 + unat (rd32 (drop (p + 1) mem))) k
      else Inl OutOfBounds)"

text \<open>
  Modelled from the spec: \<^verbatim>\<open>get_attr(i)\<close> is 1-indexed and fails with an out-of-range
  error if \<open>i\<close> is not in \<open>[1, num_cols]\<close>; the result is the offset of the attribute's
  type byte in the row.
\<close>

definition get_attr :: "NewRecord \<Rightarrow> u32 \<Rightarrow> error + nat" where
  "get_attr r attr_idx =
     (if 0 < attr_idx \<and> attr_idx \<le> num_cols r
      then attr_walk (row r) 4 (unat attr_idx - 1)
      else Inl IndexOutOfRange)"

text \<open>Modelled from the spec: the pointer that begins at the attribute value.\<close>

definition get_attr_value :: "NewRecord \<Rightarrow> u32 \<Rightarrow> error + nat" where
  "get_attr_value r attr_idx = ebind (get_attr r attr_idx) (\<lambda>p. Inr (p + 5))"

text \<open>
  Modelled from the spec: an attribute is \<^verbatim>\<open>[type:u8][len:u32][value:len]\<close>; these are the
  bytes of the attribute at offset \<open>p\<close> of a buffer.
\<close>

definition attr_bytes :: "byte list \<Rightarrow> nat \<Rightarrow> byte list" where
  "attr_bytes mem p = load_bytes mem p (5 + unat (rd32 (drop (p + 1) mem)))"

text \<open>
  Modelled from the spec: \<^verbatim>\<open>attrs_equal(a, b)\<close> is the byte-wise comparison of the
  \<^verbatim>\<open>[type][len][value]\<close> triples. Each pointer is given as its buffer and offset.
\<close>

definition attrs_equal :: "byte list \<Rightarrow> nat \<Rightarrow> byte list \<Rightarrow> nat \<Rightarrow> bool" where
  "attrs_equal ma a mb b = (attr_bytes ma a = attr_bytes mb b)"

text \<open>
  Modelled from the spec: \<^verbatim>\<open>is_dummy()\<close> is true iff some attribute's type tag is a dummy
  tag (the header says: a row is a dummy if any of its types are dummy types). The
  catalog of dummy tags, \<^verbatim>\<open>is_dummy_type\<close>, is defined outside this header and is the
  parameter \<open>D\<close>.
\<close>

fun any_dummy_type :: "(byte \<Rightarrow> bool) \<Rightarrow> byte list \<Rightarrow> nat \<Rightarrow> nat \<Rightarrow> error + bool" where
  "any_dummy_type D mem p 0 = Inr False"
| "any_dummy_type D mem p (Suc k) =
     (if p + 5 \<le> length mem
      then (if D (mem ! p) then Inr True
            else any_dummy_type D mem (p + 5 + unat (rd32 (drop (p + 1) mem))) k)
      else Inl OutOfBounds)"

definition is_dummy :: "(byte \<Rightarrow> bool) \<Rightarrow> NewRecord \<Rightarrow> error + bool" where
  "is_dummy D r = any_dummy_type D (row r) 4 (unat (num_cols r))"

section \<open>NewJoinRecord\<close>

text \<open>
  \<^verbatim>\<open>class NewJoinRecord\<close>: a record whose first attribute is the table tag, and a pointer
  to the join attribute inside the row (\<open>None\<close> is \<^verbatim>\<open>NULL\<close>).
\<close>

record NewJoinRecord =
  row_jr :: NewRecord
  join_attr :: "nat option"

definition primary_id :: u32 where
  "primary_id = 0"

definition foreign_id :: u32 where
  "foreign_id = 1"

definition NewJoinRecord_new :: "u32 \<Rightarrow> NewJoinRecord" where
  "NewJoinRecord_new upper_bound = \<lparr> row_jr = NewRecord_new upper_bound, join_attr = None \<rparr>"

text \<open>
  \<^verbatim>\<open>set(bool is_primary, const NewRecord *record)\<close>. The type tag \<^verbatim>\<open>INT\<close> is defined outside
  this header and is the parameter \<open>INT_tag\<close>.
\<close>

definition NewJoinRecord_set :: "byte \<Rightarrow> NewJoinRecord \<Rightarrow> bool \<Rightarrow> NewRecord \<Rightarrow> error + NewJoinRecord" where
  "NewJoinRecord_set INT_tag j is_primary record =
     (let r0 = clear (row_jr j);
          table_id = (if is_primary then primary_id else foreign_id)
      in ebind (add_attr r0 INT_tag (le32 table_id))
           (\<lambda>r1. ebind (append_record r1 record)
              (\<lambda>r2. Inr (j\<lparr> row_jr := r2 \<rparr>))))"

definition NewJoinRecord_is_dummy :: "NewJoinRecord \<Rightarrow> bool" where
  "NewJoinRecord_is_dummy j = (num_cols (row_jr j) = 0)"

definition reset_to_dummy :: "NewJoinRecord \<Rightarrow> NewJoinRecord" where
  "reset_to_dummy j = j\<lparr> row_jr := clear (row_jr j) \<rparr>"

definition NewJoinRecord_num_cols :: "NewJoinRecord \<Rightarrow> u32" where
  "NewJoinRecord_num_cols j = num_cols (row_jr j) - 1"

section \<open>Group-by keys\<close>

text \<open>
  \<^verbatim>\<open>template<uint32_t Column> class GroupBy\<close>: a copy of the row and a pointer to the
  grouping attribute inside that copy; \<open>None\<close> is \<^verbatim>\<open>NULL\<close>, no group yet. The template
  parameter is the first argument of each function. The row is built by \<^verbatim>\<open>NewRecord()\<close>,
  whose capacity \<^verbatim>\<open>ROW_UPPER_BOUND\<close> is defined outside this header and is a parameter.
\<close>

record GroupBy =
  row_gb :: NewRecord
  attr :: "nat option"

definition GroupBy_new :: "u32 \<Rightarrow> GroupBy" where
  "GroupBy_new ROW_UPPER_BOUND = \<lparr> row_gb = NewRecord_new ROW_UPPER_BOUND, attr = None \<rparr>"

text \<open>
  The tail shared by the constructor, \<^verbatim>\<open>set\<close> and \<^verbatim>\<open>read\<close>: bind \<open>attr\<close> to column
  \<open>Column\<close> of the row if the row has columns, to \<^verbatim>\<open>NULL\<close> otherwise.
\<close>

definition GroupBy_bind :: "u32 \<Rightarrow> NewRecord \<Rightarrow> error + GroupBy" where
  "GroupBy_bind Column r =
     (if num_cols r \<noteq> 0
      then ebind (get_attr r Column) (\<lambda>p. Inr \<lparr> row_gb = r, attr = Some p \<rparr>)
      else Inr \<lparr> row_gb = r, attr = None \<rparr>)"

text \<open>\<^verbatim>\<open>GroupBy(NewRecord *record)\<close>.\<close>

definition GroupBy_of :: "u32 \<Rightarrow> u32 \<Rightarrow> NewRecord \<Rightarrow> error + GroupBy" where
  "GroupBy_of ROW_UPPER_BOUND Column record =
     ebind (set_record (NewRecord_new ROW_UPPER_BOUND) record) (GroupBy_bind Column)"

text \<open>\<^verbatim>\<open>void set(GroupBy *other)\<close>.\<close>

definition GroupBy_set :: "u32 \<Rightarrow> GroupBy \<Rightarrow> GroupBy \<Rightarrow> error + GroupBy" where
  "GroupBy_set Column this other =
     ebind (set_record (row_gb this) (row_gb other)) (GroupBy_bind Column)"

text \<open>\<^verbatim>\<open>bool equals(GroupBy *other)\<close>.\<close>

definition GroupBy_equals :: "GroupBy \<Rightarrow> GroupBy \<Rightarrow> bool" where
  "GroupBy_equals this other =
     (case (attr this, attr other) of
        (Some a, Some b) \<Rightarrow> attrs_equal (row (row_gb this)) a (row (row_gb other)) b
      | _ \<Rightarrow> False)"

text \<open>\<^verbatim>\<open>template<uint32_t Column1, uint32_t Column2> class GroupBy2\<close>.\<close>

record GroupBy2 =
  row_gb2 :: NewRecord
  attr1 :: "nat option"
  attr2 :: "nat option"

definition GroupBy2_new :: "u32 \<Rightarrow> GroupBy2" where
  "GroupBy2_new ROW_UPPER_BOUND =
     \<lparr> row_gb2 = NewRecord_new ROW_UPPER_BOUND, attr1 = None, attr2 = None \<rparr>"

definition GroupBy2_bind :: "u32 \<Rightarrow> u32 \<Rightarrow> NewRecord \<Rightarrow> error + GroupBy2" where
  "GroupBy2_bind Column1 Column2 r =
     (if num_cols r \<noteq> 0
      then ebind (get_attr r Column1)
             (\<lambda>p1. ebind (get_attr r Column2)
                (\<lambda>p2. Inr \<lparr> row_gb2 = r, attr1 = Some p1, attr2 = Some p2 \<rparr>))
      else Inr \<lparr> row_gb2 = r, attr1 = None, attr2 = None \<rparr>)"

definition GroupBy2_of :: "u32 \<Rightarrow> u32 \<Rightarrow> u32 \<Rightarrow> NewRecord \<Rightarrow> error + GroupBy2" where
  "GroupBy2_of ROW_UPPER_BOUND Column1 Column2 record =
     ebind (set_record (NewRecord_new ROW_UPPER_BOUND) record) (GroupBy2_bind Column1 Column2)"

definition GroupBy2_set :: "u32 \<Rightarrow> u32 \<Rightarrow> GroupBy2 \<Rightarrow> GroupBy2 \<Rightarrow> error + GroupBy2" where
  "GroupBy2_set Column1 Column2 this other =
     ebind (set_record (row_gb2 this) (row_gb2 other)) (GroupBy2_bind Column1 Column2)"

definition GroupBy2_equals :: "GroupBy2 \<Rightarrow> GroupBy2 \<Rightarrow> bool" where
  "GroupBy2_equals this other =
     (case (attr1 this, attr1 other, attr2 this, attr2 other) of
        (Some a, Some b, Some c, Some d) \<Rightarrow>
          attrs_equal (row (row_gb2 this)) a (row (row_gb2 other)) b
          \<and> attrs_equal (row (row_gb2 this)) c (row (row_gb2 other)) d
      | _ \<Rightarrow> False)"

section \<open>Aggregation functions\<close>

text \<open>
  \<^verbatim>\<open>template<uint32_t Column, typename Type> class Sum\<close> and \<^verbatim>\<open>class Avg\<close>, at
  \<^verbatim>\<open>Type = uint32_t\<close>: \<^verbatim>\<open>sum +=\<close> and \<^verbatim>\<open>count++\<close> wrap around at \<open>2^32\<close>. The value of a
  record's column is loaded from the four bytes at \<^verbatim>\<open>get_attr_value(Column)\<close>.
\<close>

record Sum =
  sum_val :: u32

definition Sum_new :: Sum where
  "Sum_new = \<lparr> sum_val = 0 \<rparr>"

definition Sum_zero :: "Sum \<Rightarrow> Sum" where
  "Sum_zero s = s\<lparr> sum_val := 0 \<rparr>"

definition load_u32 :: "NewRecord \<Rightarrow> nat \<Rightarrow> error + u32" where
  "load_u32 record p =
     (if p + 4 \<le> length (row record) then Inr (rd32 (drop p (row record)))
      else Inl OutOfBounds)"

definition Sum_add_record :: "u32 \<Rightarrow> Sum \<Rightarrow> NewRecord \<Rightarrow> error + Sum" where
  "Sum_add_record Column s record =
     ebind (get_attr_value record Column)
       (\<lambda>p. ebind (load_u32 record p) (\<lambda>v. Inr (s\<lparr> sum_val := sum_val s + v \<rparr>)))"

definition Sum_add :: "Sum \<Rightarrow> Sum \<Rightarrow> Sum" where
  "Sum_add s other = s\<lparr> sum_val := sum_val s + sum_val other \<rparr>"

record Avg =
  sum_avg :: u32
  count_avg :: u32

definition Avg_new :: Avg where
  "Avg_new = \<lparr> sum_avg = 0, count_avg = 0 \<rparr>"

definition Avg_zero :: "Avg \<Rightarrow> Avg" where
  "Avg_zero a = a\<lparr> sum_avg := 0, count_avg := 0 \<rparr>"

definition Avg_add_record :: "u32 \<Rightarrow> Avg \<Rightarrow> NewRecord \<Rightarrow> error + Avg" where
  "Avg_add_record Column a record =
     ebind (get_attr_value record Column)
       (\<lambda>p. ebind (load_u32 record p)
          (\<lambda>v. Inr (a\<lparr> sum_avg := sum_avg a + v, count_avg := count_avg a + 1 \<rparr>)))"

definition Avg_add :: "Avg \<Rightarrow> Avg \<Rightarrow> Avg" where
  "Avg_add a other =
     a\<lparr> sum_avg := sum_avg a + sum_avg other, count_avg := count_avg a + count_avg other \<rparr>"

section \<open>Aggregators\<close>

text \<open>
  \<^verbatim>\<open>Aggregator1<GroupByType, Agg1Type>\<close> and \<^verbatim>\<open>Aggregator2<GroupByType, Agg1Type, Agg2Type>\<close>
  are templates. A template argument is passed as the record of the member functions
  that the aggregator calls on it, so that one definition covers every instantiation.
\<close>

record 'g groupby_ops =
  new_group :: 'g
  of_record :: "NewRecord \<Rightarrow> error + 'g"
  set_group :: "'g \<Rightarrow> 'g \<Rightarrow> error + 'g"
  equals :: "'g \<Rightarrow> 'g \<Rightarrow> bool"

record 'a agg_ops =
  new_agg :: 'a
  zero :: "'a \<Rightarrow> 'a"
  add_record :: "'a \<Rightarrow> NewRecord \<Rightarrow> error + 'a"
  add_other :: "'a \<Rightarrow> 'a \<Rightarrow> 'a"

definition GroupBy_ops :: "u32 \<Rightarrow> u32 \<Rightarrow> GroupBy groupby_ops" where
  "GroupBy_ops ROW_UPPER_BOUND Column =
     \<lparr> new_group = GroupBy_new ROW_UPPER_BOUND,
       of_record = GroupBy_of ROW_UPPER_BOUND Column,
       set_group = GroupBy_set Column,
       equals = GroupBy_equals \<rparr>"

definition GroupBy2_ops :: "u32 \<Rightarrow> u32 \<Rightarrow> u32 \<Rightarrow> GroupBy2 groupby_ops" where
  "GroupBy2_ops ROW_UPPER_BOUND Column1 Column2 =
     \<lparr> new_group = GroupBy2_new ROW_UPPER_BOUND,
       of_record = GroupBy2_of ROW_UPPER_BOUND Column1 Column2,
       set_group = GroupBy2_set Column1 Column2,
       equals = GroupBy2_equals \<rparr>"

definition Sum_ops :: "u32 \<Rightarrow> Sum agg_ops" where
  "Sum_ops Column =
     \<lparr> new_agg = Sum_new, zero = Sum_zero, add_record = Sum_add_record Column,
       add_other = Sum_add \<rparr>"

definition Avg_ops :: "u32 \<Rightarrow> Avg agg_ops" where
  "Avg_ops Column =
     \<lparr> new_agg = Avg_new, zero = Avg_zero, add_record = Avg_add_record Column,
       add_other = Avg_add \<rparr>"

record ('g, 'a) Aggregator1 =
  num_distinct :: u32
  offset :: u32
  g :: 'g
  a1 :: 'a

record ('g, 'a, 'b) Aggregator2 = "('g, 'a) Aggregator1" +
  a2 :: 'b

text \<open>\<^verbatim>\<open>Aggregator1()\<close> and \<^verbatim>\<open>Aggregator2()\<close>.\<close>

definition Aggregator1_new :: "'g groupby_ops \<Rightarrow> 'a agg_ops \<Rightarrow> ('g, 'a) Aggregator1" where
  "Aggregator1_new G A1 =
     \<lparr> num_distinct = 0, offset = 0, g = new_group G, a1 = new_agg A1 \<rparr>"

definition Aggregator2_new ::
  "'g groupby_ops \<Rightarrow> 'a agg_ops \<Rightarrow> 'b agg_ops \<Rightarrow> ('g, 'a, 'b) Aggregator2" where
  "Aggregator2_new G A1 A2 =
     \<lparr> num_distinct = 0, offset = 0, g = new_group G, a1 = new_agg A1, a2 = new_agg A2 \<rparr>"

text \<open>\<^verbatim>\<open>void Aggregator1::aggregate(NewRecord *record)\<close>.\<close>

definition Aggregator1_aggregate ::
  "'g groupby_ops \<Rightarrow> 'a agg_ops \<Rightarrow> ('g, 'a) Aggregator1 \<Rightarrow> NewRecord
     \<Rightarrow> error + ('g, 'a) Aggregator1" where
  "Aggregator1_aggregate G A1 this record =
     ebind (of_record G record)
       (\<lambda>g2. if equals G (g this) g2
             then ebind (add_record A1 (a1 this) record) (\<lambda>x. Inr (this\<lparr> a1 := x \<rparr>))
             else ebind (set_group G (g this) g2)
                    (\<lambda>g'. ebind (add_record A1 (zero A1 (a1 this)) record)
                       (\<lambda>x. Inr (this\<lparr> num_distinct := num_distinct this + 1,
                                       g := g', a1 := x \<rparr>))))"

text \<open>\<^verbatim>\<open>void Aggregator2::aggregate(NewRecord *record)\<close>.\<close>

definition Aggregator2_aggregate ::
  "'g groupby_ops \<Rightarrow> 'a agg_ops \<Rightarrow> 'b agg_ops \<Rightarrow> ('g, 'a, 'b) Aggregator2 \<Rightarrow> NewRecord
     \<Rightarrow> error + ('g, 'a, 'b) Aggregator2" where
  "Aggregator2_aggregate G A1 A2 this record =
     ebind (of_record G record)
       (\<lambda>g2. if equals G (g this) g2
             then ebind (add_record A1 (a1 this) record)
                    (\<lambda>x. ebind (add_record A2 (a2 this) record)
                       (\<lambda>y. Inr (this\<lparr> a1 := x, a2 := y \<rparr>)))
             else ebind (set_group G (g this) g2)
                    (\<lambda>g'. ebind (add_record A1 (zero A1 (a1 this)) record)
                       (\<lambda>x. ebind (add_record A2 (zero A2 (a2 this)) record)
                          (\<lambda>y. Inr (this\<lparr> num_distinct := num_distinct this + 1,
                                          g := g', a1 := x, a2 := y \<rparr>)))))"

text \<open>\<^verbatim>\<open>bool grouping_attrs_equal(Aggregator *other)\<close>, the same in both classes.\<close>

definition grouping_attrs_equal ::
  "'g groupby_ops \<Rightarrow> ('g, 'a, 'm) Aggregator1_scheme \<Rightarrow> ('g, 'a, 'm) Aggregator1_scheme \<Rightarrow> bool" where
  "grouping_attrs_equal G this other = equals G (g this) (g other)"

text \<open>
  \<^verbatim>\<open>bool grouping_attrs_equal(NewRecord *record)\<close>: a dummy record is treated as belonging
  to no group.
\<close>

definition grouping_attrs_equal_record ::
  "(byte \<Rightarrow> bool) \<Rightarrow> 'g groupby_ops \<Rightarrow> ('g, 'a, 'm) Aggregator1_scheme \<Rightarrow> NewRecord
     \<Rightarrow> error + bool" where
  "grouping_attrs_equal_record D G this record =
     ebind (is_dummy D record)
       (\<lambda>d. if d then Inr False
            else ebind (of_record G record) (\<lambda>g2. Inr (equals G (g this) g2)))"

text \<open>
  \<^verbatim>\<open>void Aggregator1::aggregate(Aggregator1 *other)\<close>: the \<^verbatim>\<open>check\<close> aborts when the
  grouping attributes differ.
\<close>

definition Aggregator1_combine ::
  "'g groupby_ops \<Rightarrow> 'a agg_ops \<Rightarrow> ('g, 'a) Aggregator1 \<Rightarrow> ('g, 'a) Aggregator1
     \<Rightarrow> error + ('g, 'a) Aggregator1" where
  "Aggregator1_combine G A1 this other =
     (if grouping_attrs_equal G this other
      then Inr (this\<lparr> a1 := add_other A1 (a1 this) (a1 other) \<rparr>)
      else Inl GroupingMismatch)"

text \<open>\<^verbatim>\<open>void Aggregator2::aggregate(Aggregator2 *other)\<close>.\<close>

definition Aggregator2_combine ::
  "'g groupby_ops \<Rightarrow> 'a agg_ops \<Rightarrow> 'b agg_ops \<Rightarrow> ('g, 'a, 'b) Aggregator2
     \<Rightarrow> ('g, 'a, 'b) Aggregator2 \<Rightarrow> error + ('g, 'a, 'b) Aggregator2" where
  "Aggregator2_combine G A1 A2 this other =
     (if grouping_attrs_equal G this other
      then Inr (this\<lparr> a1 := add_other A1 (a1 this) (a1 other),
                     a2 := add_other A2 (a2 this) (a2 other) \<rparr>)
      else Inl GroupingMismatch)"

section \<open>The state machine of the aggregators, in the words of the specification\<close>

text \<open>
  The specification describes a record as \<^verbatim>\<open>[num_cols][attr_1]...[attr_n]\<close> with a logical
  length: walking over \<open>num_cols\<close> attributes from offset 4 ends at \<open>row_length\<close>, inside
  the buffer.
\<close>

definition wf_record :: "NewRecord \<Rightarrow> bool" where
  "wf_record r =
     (attr_walk (row r) 4 (unat (num_cols r)) = Inr (unat (row_length r))
      \<and> unat (row_length r) \<le> length (row r))"

text \<open>
  The state of a \<^verbatim>\<open>GroupBy<Column>\<close> that its constructors, \<^verbatim>\<open>set\<close> and \<^verbatim>\<open>read\<close> leave: a
  row buffer of \<^verbatim>\<open>ROW_UPPER_BOUND\<close> bytes, and \<open>attr\<close> either \<^verbatim>\<open>NULL\<close> with an empty row or the
  pointer to column \<open>Column\<close> of a row that has columns.
\<close>

definition GroupBy_inv :: "u32 \<Rightarrow> u32 \<Rightarrow> GroupBy \<Rightarrow> bool" where
  "GroupBy_inv ROW_UPPER_BOUND Column x =
     (length (row (row_gb x)) = unat ROW_UPPER_BOUND
      \<and> (case attr x of
            None \<Rightarrow> num_cols (row_gb x) = 0
          | Some p \<Rightarrow> num_cols (row_gb x) \<noteq> 0 \<and> get_attr (row_gb x) Column = Inr p))"

definition GroupBy2_inv :: "u32 \<Rightarrow> u32 \<Rightarrow> u32 \<Rightarrow> GroupBy2 \<Rightarrow> bool" where
  "GroupBy2_inv ROW_UPPER_BOUND Column1 Column2 x =
     (length (row (row_gb2 x)) = unat ROW_UPPER_BOUND
      \<and> (case (attr1 x, attr2 x) of
            (None, None) \<Rightarrow> num_cols (row_gb2 x) = 0
          | (Some p1, Some p2) \<Rightarrow>
              num_cols (row_gb2 x) \<noteq> 0 \<and> get_attr (row_gb2 x) Column1 = Inr p1
              \<and> get_attr (row_gb2 x) Column2 = Inr p2
          | _ \<Rightarrow> False))"

text \<open>
  Column \<open>Column\<close> of the group row \<open>grow\<close> and of the record \<open>r\<close> hold the same attribute
  (\<^verbatim>\<open>attrs_equal\<close>); false when either has no such column.
\<close>

definition same_attr :: "u32 \<Rightarrow> NewRecord \<Rightarrow> NewRecord \<Rightarrow> bool" where
  "same_attr Column grow r =
     (case (get_attr grow Column, get_attr r Column) of
        (Inr a, Inr b) \<Rightarrow> attrs_equal (row grow) a (row r) b
      | _ \<Rightarrow> False)"

text \<open>
  \<open>c\<close> holds a copy of the logical bytes of \<open>r\<close>, as \<^verbatim>\<open>set\<close> leaves it.
\<close>

definition copy_of :: "NewRecord \<Rightarrow> NewRecord \<Rightarrow> bool" where
  "copy_of c r = (row_length c = row_length r
     \<and> take (unat (row_length r)) (row c) = take (unat (row_length r)) (row r)
     \<and> unat (row_length r) \<le> length (row c))"

text \<open>
  The two transitions of \<^verbatim>\<open>aggregate(record)\<close> as the specification words them. "Add the
  record into each aggregate state":
\<close>

definition add_into1 ::
  "'a agg_ops \<Rightarrow> ('g, 'a) Aggregator1 \<Rightarrow> NewRecord \<Rightarrow> error + ('g, 'a) Aggregator1" where
  "add_into1 A1 this r = ebind (add_record A1 (a1 this) r) (\<lambda>x. Inr (this\<lparr> a1 := x \<rparr>))"

definition add_into2 ::
  "'a agg_ops \<Rightarrow> 'b agg_ops \<Rightarrow> ('g, 'a, 'b) Aggregator2 \<Rightarrow> NewRecord
     \<Rightarrow> error + ('g, 'a, 'b) Aggregator2" where
  "add_into2 A1 A2 this r =
     ebind (add_record A1 (a1 this) r)
       (\<lambda>x. ebind (add_record A2 (a2 this) r) (\<lambda>y. Inr (this\<lparr> a1 := x, a2 := y \<rparr>)))"

text \<open>
  "Increment \<^verbatim>\<open>num_distinct\<close>, replace \<^verbatim>\<open>group\<close>, zero all aggregate states, then add the
  record into each", where \<open>g'\<close> is the new group:
\<close>

definition open_group1 ::
  "'a agg_ops \<Rightarrow> ('g, 'a) Aggregator1 \<Rightarrow> 'g \<Rightarrow> NewRecord \<Rightarrow> error + ('g, 'a) Aggregator1" where
  "open_group1 A1 this g' r =
     add_into1 A1 (this\<lparr> num_distinct := num_distinct this + 1, g := g',
                         a1 := zero A1 (a1 this) \<rparr>) r"

definition open_group2 ::
  "'a agg_ops \<Rightarrow> 'b agg_ops \<Rightarrow> ('g, 'a, 'b) Aggregator2 \<Rightarrow> 'g \<Rightarrow> NewRecord
     \<Rightarrow> error + ('g, 'a, 'b) Aggregator2" where
  "open_group2 A1 A2 this g' r =
     add_into2 A1 A2 (this\<lparr> num_distinct := num_distinct this + 1, g := g',
                            a1 := zero A1 (a1 this), a2 := zero A2 (a2 this) \<rparr>) r"

text \<open>
  The value that \<^verbatim>\<open>Sum<Column, uint32_t>::add(record)\<close> and \<^verbatim>\<open>Avg<Column, uint32_t>::add(record)\<close>
  add: the \<^verbatim>\<open>uint32_t\<close> at \<^verbatim>\<open>record->get_attr_value(Column)\<close>.
\<close>

definition column_u32 :: "NewRecord \<Rightarrow> u32 \<Rightarrow> error + u32" where
  "column_u32 r Column = ebind (get_attr_value r Column) (load_u32 r)"

section \<open>Sample data\<close>

text \<open>
  Concrete inputs on which the theorems below are evaluated. The type tags are defined
  outside this header: the samples use tag 1 for a four-byte integer and take tag 101 to
  be its dummy counterpart; \<open>sample_is_dummy_type\<close> is a catalog of dummy tags that says so.
  \<open>sample_record\<close> is the row \<open>(7, 5)\<close> and \<open>sample_dummy_record\<close> the same row with both
  type tags switched to the dummy tag, each in a buffer of 32 bytes.
\<close>

definition sample_is_dummy_type :: "byte \<Rightarrow> bool" where
  "sample_is_dummy_type t = (t = 101)"

definition sample_record :: NewRecord where
  "sample_record =
     \<lparr> row = [2, 0, 0, 0,  1, 4, 0, 0, 0, 7, 0, 0, 0,  1, 4, 0, 0, 0, 5, 0, 0, 0,
              0, 0, 0, 0, 0, 0, 0, 0, 0, 0],
       row_length = 22 \<rparr>"

definition sample_dummy_record :: NewRecord where
  "sample_dummy_record =
     \<lparr> row = [2, 0, 0, 0,  101, 4, 0, 0, 0, 7, 0, 0, 0,  101, 4, 0, 0, 0, 5, 0, 0, 0,
              0, 0, 0, 0, 0, 0, 0, 0, 0, 0],
       row_length = 22 \<rparr>"

text \<open>
  \<open>sample_record2\<close> is the row \<open>(9, 3)\<close>, of another group than \<open>sample_record\<close> under
  \<^verbatim>\<open>GroupBy<1>\<close>, and \<open>sample_dummy_record2\<close> the same row with the dummy tags.
\<close>

definition sample_record2 :: NewRecord where
  "sample_record2 =
     \<lparr> row = [2, 0, 0, 0,  1, 4, 0, 0, 0, 9, 0, 0, 0,  1, 4, 0, 0, 0, 3, 0, 0, 0,
              0, 0, 0, 0, 0, 0, 0, 0, 0, 0],
       row_length = 22 \<rparr>"

definition sample_dummy_record2 :: NewRecord where
  "sample_dummy_record2 =
     \<lparr> row = [2, 0, 0, 0,  101, 4, 0, 0, 0, 9, 0, 0, 0,  101, 4, 0, 0, 0, 3, 0, 0, 0,
              0, 0, 0, 0, 0, 0, 0, 0, 0, 0],
       row_length = 22 \<rparr>"

text \<open>
  The state of an \<^verbatim>\<open>Aggregator1<GroupBy<1>, Sum<2, uint32_t>>\<close> that has aggregated
  \<open>sample_record\<close>, and the same for an \<^verbatim>\<open>Aggregator2\<close> with an \<^verbatim>\<open>Avg<2, uint32_t>\<close>.
\<close>

definition sample_aggregator1 :: "(GroupBy, Sum) Aggregator1" where
  "sample_aggregator1 =
     \<lparr> num_distinct = 1, offset = 0, g = \<lparr> row_gb = sample_record, attr = Some 4 \<rparr>,
       a1 = \<lparr> sum_val = 5 \<rparr> \<rparr>"

definition sample_aggregator2 :: "(GroupBy, Sum, Avg) Aggregator2" where
  "sample_aggregator2 =
     \<lparr> num_distinct = 1, offset = 0, g = \<lparr> row_gb = sample_record, attr = Some 4 \<rparr>,
       a1 = \<lparr> sum_val = 5 \<rparr>, a2 = \<lparr> sum_avg = 5, count_avg = 1 \<rparr> \<rparr>"

section \<open>The environment of the block readers and writers\<close>

text \<open>
  The readers and writers use constants and functions that this header does not define:
  the compile-time constants \<^verbatim>\<open>ROW_UPPER_BOUND\<close> and \<^verbatim>\<open>MAX_BLOCK_SIZE\<close>, the cipher
  (\<^verbatim>\<open>enc_size\<close>, \<^verbatim>\<open>encrypt_with_aad\<close>, \<^verbatim>\<open>decrypt\<close>), the transformations of the streaming
  cipher, \<^verbatim>\<open>NewRecord::row_upper_bound\<close> and \<^verbatim>\<open>task_id_parser\<close>. They are the fields of
  the environment \<open>E\<close> that every function below takes, so that each theorem holds for
  every choice of them.
  \<^item> \<open>encrypt_with_aad E pt aad\<close> is the ciphertext that
    \<^verbatim>\<open>encrypt_with_aad(pt, len, out, aad, aad_len)\<close> writes at \<^verbatim>\<open>out\<close>.
  \<^item> \<open>decrypt E ct\<close> is the plaintext that \<^verbatim>\<open>decrypt(ct, ct_len, out)\<close> writes at \<^verbatim>\<open>out\<close>, or
    \<open>None\<close> when the cipher rejects the ciphertext.
  \<^item> \<open>stream_encrypt E pt\<close> is the whole output of a \<^verbatim>\<open>StreamCipher\<close> that was given the bytes
    \<open>pt\<close> and then finished.
  \<^item> \<open>stream_decrypt E ct k n\<close> is what a \<^verbatim>\<open>StreamDecipher\<close> over the ciphertext \<open>ct\<close> returns
    for the next \<open>n\<close> bytes after it has served \<open>k\<close>, or \<open>None\<close> when it fails.
\<close>

record env =
  ROW_UPPER_BOUND :: u32
  MAX_BLOCK_SIZE :: u32
  enc_size :: "u32 \<Rightarrow> u32"
  encrypt_with_aad :: "byte list \<Rightarrow> byte list \<Rightarrow> byte list"
  decrypt :: "byte list \<Rightarrow> byte list option"
  record_row_upper_bound :: "NewRecord \<Rightarrow> u32"
  task_id_parser :: "u32 \<Rightarrow> u32 \<Rightarrow> u32"
  stream_encrypt :: "byte list \<Rightarrow> byte list"
  stream_decrypt :: "byte list \<Rightarrow> nat \<Rightarrow> nat \<Rightarrow> byte list option"

text \<open>
  A store into a buffer that is not a row: outside the buffer it is undefined behaviour
  in the source and \<open>OutOfBounds\<close> here.
\<close>

definition mem_store :: "byte list \<Rightarrow> nat \<Rightarrow> byte list \<Rightarrow> error + byte list" where
  "mem_store mem p bs =
     (if p + length bs \<le> length mem then Inr (store_bytes mem p bs) else Inl OutOfBounds)"

text \<open>
  Modelled from the spec: \<^verbatim>\<open>NewRecord::write(uint8_t *output)\<close> writes the logical bytes of
  the row and returns their number. The result is the bytes written.
\<close>

definition write_record :: "NewRecord \<Rightarrow> error + byte list" where
  "write_record r =
     (if unat (row_length r) \<le> length (row r)
      then Inr (load_bytes (row r) 0 (unat (row_length r)))
      else Inl OutOfBounds)"

text \<open>
  Modelled from the spec: \<^verbatim>\<open>NewRecord::read(const uint8_t *input)\<close> parses \<^verbatim>\<open>num_cols\<close> and
  then that many attributes from \<open>input\<close>, here the offset \<open>p\<close> of the buffer \<open>inp\<close>, copies
  them into the row and returns the number of bytes consumed.
\<close>

definition read_record :: "NewRecord \<Rightarrow> byte list \<Rightarrow> nat \<Rightarrow> error + (NewRecord \<times> u32)" where
  "read_record r inp p =
     (if p + 4 \<le> length inp
      then ebind (attr_walk inp (p + 4) (unat (rd32 (drop p inp))))
             (\<lambda>q. if q \<le> length inp
                   then ebind (row_store r 0 (load_bytes inp p (q - p)))
                          (\<lambda>r'. Inr (r'\<lparr> row_length := word_of_nat (q - p) \<rparr>, word_of_nat (q - p)))
                   else Inl OutOfBounds)
      else Inl OutOfBounds)"

section \<open>RowWriter\<close>

text \<open>
  \<^verbatim>\<open>class RowWriter\<close>. \<open>mem\<close> is the caller's output buffer, with \<^verbatim>\<open>buf_start\<close> and
  \<^verbatim>\<open>buf_pos\<close> offsets into it; \<open>block\<close> is the memory at \<^verbatim>\<open>block_start\<close>, the
  \<^verbatim>\<open>malloc(MAX_BLOCK_SIZE)\<close> staging buffer, with \<^verbatim>\<open>block_pos\<close> an offset into it.
\<close>

record RowWriter =
  mem :: "byte list"
  buf_start :: nat
  buf_pos :: nat
  row_upper_bound :: u32
  block :: "byte list"
  block_pos :: nat
  block_num_rows :: u32
  block_padded_len :: u32
  self_task_id :: u32

text \<open>
  \<^verbatim>\<open>RowWriter(uint8_t *buf, uint32_t row_upper_bound)\<close>. The staging buffer comes from
  \<^verbatim>\<open>malloc\<close>, so its initial contents \<open>blk\<close> are whatever the allocator returns.
\<close>

definition RowWriter_new :: "byte list \<Rightarrow> u32 \<Rightarrow> byte list \<Rightarrow> RowWriter" where
  "RowWriter_new buf rub blk =
     \<lparr> mem = buf, buf_start = 0, buf_pos = 0, row_upper_bound = rub, block = blk,
       block_pos = 0, block_num_rows = 0, block_padded_len = 0, self_task_id = 0 \<rparr>"

definition set_self_task_id :: "RowWriter \<Rightarrow> u32 \<Rightarrow> RowWriter" where
  "set_self_task_id w t = w\<lparr> self_task_id := t \<rparr>"

text \<open>\<^verbatim>\<open>void RowWriter::finish_block()\<close>.\<close>

definition RowWriter_finish_block :: "env \<Rightarrow> RowWriter \<Rightarrow> error + RowWriter" where
  "RowWriter_finish_block E w =
     ebind (mem_store (mem w) (buf_pos w) (le32 (enc_size E (block_padded_len w))))
     (\<lambda>m1. ebind (mem_store m1 (buf_pos w + 4) (le32 (block_num_rows w)))
     (\<lambda>m2. ebind (mem_store m2 (buf_pos w + 8) (le32 (row_upper_bound w)))
     (\<lambda>m3. ebind (mem_store m3 (buf_pos w + 12) (le32 (self_task_id w)))
     (\<lambda>m4. let p = buf_pos w + 16 in
        if unat (block_padded_len w) \<le> length (block w)
        then ebind (mem_store m4 p
                      (encrypt_with_aad E (load_bytes (block w) 0 (unat (block_padded_len w)))
                         (load_bytes m4 (p - 16) 16)))
               (\<lambda>m5. Inr (w\<lparr> mem := m5,
                               buf_pos := p + unat (enc_size E (block_padded_len w)),
                               block_pos := 0, block_num_rows := 0, block_padded_len := 0 \<rparr>))
        else Inl OutOfBounds))))"

text \<open>\<^verbatim>\<open>void RowWriter::maybe_finish_block(uint32_t next_row_size)\<close>.\<close>

definition RowWriter_maybe_finish_block :: "env \<Rightarrow> RowWriter \<Rightarrow> u32 \<Rightarrow> error + RowWriter" where
  "RowWriter_maybe_finish_block E w next_row_size =
     (if block_padded_len w + next_row_size > MAX_BLOCK_SIZE E
      then RowWriter_finish_block E w else Inr w)"

text \<open>
  \<^verbatim>\<open>void RowWriter::write(NewRecord *row)\<close>. The row is stored in the staging buffer
  before the \<^verbatim>\<open>check\<close> on its length.
\<close>

definition RowWriter_write :: "env \<Rightarrow> RowWriter \<Rightarrow> NewRecord \<Rightarrow> error + RowWriter" where
  "RowWriter_write E w0 r =
     ebind (RowWriter_maybe_finish_block E w0 (ROW_UPPER_BOUND E))
     (\<lambda>w. ebind (write_record r)
     (\<lambda>bs. ebind (mem_store (block w) (block_pos w) bs)
     (\<lambda>blk. let delta = (word_of_nat (length bs) :: u32) in
        if delta \<le> (if row_upper_bound w = 0 then ROW_UPPER_BOUND E else row_upper_bound w)
        then let rub = (if row_upper_bound w = 0 then record_row_upper_bound E r
                        else row_upper_bound w)
             in Inr (w\<lparr> block := blk, block_pos := block_pos w + unat delta,
                         block_num_rows := block_num_rows w + 1,
                         row_upper_bound := rub,
                         block_padded_len := block_padded_len w + rub \<rparr>)
        else Inl CapacityExceeded)))"

text \<open>\<^verbatim>\<open>void RowWriter::write(NewJoinRecord *row)\<close>: the same code on the wrapped row.\<close>

definition RowWriter_write_join :: "env \<Rightarrow> RowWriter \<Rightarrow> NewJoinRecord \<Rightarrow> error + RowWriter" where
  "RowWriter_write_join E w j = RowWriter_write E w (row_jr j)"

definition RowWriter_close :: "env \<Rightarrow> RowWriter \<Rightarrow> error + RowWriter" where
  "RowWriter_close E w = RowWriter_finish_block E w"

text \<open>
  \<^verbatim>\<open>uint32_t RowWriter::bytes_written()\<close>: the distance \<^verbatim>\<open>buf_pos - buf_start\<close>, converted to a
  \<^verbatim>\<open>uint32_t\<close>.
\<close>

definition RowWriter_bytes_written :: "RowWriter \<Rightarrow> u32" where
  "RowWriter_bytes_written w = word_of_nat (RowWriter.buf_pos w - RowWriter.buf_start w)"

section \<open>RowReader\<close>

text \<open>
  \<^verbatim>\<open>class RowReader\<close>. \<open>mem\<close> is the buffer that the pointers \<^verbatim>\<open>buf\<close> and \<^verbatim>\<open>buf_end\<close> point
  into, \<open>block\<close> the memory at \<^verbatim>\<open>block_start\<close>. The verify sink \<^verbatim>\<open>Verify\<close> is defined outside
  this header; it is the list of the task ids given to \<^verbatim>\<open>add_node\<close>, and \<open>None\<close> is the
  \<^verbatim>\<open>NULL\<close> sink.
\<close>

record RowReader =
  mem :: "byte list"
  buf :: nat
  buf_end :: nat
  block :: "byte list"
  block_pos :: nat
  block_num_rows :: u32
  block_rows_read :: u32
  verify_set :: "u32 list option"

text \<open>\<^verbatim>\<open>void RowReader::add_parent(uint32_t task_id)\<close>. No member of the class calls it.\<close>

definition RowReader_add_parent :: "RowReader \<Rightarrow> u32 \<Rightarrow> RowReader" where
  "RowReader_add_parent r task_id =
     (case verify_set r of
        None \<Rightarrow> r
      | Some v \<Rightarrow> r\<lparr> verify_set := Some (v @ [task_id]) \<rparr>)"

text \<open>
  \<^verbatim>\<open>void RowReader::read_encrypted_block()\<close>. Each turn of the \<^verbatim>\<open>while (true)\<close> loop loads
  two words, skips a third, decrypts \<^verbatim>\<open>block_enc_size\<close> bytes from there into the block
  and moves \<^verbatim>\<open>buf\<close> past them. The source checks no bounds; a load past the end of \<open>mem\<close>
  is \<open>OutOfBounds\<close>, so the loop ends on every finite buffer.
\<close>

function RowReader_read_encrypted_block :: "env \<Rightarrow> RowReader \<Rightarrow> error + RowReader" where
  "RowReader_read_encrypted_block E r =
     (if RowReader.buf r + 12 \<le> length (RowReader.mem r)
      then
        let block_enc_size = rd32 (drop (RowReader.buf r) (RowReader.mem r));
            num_rows = rd32 (drop (RowReader.buf r + 4) (RowReader.mem r));
            b = RowReader.buf r + 12
        in if b + unat block_enc_size \<le> length (RowReader.mem r)
           then (case decrypt E (load_bytes (RowReader.mem r) b (unat block_enc_size)) of
                   None \<Rightarrow> Inl CipherError
                 | Some pt \<Rightarrow>
                     ebind (mem_store (RowReader.block r) 0 pt)
                       (\<lambda>blk. let r' = r\<lparr> RowReader.buf := b + unat block_enc_size,
                                            RowReader.block := blk,
                                            RowReader.block_num_rows := num_rows \<rparr>
                              in if num_rows > 0
                                 then Inr (r'\<lparr> RowReader.block_pos := 0, block_rows_read := 0 \<rparr>)
                                 else RowReader_read_encrypted_block E r'))
           else Inl OutOfBounds
      else Inl OutOfBounds)"
  by pat_completeness auto
termination
  by (relation "measure (\<lambda>(E, r). length (RowReader.mem r) - RowReader.buf r)") auto

declare RowReader_read_encrypted_block.simps [simp del]

text \<open>
  \<^verbatim>\<open>RowReader(uint8_t *buf, uint8_t *buf_end, Verify *verify_set)\<close>; \<open>blk\<close> is the initial
  contents of the \<^verbatim>\<open>malloc(MAX_BLOCK_SIZE)\<close> block.
\<close>

definition RowReader_new ::
  "env \<Rightarrow> byte list \<Rightarrow> nat \<Rightarrow> u32 list option \<Rightarrow> byte list \<Rightarrow> error + RowReader" where
  "RowReader_new E input input_end verify blk =
     RowReader_read_encrypted_block E
       \<lparr> RowReader.mem = input, buf = 0, buf_end = input_end, RowReader.block = blk,
         RowReader.block_pos = 0, RowReader.block_num_rows = 0, block_rows_read = 0,
         verify_set = verify \<rparr>"

definition RowReader_maybe_advance_block :: "env \<Rightarrow> RowReader \<Rightarrow> error + RowReader" where
  "RowReader_maybe_advance_block E r =
     (if block_rows_read r \<ge> RowReader.block_num_rows r
      then RowReader_read_encrypted_block E r else Inr r)"

text \<open>\<^verbatim>\<open>void RowReader::read(NewRecord *row)\<close>: the row read and the reader after it.\<close>

definition RowReader_read ::
  "env \<Rightarrow> RowReader \<Rightarrow> NewRecord \<Rightarrow> error + (NewRecord \<times> RowReader)" where
  "RowReader_read E r0 row0 =
     ebind (RowReader_maybe_advance_block E r0)
     (\<lambda>r. ebind (read_record row0 (RowReader.block r) (RowReader.block_pos r))
     (\<lambda>(row1, n). Inr (row1, r\<lparr> RowReader.block_pos := RowReader.block_pos r + unat n,
                                 block_rows_read := block_rows_read r + 1 \<rparr>)))"

definition RowReader_has_next :: "RowReader \<Rightarrow> bool" where
  "RowReader_has_next r =
     (let rows_remain_in_block = block_rows_read r < RowReader.block_num_rows r;
          blocks_remain_in_buf = buf r < buf_end r
      in rows_remain_in_block \<or> blocks_remain_in_buf)"

section \<open>StreamRowReader\<close>

text \<open>
  Modelled from the spec: \<^verbatim>\<open>class StreamDecipher\<close>, which this header only uses. It is
  pinned to a ciphertext (\<^verbatim>\<open>StreamDecipher(buf, size)\<close>, \<^verbatim>\<open>reset(buf, size)\<close>) and decrypts on
  read (\<^verbatim>\<open>decrypt(output, n)\<close>). Its state is the ciphertext and the number of plaintext
  bytes served.
\<close>

record StreamDecipher =
  window :: "byte list"
  served :: nat

definition StreamDecipher_new :: "byte list \<Rightarrow> StreamDecipher" where
  "StreamDecipher_new ct = \<lparr> window = ct, served = 0 \<rparr>"

definition StreamDecipher_reset :: "StreamDecipher \<Rightarrow> byte list \<Rightarrow> StreamDecipher" where
  "StreamDecipher_reset d ct = d\<lparr> window := ct, served := 0 \<rparr>"

definition StreamDecipher_decrypt ::
  "env \<Rightarrow> StreamDecipher \<Rightarrow> nat \<Rightarrow> error + (byte list \<times> StreamDecipher)" where
  "StreamDecipher_decrypt E d n =
     (case stream_decrypt E (window d) (served d) n of
        None \<Rightarrow> Inl CipherError
      | Some bs \<Rightarrow> Inr (bs, d\<lparr> served := served d + n \<rparr>))"

text \<open>
  \<^verbatim>\<open>class StreamRowReader\<close>. \<^verbatim>\<open>cipher\<close> is \<^verbatim>\<open>NULL\<close> (\<open>None\<close>) until the first block is read;
  \<^verbatim>\<open>verify_set\<close> is the \<^verbatim>\<open>std::set<uint32_t>\<close> that the constructor allocates.
\<close>

record StreamRowReader =
  cipher :: "StreamDecipher option"
  mem :: "byte list"
  buf :: nat
  buf_end :: nat
  block_start :: nat
  block_pos :: nat
  block_num_rows :: u32
  block_rows_read :: u32
  cur_block_num :: u32
  verify_set :: "u32 set"

definition StreamRowReader_add_parent :: "StreamRowReader \<Rightarrow> u32 \<Rightarrow> StreamRowReader" where
  "StreamRowReader_add_parent r task_id =
     r\<lparr> StreamRowReader.verify_set := insert task_id (StreamRowReader.verify_set r) \<rparr>"

text \<open>\<^verbatim>\<open>void StreamRowReader::read_encrypted_block()\<close>: one block header, no loop.\<close>

definition StreamRowReader_read_encrypted_block ::
  "env \<Rightarrow> StreamRowReader \<Rightarrow> error + StreamRowReader" where
  "StreamRowReader_read_encrypted_block E r =
     (if StreamRowReader.buf r + 16 \<le> length (StreamRowReader.mem r)
      then
        let block_enc_size = rd32 (drop (StreamRowReader.buf r) (StreamRowReader.mem r));
            num_rows = rd32 (drop (StreamRowReader.buf r + 4) (StreamRowReader.mem r));
            task_id = rd32 (drop (StreamRowReader.buf r + 12) (StreamRowReader.mem r));
            r1 = StreamRowReader_add_parent
                   (r\<lparr> StreamRowReader.block_num_rows := num_rows \<rparr>) task_id;
            b = StreamRowReader.buf r + 16;
            ct = load_bytes (StreamRowReader.mem r) b (unat block_enc_size);
            c = (case cipher r of
                   None \<Rightarrow> StreamDecipher_new ct
                 | Some d \<Rightarrow> StreamDecipher_reset d ct)
        in Inr (r1\<lparr> cipher := Some c,
                    StreamRowReader.buf := b + unat block_enc_size,
                    block_start := b + unat block_enc_size,
                    StreamRowReader.block_pos := b + unat block_enc_size,
                    StreamRowReader.block_rows_read := 0,
                    cur_block_num := cur_block_num r + 1 \<rparr>)
      else Inl OutOfBounds)"

text \<open>\<^verbatim>\<open>StreamRowReader(uint8_t *buf, uint8_t *buf_end)\<close>.\<close>

definition StreamRowReader_new :: "env \<Rightarrow> byte list \<Rightarrow> nat \<Rightarrow> error + StreamRowReader" where
  "StreamRowReader_new E input input_end =
     StreamRowReader_read_encrypted_block E
       \<lparr> cipher = None, StreamRowReader.mem = input, StreamRowReader.buf = 0,
         StreamRowReader.buf_end = input_end, block_start = 0,
         StreamRowReader.block_pos = 0, StreamRowReader.block_num_rows = 0,
         StreamRowReader.block_rows_read = 0, cur_block_num = 0,
         StreamRowReader.verify_set = {} \<rparr>"

definition StreamRowReader_maybe_advance_block ::
  "env \<Rightarrow> StreamRowReader \<Rightarrow> error + StreamRowReader" where
  "StreamRowReader_maybe_advance_block E r =
     (if StreamRowReader.block_rows_read r \<ge> StreamRowReader.block_num_rows r
      then StreamRowReader_read_encrypted_block E r else Inr r)"

text \<open>\<^verbatim>\<open>void StreamRowReader::read_bytes(uint8_t *output, uint32_t num_bytes)\<close>.\<close>

definition read_bytes ::
  "env \<Rightarrow> StreamRowReader \<Rightarrow> nat \<Rightarrow> error + (byte list \<times> StreamRowReader)" where
  "read_bytes E r n =
     (case cipher r of
        None \<Rightarrow> Inl OutOfBounds
      | Some d \<Rightarrow> ebind (StreamDecipher_decrypt E d n) (\<lambda>(bs, d'). Inr (bs, r\<lparr> cipher := Some d' \<rparr>)))"

text \<open>
  Modelled from the spec: \<^verbatim>\<open>NewRecord::read(StreamRowReader *reader)\<close> streams the column
  count and then each attribute (header, then value) through \<^verbatim>\<open>read_bytes\<close>, and returns
  the number of bytes read.
\<close>

fun read_attrs_stream ::
  "env \<Rightarrow> StreamRowReader \<Rightarrow> nat \<Rightarrow> byte list \<Rightarrow> error + (byte list \<times> StreamRowReader)" where
  "read_attrs_stream E r 0 acc = Inr (acc, r)"
| "read_attrs_stream E r (Suc k) acc =
     ebind (read_bytes E r 5)
       (\<lambda>(h, r1). ebind (read_bytes E r1 (unat (rd32 (drop 1 h))))
          (\<lambda>(v, r2). read_attrs_stream E r2 k (acc @ h @ v)))"

definition read_record_stream ::
  "env \<Rightarrow> NewRecord \<Rightarrow> StreamRowReader \<Rightarrow> error + (NewRecord \<times> u32 \<times> StreamRowReader)" where
  "read_record_stream E row0 r =
     ebind (read_bytes E r 4)
       (\<lambda>(h, r1). ebind (read_attrs_stream E r1 (unat (rd32 h)) h)
          (\<lambda>(bs, r2). ebind (row_store row0 0 bs)
             (\<lambda>row1. Inr (row1\<lparr> row_length := word_of_nat (length bs) \<rparr>,
                           word_of_nat (length bs), r2))))"

text \<open>\<^verbatim>\<open>void StreamRowReader::read(NewRecord *row)\<close>.\<close>

definition StreamRowReader_read ::
  "env \<Rightarrow> StreamRowReader \<Rightarrow> NewRecord \<Rightarrow> error + (NewRecord \<times> StreamRowReader)" where
  "StreamRowReader_read E r0 row0 =
     ebind (StreamRowReader_maybe_advance_block E r0)
     (\<lambda>r. ebind (read_record_stream E row0 r)
     (\<lambda>(row1, n, r'). Inr (row1,
          r'\<lparr> StreamRowReader.block_pos := StreamRowReader.block_pos r' + unat n,
              StreamRowReader.block_rows_read := StreamRowReader.block_rows_read r' + 1 \<rparr>)))"

section \<open>StreamRowWriter\<close>

text \<open>
  Modelled from the spec: \<^verbatim>\<open>class StreamCipher\<close>, which this header only uses. The cipher is
  pinned to a position of the output buffer (\<^verbatim>\<open>StreamCipher(ptr)\<close>, \<^verbatim>\<open>reset(ptr)\<close>);
  \<^verbatim>\<open>encrypt(input, size)\<close> feeds it plaintext, \<^verbatim>\<open>finish()\<close> completes the ciphertext and
  \<^verbatim>\<open>bytes_written()\<close> is the length of the ciphertext. Its state is the position and the
  plaintext fed so far. The ciphertext is stored at the position when \<^verbatim>\<open>finish()\<close> runs;
  a cipher that stores parts of it earlier stores them into the same bytes, which nothing
  else writes before \<^verbatim>\<open>finish()\<close>.
\<close>

record StreamCipher =
  out_ptr :: nat
  fed :: "byte list"

definition StreamCipher_new :: "nat \<Rightarrow> StreamCipher" where
  "StreamCipher_new p = \<lparr> out_ptr = p, fed = [] \<rparr>"

definition StreamCipher_reset :: "StreamCipher \<Rightarrow> nat \<Rightarrow> StreamCipher" where
  "StreamCipher_reset c p = c\<lparr> out_ptr := p, fed := [] \<rparr>"

definition StreamCipher_encrypt :: "StreamCipher \<Rightarrow> byte list \<Rightarrow> StreamCipher" where
  "StreamCipher_encrypt c bs = c\<lparr> fed := fed c @ bs \<rparr>"

definition StreamCipher_finish :: "env \<Rightarrow> StreamCipher \<Rightarrow> byte list \<Rightarrow> error + byte list" where
  "StreamCipher_finish E c m = mem_store m (out_ptr c) (stream_encrypt E (fed c))"

definition StreamCipher_bytes_written :: "env \<Rightarrow> StreamCipher \<Rightarrow> u32" where
  "StreamCipher_bytes_written E c = word_of_nat (length (stream_encrypt E (fed c)))"

text \<open>
  \<^verbatim>\<open>class StreamRowWriter\<close>. The member \<^verbatim>\<open>row_upper_bound\<close> is never initialised, read or
  written and is left out.
\<close>

record StreamRowWriter =
  cipher :: StreamCipher
  mem :: "byte list"
  buf_start :: nat
  buf_pos :: nat
  block_num_rows :: u32
  block_len :: u32
  opcode :: u32
  part :: u32

text \<open>\<^verbatim>\<open>StreamRowWriter(uint8_t *buf)\<close>.\<close>

definition StreamRowWriter_new :: "byte list \<Rightarrow> StreamRowWriter" where
  "StreamRowWriter_new output =
     \<lparr> StreamRowWriter.cipher = StreamCipher_new (0 + 12),
       StreamRowWriter.mem = output,
       StreamRowWriter.buf_start = 0,
       StreamRowWriter.buf_pos = 0,
       StreamRowWriter.block_num_rows = 0,
       block_len = 0, opcode = 0, part = 0 \<rparr>"

definition set_opcode :: "StreamRowWriter \<Rightarrow> u32 \<Rightarrow> StreamRowWriter" where
  "set_opcode w v = w\<lparr> opcode := v \<rparr>"

definition set_part_index :: "StreamRowWriter \<Rightarrow> u32 \<Rightarrow> StreamRowWriter" where
  "set_part_index w v = w\<lparr> part := v \<rparr>"

text \<open>\<^verbatim>\<open>void StreamRowWriter::finish_block()\<close>.\<close>

definition StreamRowWriter_finish_block :: "env \<Rightarrow> StreamRowWriter \<Rightarrow> error + StreamRowWriter" where
  "StreamRowWriter_finish_block E w =
     ebind (StreamCipher_finish E (StreamRowWriter.cipher w) (StreamRowWriter.mem w))
     (\<lambda>m0. let w_bytes = StreamCipher_bytes_written E (StreamRowWriter.cipher w) in
        ebind (mem_store m0 (StreamRowWriter.buf_pos w) (le32 w_bytes))
     (\<lambda>m1. ebind (mem_store m1 (StreamRowWriter.buf_pos w + 4)
                     (le32 (StreamRowWriter.block_num_rows w)))
     (\<lambda>m2. ebind (mem_store m2 (StreamRowWriter.buf_pos w + 8) (le32 (ROW_UPPER_BOUND E)))
     (\<lambda>m3. let task_id = task_id_parser E (opcode w) (part w) in
        ebind (mem_store m3 (StreamRowWriter.buf_pos w + 12) (le32 task_id))
     (\<lambda>m4. let p = StreamRowWriter.buf_pos w + 16 + unat w_bytes in
        Inr (w\<lparr> StreamRowWriter.mem := m4,
                 StreamRowWriter.block_num_rows := 0,
                 block_len := 0,
                 StreamRowWriter.buf_pos := p,
                 StreamRowWriter.cipher :=
                   StreamCipher_reset (StreamRowWriter.cipher w) (p + 12) \<rparr>))))))"

text \<open>\<^verbatim>\<open>void StreamRowWriter::maybe_finish_block()\<close>.\<close>

definition StreamRowWriter_maybe_finish_block ::
  "env \<Rightarrow> StreamRowWriter \<Rightarrow> error + StreamRowWriter" where
  "StreamRowWriter_maybe_finish_block E w =
     (if block_len w > MAX_BLOCK_SIZE E then StreamRowWriter_finish_block E w else Inr w)"

text \<open>\<^verbatim>\<open>void StreamRowWriter::write_bytes(uint8_t *input, uint32_t size)\<close>.\<close>

definition write_bytes :: "StreamRowWriter \<Rightarrow> byte list \<Rightarrow> StreamRowWriter" where
  "write_bytes w bs =
     w\<lparr> StreamRowWriter.cipher := StreamCipher_encrypt (StreamRowWriter.cipher w) bs \<rparr>"

text \<open>
  Modelled from the spec: \<^verbatim>\<open>NewRecord::write(StreamRowWriter *writer)\<close> passes the logical
  bytes of the row to \<^verbatim>\<open>write_bytes\<close> and returns their number.
\<close>

definition write_record_stream ::
  "NewRecord \<Rightarrow> StreamRowWriter \<Rightarrow> error + (u32 \<times> StreamRowWriter)" where
  "write_record_stream r w =
     ebind (write_record r) (\<lambda>bs. Inr (word_of_nat (length bs), write_bytes w bs))"

text \<open>\<^verbatim>\<open>uint32_t StreamRowWriter::write(NewRecord *row)\<close>: the length and the writer.\<close>

definition StreamRowWriter_write ::
  "env \<Rightarrow> StreamRowWriter \<Rightarrow> NewRecord \<Rightarrow> error + (u32 \<times> StreamRowWriter)" where
  "StreamRowWriter_write E w0 r =
     ebind (StreamRowWriter_maybe_finish_block E w0)
     (\<lambda>w1. ebind (write_record_stream r w1)
     (\<lambda>(len, w2). Inr (len, w2\<lparr> StreamRowWriter.block_num_rows :=
                                   StreamRowWriter.block_num_rows w2 + 1 \<rparr>)))"

text \<open>\<^verbatim>\<open>uint32_t StreamRowWriter::write(NewJoinRecord *row)\<close>.\<close>

definition StreamRowWriter_write_join ::
  "env \<Rightarrow> StreamRowWriter \<Rightarrow> NewJoinRecord \<Rightarrow> error + (u32 \<times> StreamRowWriter)" where
  "StreamRowWriter_write_join E w j = StreamRowWriter_write E w (row_jr j)"

definition StreamRowWriter_finish :: "env \<Rightarrow> StreamRowWriter \<Rightarrow> error + StreamRowWriter" where
  "StreamRowWriter_finish E w = StreamRowWriter_finish_block E w"

definition StreamRowWriter_close :: "env \<Rightarrow> StreamRowWriter \<Rightarrow> error + StreamRowWriter" where
  "StreamRowWriter_close E w = StreamRowWriter_finish_block E w"

text \<open>
  \<^verbatim>\<open>uint32_t StreamRowWriter::bytes_written()\<close>: the distance \<^verbatim>\<open>buf_pos - buf_start\<close>, converted
  to a \<^verbatim>\<open>uint32_t\<close>.
\<close>

definition StreamRowWriter_bytes_written :: "StreamRowWriter \<Rightarrow> u32" where
  "StreamRowWriter_bytes_written w =
     word_of_nat (StreamRowWriter.buf_pos w - StreamRowWriter.buf_start w)"

text \<open>The public operations of a \<^verbatim>\<open>StreamRowWriter\<close>, and a run of them.\<close>

datatype sw_op =
    SetOpcode u32
  | SetPartIndex u32
  | Write NewRecord
  | WriteJoin NewJoinRecord
  | Finish
  | Close

fun sw_step :: "env \<Rightarrow> StreamRowWriter \<Rightarrow> sw_op \<Rightarrow> error + StreamRowWriter" where
  "sw_step E w (SetOpcode v) = Inr (set_opcode w v)"
| "sw_step E w (SetPartIndex v) = Inr (set_part_index w v)"
| "sw_step E w (Write r) = ebind (StreamRowWriter_write E w r) (\<lambda>(len, w'). Inr w')"
| "sw_step E w (WriteJoin j) = ebind (StreamRowWriter_write_join E w j) (\<lambda>(len, w'). Inr w')"
| "sw_step E w Finish = StreamRowWriter_finish E w"
| "sw_step E w Close = StreamRowWriter_close E w"

fun sw_run :: "env \<Rightarrow> StreamRowWriter \<Rightarrow> sw_op list \<Rightarrow> error + StreamRowWriter" where
  "sw_run E w [] = Inr w"
| "sw_run E w (x # xs) = ebind (sw_step E w x) (\<lambda>w'. sw_run E w' xs)"

text \<open>
  A row handed to one of the two \<^verbatim>\<open>write\<close> overloads, a \<^verbatim>\<open>NewRecord\<close> or a
  \<^verbatim>\<open>NewJoinRecord\<close> (\<^verbatim>\<open>write(SortPointer<RecordType> *ptr)\<close> passes \<^verbatim>\<open>ptr->rec\<close> to one of
  them): the operation that writes it, and the record whose bytes the row holds.
\<close>

definition write_op :: "NewRecord + NewJoinRecord \<Rightarrow> sw_op" where
  "write_op x = (case x of Inl r \<Rightarrow> Write r | Inr j \<Rightarrow> WriteJoin j)"

definition written_row :: "NewRecord + NewJoinRecord \<Rightarrow> NewRecord" where
  "written_row x = (case x of Inl r \<Rightarrow> r | Inr j \<Rightarrow> row_jr j)"

section \<open>A sample environment\<close>

text \<open>
  A concrete environment on which the theorems about the readers and writers are
  evaluated. It stands in for the parts that are defined outside this header and is not
  their definition: rows of at most 32 bytes in blocks of at most 64; a cipher that appends
  the 16 bytes of associated data to the plaintext as its tag, so that
  \<^verbatim>\<open>enc_size(n) = n + 16\<close>; \<^verbatim>\<open>decrypt\<close>, which is passed no associated data, removes the
  tag without a check; a streaming cipher that is the identity and fails on a read
  past the end of its ciphertext; and a task id that packs the opcode above the
  partition index. \<open>sample_decrypt_with_aad\<close> is the decryption with associated data that
  belongs to this cipher.
\<close>

definition sample_env :: env where
  "sample_env =
     \<lparr> ROW_UPPER_BOUND = 32,
       MAX_BLOCK_SIZE = 64,
       enc_size = (\<lambda>n. n + 16),
       encrypt_with_aad = (\<lambda>pt aad. pt @ aad),
       decrypt = (\<lambda>ct. if 16 \<le> length ct then Some (take (length ct - 16) ct) else None),
       record_row_upper_bound = (\<lambda>r. 32),
       task_id_parser = (\<lambda>op p. push_bit 16 op + p),
       stream_encrypt = (\<lambda>pt. pt),
       stream_decrypt = (\<lambda>ct k n. if k + n \<le> length ct then Some (take n (drop k ct))
                                    else None) \<rparr>"

definition sample_decrypt_with_aad :: "byte list \<Rightarrow> byte list \<Rightarrow> byte list option" where
  "sample_decrypt_with_aad ct aad =
     (if length aad \<le> length ct \<and> drop (length ct - length aad) ct = aad
      then Some (take (length ct - length aad) ct) else None)"

text \<open>The logical bytes of a row, which \<^verbatim>\<open>write\<close> emits.\<close>

definition logical_bytes :: "NewRecord \<Rightarrow> byte list" where
  "logical_bytes r = load_bytes (row r) 0 (unat (row_length r))"

text \<open>
  A \<^verbatim>\<open>RowWriter\<close> over a 96-byte buffer, with a staging block of 64 bytes, both filled
  with the byte 170, after \<^verbatim>\<open>write(sample_record)\<close>.
\<close>

definition sample_row_writer :: RowWriter where
  "sample_row_writer =
     \<lparr> RowWriter.mem = replicate 96 170,
       RowWriter.buf_start = 0,
       RowWriter.buf_pos = 0,
       row_upper_bound = 32,
       RowWriter.block = logical_bytes sample_record @ replicate 42 170,
       RowWriter.block_pos = 22,
       RowWriter.block_num_rows = 1,
       block_padded_len = 32,
       self_task_id = 0 \<rparr>"

text \<open>
  A \<^verbatim>\<open>StreamRowWriter\<close> over a 64-byte buffer filled with the byte 170, after
  \<^verbatim>\<open>write(sample_record)\<close>.
\<close>

definition sample_stream_writer :: StreamRowWriter where
  "sample_stream_writer =
     \<lparr> StreamRowWriter.cipher = \<lparr> out_ptr = 12, fed = logical_bytes sample_record \<rparr>,
       StreamRowWriter.mem = replicate 64 170,
       StreamRowWriter.buf_start = 0,
       StreamRowWriter.buf_pos = 0,
       StreamRowWriter.block_num_rows = 1,
       block_len = 0, opcode = 0, part = 0 \<rparr>"

section \<open>Properties of the byte helpers\<close>

lemma length_le32 [simp]: "length (le32 w) = 4"
  by (simp add: le32_def)

lemma rd32_le32 [simp]: "rd32 (le32 w @ xs) = w"
  unfolding le32_def
  apply simp
  apply (rule bit_word_eqI)
  subgoal for n
    by (cases "n < 8"; cases "n < 16"; cases "n < 24") (auto simp: bit_simps not_less)
  done

lemma num_cols_set_num_cols [simp]: "num_cols (set_num_cols r n) = n"
  by (simp add: num_cols_def set_num_cols_def store_bytes_def)

lemma num_cols_clear [simp]: "num_cols (clear r) = 0"
  by (simp add: clear_def num_cols_def set_num_cols_def store_bytes_def)

lemma unat_minus_one_plus_one: "(n :: u32) \<noteq> 0 \<Longrightarrow> unat (n - 1) + 1 = unat n"
  using unat_gt_0 [of n] by (simp add: unat_minus_one)

lemma rd32_take4: "rd32 (take 4 xs) = rd32 xs"
  by (cases xs rule: rd32.cases) simp_all

lemma rd32_zeros: "rd32 (replicate n 0) = 0"
proof -
  have "min 4 n = 0 \<or> min 4 n = 1 \<or> min 4 n = 2 \<or> min 4 n = 3 \<or> min 4 n = 4"
    by (auto simp: min_def)
  then have "rd32 (replicate (min 4 n) 0) = 0"
    by (elim disjE) (simp_all add: numeral_eq_Suc)
  then have "rd32 (take 4 (replicate n 0)) = 0" by simp
  then show ?thesis by (simp only: rd32_take4)
qed

lemma rd32_store_above:
  assumes "4 \<le> p" "p \<le> length m"
  shows "rd32 (store_bytes m p bs) = rd32 m"
proof -
  have "take 4 (store_bytes m p bs) = take 4 m"
    using assms by (simp add: store_bytes_def min_def)
  then show ?thesis by (metis rd32_take4)
qed

lemma num_cols_row_length_update [simp]: "num_cols (r\<lparr> row_length := x \<rparr>) = num_cols r"
  by (simp add: num_cols_def)

lemma num_cols_row_store:
  assumes "row_store r p bs = Inr r'" "4 \<le> p"
  shows "num_cols r' = num_cols r"
  using assms rd32_store_above [of p "row r" bs]
  by (auto simp: row_store_def num_cols_def split: if_splits)

lemma add_attr_num_cols:
  assumes "add_attr r ty val = Inr r'" "4 \<le> unat (row_length r)"
  shows "num_cols r' = num_cols r + 1"
    and "row_length r' = row_length r + 5 + word_of_nat (length val)"
proof -
  from assms(1) obtain x where x: "row_store r (unat (row_length r))
      (ty # le32 (word_of_nat (length val)) @ val) = Inr x"
    and r': "r' = (set_num_cols x (num_cols x + 1))
                    \<lparr> row_length := row_length r + 5 + word_of_nat (length val) \<rparr>"
    by (auto simp: add_attr_def ebind_def split: sum.splits)
  from num_cols_row_store [OF x assms(2)] r'
  show "num_cols r' = num_cols r + 1" by simp
  from r' show "row_length r' = row_length r + 5 + word_of_nat (length val)" by simp
qed

lemma append_record_num_cols:
  assumes "append_record r other = Inr r'" "4 \<le> unat (row_length r)"
  shows "num_cols r' = num_cols r + num_cols other"
proof -
  from assms(1) obtain x where x: "row_store r (unat (row_length r))
      (load_bytes (row other) 4 (unat (row_length other) - 4)) = Inr x"
    and r': "r' = (set_num_cols x (num_cols x + num_cols other))
                    \<lparr> row_length := row_length r + (row_length other - 4) \<rparr>"
    by (auto simp: append_record_def ebind_def split: sum.splits if_splits)
  from num_cols_row_store [OF x assms(2)] r' show ?thesis by simp
qed

lemma NewJoinRecord_set_num_cols:
  assumes "NewJoinRecord_set INT_tag j is_primary record = Inr j'"
  shows "num_cols (row_jr j') = 1 + num_cols record"
    and "NewJoinRecord_num_cols j' = num_cols record"
proof -
  let ?r0 = "clear (row_jr j)"
  let ?tid = "if is_primary then primary_id else foreign_id"
  from assms obtain r1 r2 where a: "add_attr ?r0 INT_tag (le32 ?tid) = Inr r1"
    and b: "append_record r1 record = Inr r2" and j': "j' = j\<lparr> row_jr := r2 \<rparr>"
    by (auto simp: NewJoinRecord_set_def Let_def ebind_def split: sum.splits)
  have l0: "row_length ?r0 = 4" by (simp add: clear_def set_num_cols_def)
  then have u0: "4 \<le> unat (row_length ?r0)" by simp
  from add_attr_num_cols [OF a u0] l0
  have n1: "num_cols r1 = 1" and l1: "row_length r1 = 13" by simp_all
  from l1 have u1: "4 \<le> unat (row_length r1)" by simp
  from append_record_num_cols [OF b u1] n1
  have "num_cols r2 = 1 + num_cols record" by simp
  with j' show "num_cols (row_jr j') = 1 + num_cols record" by simp
  then show "NewJoinRecord_num_cols j' = num_cols record"
    by (simp add: NewJoinRecord_num_cols_def)
qed

section \<open>NewJoinRecord: the column count of a dummy\<close>

text \<open>
  C10: after \<^verbatim>\<open>NewJoinRecord::reset_to_dummy()\<close>, which clears the underlying row to 0
  columns, \<^verbatim>\<open>is_dummy()\<close> is true and \<^verbatim>\<open>num_cols()\<close> is the \<^verbatim>\<open>uint32_t\<close> value
  \<open>0 - 1 = 4294967295\<close>, not 0. For every join record, \<^verbatim>\<open>num_cols()\<close> is the number of
  columns after the table tag (one less than the row's column count, as numbers) exactly
  when the underlying row is not empty; and after \<^verbatim>\<open>set(is_primary, record)\<close>, which makes
  the row non-empty, it is the column count of the wrapped record.
\<close>

theorem NewJoinRecord_num_cols_wraps:
  "NewJoinRecord_is_dummy (reset_to_dummy j)
   \<and> NewJoinRecord_num_cols (reset_to_dummy j) = 4294967295
   \<and> NewJoinRecord_num_cols (reset_to_dummy j) \<noteq> 0
   \<and> (unat (NewJoinRecord_num_cols k) + 1 = unat (num_cols (row_jr k)))
       = (num_cols (row_jr k) \<noteq> 0)
   \<and> (NewJoinRecord_set INT_tag k is_primary record = Inr k'
        \<longrightarrow> NewJoinRecord_num_cols k' = num_cols record)"
proof -
  have cleared: "num_cols (row_jr (reset_to_dummy j)) = 0"
    by (simp add: reset_to_dummy_def)
  have dummy: "NewJoinRecord_is_dummy (reset_to_dummy j)"
    using cleared by (simp add: NewJoinRecord_is_dummy_def)
  have wrapped: "NewJoinRecord_num_cols (reset_to_dummy j) = 4294967295"
    using cleared by (simp add: NewJoinRecord_num_cols_def)
  have count: "(unat (NewJoinRecord_num_cols k) + 1 = unat (num_cols (row_jr k)))
       = (num_cols (row_jr k) \<noteq> 0)"
  proof (cases "num_cols (row_jr k) = 0")
    case True
    then show ?thesis by (simp add: NewJoinRecord_num_cols_def)
  next
    case False
    then show ?thesis
      using unat_minus_one_plus_one [of "num_cols (row_jr k)"]
      by (simp add: NewJoinRecord_num_cols_def)
  qed
  have set: "NewJoinRecord_set INT_tag k is_primary record = Inr k'
        \<longrightarrow> NewJoinRecord_num_cols k' = num_cols record"
    using NewJoinRecord_set_num_cols(2) by blast
  show ?thesis using dummy wrapped count set by simp
qed

theorem NewJoinRecord_num_cols_wraps_witness:
  "NewJoinRecord_is_dummy (reset_to_dummy (NewJoinRecord_new 32))
   \<and> NewJoinRecord_num_cols (reset_to_dummy (NewJoinRecord_new 32)) = 4294967295
   \<and> unat (NewJoinRecord_num_cols (NewJoinRecord_new 32)) + 1
       \<noteq> unat (num_cols (row_jr (NewJoinRecord_new 32)))
   \<and> NewJoinRecord_set 1 (NewJoinRecord_new 32) True sample_record
       = Inr \<lparr> row_jr =
                 \<lparr> row = [3, 0, 0, 0,  1, 4, 0, 0, 0, 0, 0, 0, 0,
                           1, 4, 0, 0, 0, 7, 0, 0, 0,  1, 4, 0, 0, 0, 5, 0, 0, 0,  0],
                   row_length = 31 \<rparr>,
               join_attr = None \<rparr>
   \<and> NewJoinRecord_num_cols
         \<lparr> row_jr =
             \<lparr> row = [3, 0, 0, 0,  1, 4, 0, 0, 0, 0, 0, 0, 0,
                       1, 4, 0, 0, 0, 7, 0, 0, 0,  1, 4, 0, 0, 0, 5, 0, 0, 0,  0],
               row_length = 31 \<rparr>,
           join_attr = None \<rparr> = 2"
proof -
  have empty: "num_cols (row_jr (NewJoinRecord_new 32)) = 0"
    by code_simp
  have set: "NewJoinRecord_set 1 (NewJoinRecord_new 32) True sample_record
       = Inr \<lparr> row_jr =
                 \<lparr> row = [3, 0, 0, 0,  1, 4, 0, 0, 0, 0, 0, 0, 0,
                           1, 4, 0, 0, 0, 7, 0, 0, 0,  1, 4, 0, 0, 0, 5, 0, 0, 0,  0],
                   row_length = 31 \<rparr>,
               join_attr = None \<rparr>"
    by code_simp
  have two: "num_cols sample_record = 2" by code_simp
  note T = NewJoinRecord_num_cols_wraps [of "NewJoinRecord_new 32" "NewJoinRecord_new 32"
      1 True sample_record]
  show ?thesis using T empty set two by simp
qed

section \<open>Records and their copies\<close>

lemma attr_walk_add:
  "attr_walk m p (j + k) = ebind (attr_walk m p j) (\<lambda>q. attr_walk m q k)"
  by (induction j arbitrary: p) (auto simp: ebind_def)

lemma attr_walk_mono: "attr_walk m p k = Inr q \<Longrightarrow> p \<le> q"
proof (induction k arbitrary: p)
  case 0 then show ?case by simp
next
  case (Suc k)
  then show ?case by (fastforce split: if_splits)
qed

lemma rd32_prefix:
  assumes "take L m = take L m'" "i + 4 \<le> L"
  shows "rd32 (drop i m) = rd32 (drop i m')"
proof -
  have "take 4 (drop i m) = take 4 (drop i (take L m))"
    using assms(2) by (simp add: drop_take min_def)
  also have "\<dots> = take 4 (drop i (take L m'))" using assms(1) by simp
  also have "\<dots> = take 4 (drop i m')"
    using assms(2) by (simp add: drop_take min_def)
  finally show ?thesis by (metis rd32_take4)
qed

lemma attr_walk_prefix:
  "take L m = take L m' \<Longrightarrow> L \<le> length m' \<Longrightarrow> attr_walk m p k = Inr q \<Longrightarrow> q \<le> L
     \<Longrightarrow> attr_walk m' p k = Inr q"
proof (induction k arbitrary: p)
  case 0 then show ?case by simp
next
  case (Suc k)
  let ?p' = "p + 5 + unat (rd32 (drop (p + 1) m))"
  from Suc.prems(3) have inb: "p + 5 \<le> length m" and rest: "attr_walk m ?p' k = Inr q"
    by (auto split: if_splits)
  from attr_walk_mono [OF rest] Suc.prems(4) have le: "?p' \<le> L" by simp
  then have p5: "p + 5 \<le> L" by simp
  have eq: "rd32 (drop (p + 1) m) = rd32 (drop (p + 1) m')"
    by (rule rd32_prefix [OF Suc.prems(1)]) (use p5 in simp)
  have "attr_walk m' ?p' k = Inr q"
    by (rule Suc.IH [OF Suc.prems(1) Suc.prems(2) rest Suc.prems(4)])
  then show ?case using p5 Suc.prems(2) eq by simp
qed


lemma set_record_copy:
  assumes "unat (row_length r) \<le> length (row r)" "unat (row_length r) \<le> length (row x)"
  shows "\<exists>c. set_record x r = Inr c \<and> copy_of c r \<and> length (row c) = length (row x)"
  using assms
  by (simp add: set_record_def row_store_def ebind_def load_bytes_def store_bytes_def copy_of_def)

lemma copy_of_trans: "copy_of a b \<Longrightarrow> copy_of b c \<Longrightarrow> copy_of a c"
  by (simp add: copy_of_def)

lemma wf_record_ge4: "wf_record r \<Longrightarrow> 4 \<le> unat (row_length r)"
  using attr_walk_mono by (fastforce simp: wf_record_def)

lemma copy_of_num_cols:
  assumes "copy_of c r" "wf_record r"
  shows "num_cols c = num_cols r"
proof -
  have "rd32 (drop 0 (row c)) = rd32 (drop 0 (row r))"
    by (rule rd32_prefix [where L = "unat (row_length r)"])
       (use assms wf_record_ge4 [OF assms(2)] in \<open>simp_all add: copy_of_def\<close>)
  then show ?thesis by (simp add: num_cols_def)
qed

lemma copy_of_wf:
  assumes "copy_of c r" "wf_record r"
  shows "wf_record c"
proof -
  have "attr_walk (row c) 4 (unat (num_cols r)) = Inr (unat (row_length r))"
    by (rule attr_walk_prefix [where m = "row r" and L = "unat (row_length r)"])
       (use assms in \<open>simp_all add: copy_of_def wf_record_def\<close>)
  then show ?thesis
    using assms copy_of_num_cols [OF assms] by (simp add: wf_record_def copy_of_def)
qed

lemma wf_attr:
  assumes wf: "wf_record r" and pos: "0 < c" and le: "c \<le> num_cols r"
  shows "\<exists>p. get_attr r c = Inr p
           \<and> p + 5 + unat (rd32 (drop (p + 1) (row r))) \<le> unat (row_length r)"
proof -
  have c1: "1 \<le> unat c" using pos by (simp add: word_less_nat_alt)
  have cn: "unat c \<le> unat (num_cols r)" using le by (simp add: word_le_nat_alt)
  define rest where "rest = unat (num_cols r) - unat c"
  have split: "unat (num_cols r) = (unat c - 1) + (1 + rest)"
    using c1 cn by (simp add: rest_def)
  from wf have "attr_walk (row r) 4 (unat (num_cols r)) = Inr (unat (row_length r))"
    by (simp add: wf_record_def)
  then have whole:
    "ebind (attr_walk (row r) 4 (unat c - 1))
       (\<lambda>p. ebind (attr_walk (row r) p 1) (\<lambda>q. attr_walk (row r) q rest))
     = Inr (unat (row_length r))"
    unfolding split by (simp only: attr_walk_add)
  obtain p where p: "attr_walk (row r) 4 (unat c - 1) = Inr p"
    and tail: "ebind (attr_walk (row r) p 1) (\<lambda>q. attr_walk (row r) q rest)
               = Inr (unat (row_length r))"
    using whole by (cases "attr_walk (row r) 4 (unat c - 1)") (simp_all add: ebind_def)
  obtain q where q: "attr_walk (row r) p 1 = Inr q"
    and tail2: "attr_walk (row r) q rest = Inr (unat (row_length r))"
    using tail by (cases "attr_walk (row r) p 1") (simp_all add: ebind_def)
  from q have "q = p + 5 + unat (rd32 (drop (p + 1) (row r)))"
    by (auto split: if_splits)
  with attr_walk_mono [OF tail2] have "p + 5 + unat (rd32 (drop (p + 1) (row r))) \<le> unat (row_length r)"
    by simp
  then show ?thesis using p pos le by (simp add: get_attr_def)
qed

lemma copy_of_get_attr:
  assumes cp: "copy_of c r" and wf: "wf_record r" and pos: "0 < col" and le: "col \<le> num_cols r"
    and ga: "get_attr r col = Inr p"
  shows "get_attr c col = Inr p"
proof -
  from wf_attr [OF wf pos le] ga
  have bound: "p + 5 + unat (rd32 (drop (p + 1) (row r))) \<le> unat (row_length r)" by simp
  from ga pos le have w: "attr_walk (row r) 4 (unat col - 1) = Inr p"
    by (simp add: get_attr_def)
  have "attr_walk (row c) 4 (unat col - 1) = Inr p"
    by (rule attr_walk_prefix [where m = "row r" and L = "unat (row_length r)"])
       (use cp w bound in \<open>simp_all add: copy_of_def\<close>)
  then show ?thesis using pos le copy_of_num_cols [OF cp wf] by (simp add: get_attr_def)
qed

lemma copy_of_attr_bytes:
  assumes cp: "copy_of c r"
    and bound: "p + 5 + unat (rd32 (drop (p + 1) (row r))) \<le> unat (row_length r)"
  shows "attr_bytes (row c) p = attr_bytes (row r) p"
proof -
  let ?L = "unat (row_length r)"
  have tk: "take ?L (row c) = take ?L (row r)" using cp by (simp add: copy_of_def)
  have len: "rd32 (drop (p + 1) (row c)) = rd32 (drop (p + 1) (row r))"
    by (rule rd32_prefix [OF tk]) (use bound in simp)
  let ?n = "5 + unat (rd32 (drop (p + 1) (row r)))"
  have "take ?n (drop p (row c)) = take ?n (drop p (take ?L (row c)))"
    using bound by (simp add: drop_take min_def)
  also have "\<dots> = take ?n (drop p (take ?L (row r)))" using tk by simp
  also have "\<dots> = take ?n (drop p (row r))"
    using bound by (simp add: drop_take min_def)
  finally show ?thesis using len by (simp add: attr_bytes_def load_bytes_def)
qed

lemma write_record_copy:
  assumes "copy_of c r" "unat (row_length r) \<le> length (row r)"
  shows "write_record c = write_record r"
  using assms by (simp add: write_record_def copy_of_def load_bytes_def)

lemma length_row_new [simp]: "length (row (NewRecord_new ub)) = unat ub"
  by (simp add: NewRecord_new_def)

lemma same_attr_copy:
  assumes cp: "copy_of c r" and wf: "wf_record r" and pos: "0 < col" and le: "col \<le> num_cols r"
  shows "same_attr col x c = same_attr col x r"
proof -
  from wf_attr [OF wf pos le] obtain p where p: "get_attr r col = Inr p"
    and bound: "p + 5 + unat (rd32 (drop (p + 1) (row r))) \<le> unat (row_length r)" by blast
  have "get_attr c col = Inr p" by (rule copy_of_get_attr [OF cp wf pos le p])
  moreover have "attr_bytes (row c) p = attr_bytes (row r) p"
    by (rule copy_of_attr_bytes [OF cp bound])
  ultimately show ?thesis using p
    by (simp add: same_attr_def attrs_equal_def split: sum.splits)
qed

lemma GroupBy_bind_copy:
  assumes cp: "copy_of c r" and wf: "wf_record r" and pos: "0 < col" and le: "col \<le> num_cols r"
    and len: "length (row c) = unat rub"
  shows "\<exists>x. GroupBy_bind col c = Inr x \<and> row_gb x = c \<and> GroupBy_inv rub col x
           \<and> attr x = (case get_attr c col of Inr p \<Rightarrow> Some p | Inl e \<Rightarrow> None)
           \<and> attr x \<noteq> None"
proof -
  from wf_attr [OF wf pos le] obtain p where p: "get_attr r col = Inr p" by blast
  have pc: "get_attr c col = Inr p" by (rule copy_of_get_attr [OF cp wf pos le p])
  have "num_cols r \<noteq> 0" using pos le by auto
  then have nz: "num_cols c \<noteq> 0" using copy_of_num_cols [OF cp wf] by simp
  show ?thesis using pc nz len
    by (simp add: GroupBy_bind_def ebind_def GroupBy_inv_def)
qed

lemma get_attr_empty: "num_cols r = 0 \<Longrightarrow> get_attr r c = Inl IndexOutOfRange"
  by (auto simp: get_attr_def)

lemma GroupBy_equals_same_attr:
  assumes inv: "GroupBy_inv rub col x" and inv2: "GroupBy_inv rub col y" and "attr y \<noteq> None"
  shows "GroupBy_equals x y = same_attr col (row_gb x) (row_gb y)"
proof (cases "attr x")
  case None
  with inv have "get_attr (row_gb x) col = Inl IndexOutOfRange"
    by (simp add: GroupBy_inv_def get_attr_empty)
  with None show ?thesis by (simp add: GroupBy_equals_def same_attr_def)
next
  case (Some a)
  with assms show ?thesis
    by (auto simp: GroupBy_equals_def GroupBy_inv_def same_attr_def)
qed

lemma GroupBy_step:
  assumes inv: "GroupBy_inv rub col x" and wf: "wf_record r"
    and fit: "unat (row_length r) \<le> unat rub" and pos: "0 < col" and le: "col \<le> num_cols r"
  shows "\<exists>g2 g'. GroupBy_of rub col r = Inr g2
           \<and> GroupBy_equals x g2 = same_attr col (row_gb x) r
           \<and> GroupBy_set col x g2 = Inr g'
           \<and> write_record (row_gb g') = write_record r
           \<and> GroupBy_inv rub col g'"
proof -
  have lr: "unat (row_length r) \<le> length (row r)" using wf by (simp add: wf_record_def)
  from set_record_copy [OF lr, of "NewRecord_new rub"] fit
  obtain c where c: "set_record (NewRecord_new rub) r = Inr c" and cp: "copy_of c r"
    and lc: "length (row c) = unat rub" by auto
  from GroupBy_bind_copy [OF cp wf pos le lc]
  obtain g2 where g2: "GroupBy_bind col c = Inr g2" and rg2: "row_gb g2 = c"
    and inv2: "GroupBy_inv rub col g2" and some: "attr g2 \<noteq> None" by blast
  have of: "GroupBy_of rub col r = Inr g2" using c g2 by (simp add: GroupBy_of_def ebind_def)
  have eq: "GroupBy_equals x g2 = same_attr col (row_gb x) r"
    using GroupBy_equals_same_attr [OF inv inv2 some] same_attr_copy [OF cp wf pos le] rg2
    by simp
  have lx: "length (row (row_gb x)) = unat rub" using inv by (simp add: GroupBy_inv_def)
  have "unat (row_length c) \<le> length (row c)" "unat (row_length c) \<le> length (row (row_gb x))"
    using cp fit lc lx by (simp_all add: copy_of_def)
  from set_record_copy [OF this]
  obtain d where d: "set_record (row_gb x) c = Inr d" and cpd: "copy_of d c"
    and ld: "length (row d) = unat rub" using lx by auto
  have cpr: "copy_of d r" by (rule copy_of_trans [OF cpd cp])
  from GroupBy_bind_copy [OF cpr wf pos le ld]
  obtain g' where g': "GroupBy_bind col d = Inr g'" and rg': "row_gb g' = d"
    and inv': "GroupBy_inv rub col g'" by blast
  have set: "GroupBy_set col x g2 = Inr g'"
    using d g' rg2 by (simp add: GroupBy_set_def ebind_def)
  have wr: "write_record (row_gb g') = write_record r"
    using write_record_copy [OF cpr lr] rg' by simp
  show ?thesis using of eq set wr inv' by blast
qed

lemma GroupBy_new_inv: "GroupBy_inv rub c (GroupBy_new rub)"
  by (simp add: GroupBy_inv_def GroupBy_new_def NewRecord_new_def num_cols_def rd32_zeros)

lemma GroupBy2_new_inv: "GroupBy2_inv rub c1 c2 (GroupBy2_new rub)"
  by (simp add: GroupBy2_inv_def GroupBy2_new_def NewRecord_new_def num_cols_def rd32_zeros)


section \<open>One step of an aggregator\<close>

lemma GroupBy2_bind_copy:
  assumes cp: "copy_of c r" and wf: "wf_record r"
    and pos1: "0 < c1" and le1: "c1 \<le> num_cols r"
    and pos2: "0 < c2" and le2: "c2 \<le> num_cols r"
    and len: "length (row c) = unat rub"
  shows "\<exists>x. GroupBy2_bind c1 c2 c = Inr x \<and> row_gb2 x = c \<and> GroupBy2_inv rub c1 c2 x
           \<and> attr1 x \<noteq> None \<and> attr2 x \<noteq> None"
proof -
  from wf_attr [OF wf pos1 le1] obtain p1 where p1: "get_attr r c1 = Inr p1" by blast
  from wf_attr [OF wf pos2 le2] obtain p2 where p2: "get_attr r c2 = Inr p2" by blast
  have q1: "get_attr c c1 = Inr p1" by (rule copy_of_get_attr [OF cp wf pos1 le1 p1])
  have q2: "get_attr c c2 = Inr p2" by (rule copy_of_get_attr [OF cp wf pos2 le2 p2])
  have "num_cols r \<noteq> 0" using pos1 le1 by auto
  then have nz: "num_cols c \<noteq> 0" using copy_of_num_cols [OF cp wf] by simp
  show ?thesis using q1 q2 nz len
    by (simp add: GroupBy2_bind_def ebind_def GroupBy2_inv_def)
qed

lemma GroupBy2_equals_same_attr:
  assumes inv: "GroupBy2_inv rub c1 c2 x" and inv2: "GroupBy2_inv rub c1 c2 y"
    and "attr1 y \<noteq> None"
  shows "GroupBy2_equals x y
         = (same_attr c1 (row_gb2 x) (row_gb2 y) \<and> same_attr c2 (row_gb2 x) (row_gb2 y))"
proof (cases "attr1 x")
  case None
  with inv have "get_attr (row_gb2 x) c1 = Inl IndexOutOfRange"
    by (auto simp: GroupBy2_inv_def get_attr_empty split: option.splits)
  with None show ?thesis by (simp add: GroupBy2_equals_def same_attr_def)
next
  case (Some a)
  with assms show ?thesis
    by (auto simp: GroupBy2_equals_def GroupBy2_inv_def same_attr_def split: option.splits)
qed

lemma GroupBy2_step:
  assumes inv: "GroupBy2_inv rub c1 c2 x" and wf: "wf_record r"
    and fit: "unat (row_length r) \<le> unat rub"
    and pos1: "0 < c1" and le1: "c1 \<le> num_cols r"
    and pos2: "0 < c2" and le2: "c2 \<le> num_cols r"
  shows "\<exists>g2 g'. GroupBy2_of rub c1 c2 r = Inr g2
           \<and> GroupBy2_equals x g2
               = (same_attr c1 (row_gb2 x) r \<and> same_attr c2 (row_gb2 x) r)
           \<and> GroupBy2_set c1 c2 x g2 = Inr g'
           \<and> write_record (row_gb2 g') = write_record r
           \<and> GroupBy2_inv rub c1 c2 g'"
proof -
  have lr: "unat (row_length r) \<le> length (row r)" using wf by (simp add: wf_record_def)
  from set_record_copy [OF lr, of "NewRecord_new rub"] fit
  obtain c where c: "set_record (NewRecord_new rub) r = Inr c" and cp: "copy_of c r"
    and lc: "length (row c) = unat rub" by auto
  from GroupBy2_bind_copy [OF cp wf pos1 le1 pos2 le2 lc]
  obtain g2 where g2: "GroupBy2_bind c1 c2 c = Inr g2" and rg2: "row_gb2 g2 = c"
    and inv2: "GroupBy2_inv rub c1 c2 g2" and some: "attr1 g2 \<noteq> None" by blast
  have of: "GroupBy2_of rub c1 c2 r = Inr g2"
    using c g2 by (simp add: GroupBy2_of_def ebind_def)
  have eq: "GroupBy2_equals x g2 = (same_attr c1 (row_gb2 x) r \<and> same_attr c2 (row_gb2 x) r)"
    using GroupBy2_equals_same_attr [OF inv inv2 some]
      same_attr_copy [OF cp wf pos1 le1] same_attr_copy [OF cp wf pos2 le2] rg2
    by simp
  have lx: "length (row (row_gb2 x)) = unat rub" using inv by (simp add: GroupBy2_inv_def)
  have "unat (row_length c) \<le> length (row c)" "unat (row_length c) \<le> length (row (row_gb2 x))"
    using cp fit lc lx by (simp_all add: copy_of_def)
  from set_record_copy [OF this]
  obtain d where d: "set_record (row_gb2 x) c = Inr d" and cpd: "copy_of d c"
    and ld: "length (row d) = unat rub" using lx by auto
  have cpr: "copy_of d r" by (rule copy_of_trans [OF cpd cp])
  from GroupBy2_bind_copy [OF cpr wf pos1 le1 pos2 le2 ld]
  obtain g' where g': "GroupBy2_bind c1 c2 d = Inr g'" and rg': "row_gb2 g' = d"
    and inv': "GroupBy2_inv rub c1 c2 g'" by blast
  have set: "GroupBy2_set c1 c2 x g2 = Inr g'"
    using d g' rg2 by (simp add: GroupBy2_set_def ebind_def)
  have wr: "write_record (row_gb2 g') = write_record r"
    using write_record_copy [OF cpr lr] rg' by simp
  show ?thesis using of eq set wr inv' by blast
qed

lemma Aggregator1_aggregate_cases:
  assumes "of_record G r = Inr g2" "set_group G (g this) g2 = Inr g'"
  shows "Aggregator1_aggregate G A1 this r
         = (if equals G (g this) g2 then add_into1 A1 this r else open_group1 A1 this g' r)"
  using assms
  by (simp add: Aggregator1_aggregate_def add_into1_def open_group1_def ebind_def
           split: sum.splits)

lemma Aggregator2_aggregate_cases:
  assumes "of_record G r = Inr g2" "set_group G (g this) g2 = Inr g'"
  shows "Aggregator2_aggregate G A1 A2 this r
         = (if equals G (g this) g2 then add_into2 A1 A2 this r
            else open_group2 A1 A2 this g' r)"
  using assms
  by (simp add: Aggregator2_aggregate_def add_into2_def open_group2_def ebind_def
           split: sum.splits)

lemma same_attr_empty: "num_cols x = 0 \<Longrightarrow> \<not> same_attr c x r"
  by (simp add: same_attr_def get_attr_empty)

lemma Aggregator1_GroupBy_transition:
  assumes "GroupBy_inv rub c (g this)" "wf_record r" "unat (row_length r) \<le> unat rub"
    "0 < c" "c \<le> num_cols r"
  shows "\<exists>g'. Aggregator1_aggregate (GroupBy_ops rub c) A1 this r
               = (if num_cols (row_gb (g this)) = 0 \<or> \<not> same_attr c (row_gb (g this)) r
                  then open_group1 A1 this g' r else add_into1 A1 this r)
             \<and> write_record (row_gb g') = write_record r \<and> GroupBy_inv rub c g'"
proof -
  from GroupBy_step [OF assms] obtain g2 g' where
    "GroupBy_of rub c r = Inr g2"
    "GroupBy_equals (g this) g2 = same_attr c (row_gb (g this)) r"
    "GroupBy_set c (g this) g2 = Inr g'"
    and props: "write_record (row_gb g') = write_record r" "GroupBy_inv rub c g'" by blast
  then have "Aggregator1_aggregate (GroupBy_ops rub c) A1 this r
        = (if same_attr c (row_gb (g this)) r then add_into1 A1 this r
           else open_group1 A1 this g' r)"
    using Aggregator1_aggregate_cases [of "GroupBy_ops rub c" r g2 this g' A1]
    by (simp add: GroupBy_ops_def)
  then show ?thesis using props same_attr_empty [of "row_gb (g this)" c r] by auto
qed

lemma Aggregator2_GroupBy_transition:
  assumes "GroupBy_inv rub c (g this)" "wf_record r" "unat (row_length r) \<le> unat rub"
    "0 < c" "c \<le> num_cols r"
  shows "\<exists>g'. Aggregator2_aggregate (GroupBy_ops rub c) A1 A2 this r
               = (if num_cols (row_gb (g this)) = 0 \<or> \<not> same_attr c (row_gb (g this)) r
                  then open_group2 A1 A2 this g' r else add_into2 A1 A2 this r)
             \<and> write_record (row_gb g') = write_record r \<and> GroupBy_inv rub c g'"
proof -
  from GroupBy_step [OF assms] obtain g2 g' where
    "GroupBy_of rub c r = Inr g2"
    "GroupBy_equals (g this) g2 = same_attr c (row_gb (g this)) r"
    "GroupBy_set c (g this) g2 = Inr g'"
    and props: "write_record (row_gb g') = write_record r" "GroupBy_inv rub c g'" by blast
  then have "Aggregator2_aggregate (GroupBy_ops rub c) A1 A2 this r
        = (if same_attr c (row_gb (g this)) r then add_into2 A1 A2 this r
           else open_group2 A1 A2 this g' r)"
    using Aggregator2_aggregate_cases [of "GroupBy_ops rub c" r g2 this g' A1 A2]
    by (simp add: GroupBy_ops_def)
  then show ?thesis using props same_attr_empty [of "row_gb (g this)" c r] by auto
qed

lemma Aggregator1_GroupBy2_transition:
  assumes "GroupBy2_inv rub c1 c2 (g this)" "wf_record r" "unat (row_length r) \<le> unat rub"
    "0 < c1" "c1 \<le> num_cols r" "0 < c2" "c2 \<le> num_cols r"
  shows "\<exists>g'. Aggregator1_aggregate (GroupBy2_ops rub c1 c2) A1 this r
               = (if num_cols (row_gb2 (g this)) = 0
                     \<or> \<not> (same_attr c1 (row_gb2 (g this)) r \<and> same_attr c2 (row_gb2 (g this)) r)
                  then open_group1 A1 this g' r else add_into1 A1 this r)
             \<and> write_record (row_gb2 g') = write_record r \<and> GroupBy2_inv rub c1 c2 g'"
proof -
  from GroupBy2_step [OF assms] obtain g2 g' where
    "GroupBy2_of rub c1 c2 r = Inr g2"
    "GroupBy2_equals (g this) g2
       = (same_attr c1 (row_gb2 (g this)) r \<and> same_attr c2 (row_gb2 (g this)) r)"
    "GroupBy2_set c1 c2 (g this) g2 = Inr g'"
    and props: "write_record (row_gb2 g') = write_record r" "GroupBy2_inv rub c1 c2 g'" by blast
  then have "Aggregator1_aggregate (GroupBy2_ops rub c1 c2) A1 this r
        = (if same_attr c1 (row_gb2 (g this)) r \<and> same_attr c2 (row_gb2 (g this)) r
           then add_into1 A1 this r else open_group1 A1 this g' r)"
    using Aggregator1_aggregate_cases [of "GroupBy2_ops rub c1 c2" r g2 this g' A1]
    by (simp add: GroupBy2_ops_def)
  then show ?thesis using props same_attr_empty [of "row_gb2 (g this)" c1 r] by auto
qed

lemma Aggregator2_GroupBy2_transition:
  assumes "GroupBy2_inv rub c1 c2 (g this)" "wf_record r" "unat (row_length r) \<le> unat rub"
    "0 < c1" "c1 \<le> num_cols r" "0 < c2" "c2 \<le> num_cols r"
  shows "\<exists>g'. Aggregator2_aggregate (GroupBy2_ops rub c1 c2) A1 A2 this r
               = (if num_cols (row_gb2 (g this)) = 0
                     \<or> \<not> (same_attr c1 (row_gb2 (g this)) r \<and> same_attr c2 (row_gb2 (g this)) r)
                  then open_group2 A1 A2 this g' r else add_into2 A1 A2 this r)
             \<and> write_record (row_gb2 g') = write_record r \<and> GroupBy2_inv rub c1 c2 g'"
proof -
  from GroupBy2_step [OF assms] obtain g2 g' where
    "GroupBy2_of rub c1 c2 r = Inr g2"
    "GroupBy2_equals (g this) g2
       = (same_attr c1 (row_gb2 (g this)) r \<and> same_attr c2 (row_gb2 (g this)) r)"
    "GroupBy2_set c1 c2 (g this) g2 = Inr g'"
    and props: "write_record (row_gb2 g') = write_record r" "GroupBy2_inv rub c1 c2 g'" by blast
  then have "Aggregator2_aggregate (GroupBy2_ops rub c1 c2) A1 A2 this r
        = (if same_attr c1 (row_gb2 (g this)) r \<and> same_attr c2 (row_gb2 (g this)) r
           then add_into2 A1 A2 this r else open_group2 A1 A2 this g' r)"
    using Aggregator2_aggregate_cases [of "GroupBy2_ops rub c1 c2" r g2 this g' A1 A2]
    by (simp add: GroupBy2_ops_def)
  then show ?thesis using props same_attr_empty [of "row_gb2 (g this)" c1 r] by auto
qed


lemma Sum_zero_value: "zero (Sum_ops c) x = \<lparr> sum_val = 0 \<rparr>"
  by (cases x) (simp add: Sum_ops_def Sum_zero_def)

lemma Avg_zero_value: "zero (Avg_ops c) y = \<lparr> sum_avg = 0, count_avg = 0 \<rparr>"
  by (cases y) (simp add: Avg_ops_def Avg_zero_def)

lemma Sum_add_record_value:
  "column_u32 r c = Inr v \<Longrightarrow> add_record (Sum_ops c) x r = Inr \<lparr> sum_val = sum_val x + v \<rparr>"
  by (cases x)
    (auto simp: Sum_ops_def Sum_add_record_def column_u32_def ebind_def split: sum.splits)

lemma Avg_add_record_value:
  "column_u32 r c = Inr v
   \<Longrightarrow> add_record (Avg_ops c) y r
       = Inr \<lparr> sum_avg = sum_avg y + v, count_avg = count_avg y + 1 \<rparr>"
  by (cases y)
    (auto simp: Avg_ops_def Avg_add_record_def column_u32_def ebind_def split: sum.splits)

lemma Sum_transitions1:
  assumes "column_u32 r c = Inr v"
  shows "open_group1 (Sum_ops c) u g' r
         = Inr (u\<lparr> num_distinct := num_distinct u + 1, g := g', a1 := \<lparr> sum_val = v \<rparr> \<rparr>)"
    and "add_into1 (Sum_ops c) u r = Inr (u\<lparr> a1 := \<lparr> sum_val = sum_val (a1 u) + v \<rparr> \<rparr>)"
  using assms
  by (simp_all add: open_group1_def add_into1_def ebind_def Sum_zero_value
        Sum_add_record_value)

lemma Avg_transitions1:
  assumes "column_u32 r c = Inr v"
  shows "open_group1 (Avg_ops c) u g' r
         = Inr (u\<lparr> num_distinct := num_distinct u + 1, g := g',
                    a1 := \<lparr> sum_avg = v, count_avg = 1 \<rparr> \<rparr>)"
    and "add_into1 (Avg_ops c) u r
         = Inr (u\<lparr> a1 := \<lparr> sum_avg = sum_avg (a1 u) + v,
                           count_avg = count_avg (a1 u) + 1 \<rparr> \<rparr>)"
  using assms
  by (simp_all add: open_group1_def add_into1_def ebind_def Avg_zero_value
        Avg_add_record_value)

lemma Sum_Avg_transitions2:
  assumes "column_u32 r ca = Inr v" "column_u32 r cb = Inr w"
  shows "open_group2 (Sum_ops ca) (Avg_ops cb) u g' r
         = Inr (u\<lparr> num_distinct := num_distinct u + 1, g := g', a1 := \<lparr> sum_val = v \<rparr>,
                    a2 := \<lparr> sum_avg = w, count_avg = 1 \<rparr> \<rparr>)"
    and "add_into2 (Sum_ops ca) (Avg_ops cb) u r
         = Inr (u\<lparr> a1 := \<lparr> sum_val = sum_val (a1 u) + v \<rparr>,
                    a2 := \<lparr> sum_avg = sum_avg (a2 u) + w,
                           count_avg = count_avg (a2 u) + 1 \<rparr> \<rparr>)"
  using assms
  by (simp_all add: open_group2_def add_into2_def ebind_def Sum_zero_value Avg_zero_value
        Sum_add_record_value Avg_add_record_value)

lemma Aggregator1_GroupBy_Sum:
  assumes "GroupBy_inv rub c (g u)" "wf_record r" "unat (row_length r) \<le> unat rub"
    "0 < c" "c \<le> num_cols r" and val: "column_u32 r ca = Inr v"
  shows "\<exists>g'. Aggregator1_aggregate (GroupBy_ops rub c) (Sum_ops ca) u r
               = Inr (if num_cols (row_gb (g u)) = 0 \<or> \<not> same_attr c (row_gb (g u)) r
                      then u\<lparr> num_distinct := num_distinct u + 1, g := g',
                              a1 := \<lparr> sum_val = v \<rparr> \<rparr>
                      else u\<lparr> a1 := \<lparr> sum_val = sum_val (a1 u) + v \<rparr> \<rparr>)
             \<and> write_record (row_gb g') = write_record r \<and> GroupBy_inv rub c g'"
  using Aggregator1_GroupBy_transition [OF assms(1-5), of "Sum_ops ca"]
  by (auto simp: Sum_transitions1 [OF val])

lemma Aggregator1_GroupBy2_Avg:
  assumes "GroupBy2_inv rub c1 c2 (g u)" "wf_record r" "unat (row_length r) \<le> unat rub"
    "0 < c1" "c1 \<le> num_cols r" "0 < c2" "c2 \<le> num_cols r"
    and val: "column_u32 r cb = Inr w"
  shows "\<exists>g'. Aggregator1_aggregate (GroupBy2_ops rub c1 c2) (Avg_ops cb) u r
               = Inr (if num_cols (row_gb2 (g u)) = 0
                         \<or> \<not> (same_attr c1 (row_gb2 (g u)) r \<and> same_attr c2 (row_gb2 (g u)) r)
                      then u\<lparr> num_distinct := num_distinct u + 1, g := g',
                              a1 := \<lparr> sum_avg = w, count_avg = 1 \<rparr> \<rparr>
                      else u\<lparr> a1 := \<lparr> sum_avg = sum_avg (a1 u) + w,
                                     count_avg = count_avg (a1 u) + 1 \<rparr> \<rparr>)
             \<and> write_record (row_gb2 g') = write_record r \<and> GroupBy2_inv rub c1 c2 g'"
  using Aggregator1_GroupBy2_transition [OF assms(1-7), of "Avg_ops cb"]
  by (auto simp: Avg_transitions1 [OF val])

lemma Aggregator2_GroupBy_Sum_Avg:
  assumes "GroupBy_inv rub c (g u)" "wf_record r" "unat (row_length r) \<le> unat rub"
    "0 < c" "c \<le> num_cols r"
    and val: "column_u32 r ca = Inr v" "column_u32 r cb = Inr w"
  shows "\<exists>g'. Aggregator2_aggregate (GroupBy_ops rub c) (Sum_ops ca) (Avg_ops cb) u r
               = Inr (if num_cols (row_gb (g u)) = 0 \<or> \<not> same_attr c (row_gb (g u)) r
                      then u\<lparr> num_distinct := num_distinct u + 1, g := g',
                              a1 := \<lparr> sum_val = v \<rparr>,
                              a2 := \<lparr> sum_avg = w, count_avg = 1 \<rparr> \<rparr>
                      else u\<lparr> a1 := \<lparr> sum_val = sum_val (a1 u) + v \<rparr>,
                              a2 := \<lparr> sum_avg = sum_avg (a2 u) + w,
                                     count_avg = count_avg (a2 u) + 1 \<rparr> \<rparr>)
             \<and> write_record (row_gb g') = write_record r \<and> GroupBy_inv rub c g'"
  using Aggregator2_GroupBy_transition [OF assms(1-5), of "Sum_ops ca" "Avg_ops cb"]
  by (auto simp: Sum_Avg_transitions2 [OF val])

lemma Aggregator2_GroupBy2_Sum_Avg:
  assumes "GroupBy2_inv rub c1 c2 (g u)" "wf_record r" "unat (row_length r) \<le> unat rub"
    "0 < c1" "c1 \<le> num_cols r" "0 < c2" "c2 \<le> num_cols r"
    and val: "column_u32 r ca = Inr v" "column_u32 r cb = Inr w"
  shows "\<exists>g'. Aggregator2_aggregate (GroupBy2_ops rub c1 c2) (Sum_ops ca) (Avg_ops cb) u r
               = Inr (if num_cols (row_gb2 (g u)) = 0
                         \<or> \<not> (same_attr c1 (row_gb2 (g u)) r \<and> same_attr c2 (row_gb2 (g u)) r)
                      then u\<lparr> num_distinct := num_distinct u + 1, g := g',
                              a1 := \<lparr> sum_val = v \<rparr>,
                              a2 := \<lparr> sum_avg = w, count_avg = 1 \<rparr> \<rparr>
                      else u\<lparr> a1 := \<lparr> sum_val = sum_val (a1 u) + v \<rparr>,
                              a2 := \<lparr> sum_avg = sum_avg (a2 u) + w,
                                     count_avg = count_avg (a2 u) + 1 \<rparr> \<rparr>)
             \<and> write_record (row_gb2 g') = write_record r \<and> GroupBy2_inv rub c1 c2 g'"
  using Aggregator2_GroupBy2_transition [OF assms(1-7), of "Sum_ops ca" "Avg_ops cb"]
  by (auto simp: Sum_Avg_transitions2 [OF val])


section \<open>Aggregating a record\<close>

text \<open>
  C6: for every aggregator and every record \<open>r\<close> (dummy or not) that is well formed, fits
  a row buffer and has the grouping columns: if the aggregator is empty (its group row
  has no columns) or \<open>r\<close>'s grouping attributes differ from those of the current group,
  \<^verbatim>\<open>aggregate(r)\<close> increments \<^verbatim>\<open>num_distinct\<close> by one, replaces the group by a copy \<open>g'\<close> of
  \<open>r\<close> (the same logical bytes), zeroes every aggregate state and adds \<open>r\<close> into each;
  otherwise it leaves \<^verbatim>\<open>num_distinct\<close> and the group as they are and only adds \<open>r\<close> into
  each aggregate state. The first four parts state this for \<^verbatim>\<open>Aggregator1\<close> and
  \<^verbatim>\<open>Aggregator2\<close>, over \<^verbatim>\<open>GroupBy\<close> and \<^verbatim>\<open>GroupBy2\<close>, with any aggregation functions \<open>A1\<close> and
  \<open>A2\<close>. The last four give the state that results with \<^verbatim>\<open>Sum<ca, uint32_t>\<close> and
  \<^verbatim>\<open>Avg<cb, uint32_t>\<close>, where \<open>v\<close> and \<open>w\<close> are the values of the columns \<open>ca\<close> and \<open>cb\<close> of
  \<open>r\<close>: a new group starts from the sum \<open>v\<close> and from the average state \<open>(w, 1)\<close>, whatever
  the states were before; in the same group the sum grows by \<open>v\<close>, and the average state
  by \<open>w\<close> and by one in its count.
\<close>

theorem aggregate_record_transitions:
  assumes r: "wf_record r" "unat (row_length r) \<le> unat rub"
    and cols: "0 < c1" "c1 \<le> num_cols r" "0 < c2" "c2 \<le> num_cols r"
    and inv: "GroupBy_inv rub c1 (g s1)" "GroupBy_inv rub c1 (g s2)"
      "GroupBy2_inv rub c1 c2 (g t1)" "GroupBy2_inv rub c1 c2 (g t2)"
    and inv': "GroupBy_inv rub c1 (g p1)" "GroupBy_inv rub c1 (g p2)"
      "GroupBy2_inv rub c1 c2 (g q1)" "GroupBy2_inv rub c1 c2 (g q2)"
    and val: "column_u32 r ca = Inr v" "column_u32 r cb = Inr w"
  shows
    "(\<exists>g'. Aggregator1_aggregate (GroupBy_ops rub c1) A1 s1 r
            = (if num_cols (row_gb (g s1)) = 0 \<or> \<not> same_attr c1 (row_gb (g s1)) r
               then open_group1 A1 s1 g' r else add_into1 A1 s1 r)
          \<and> write_record (row_gb g') = write_record r \<and> GroupBy_inv rub c1 g')
     \<and> (\<exists>g'. Aggregator2_aggregate (GroupBy_ops rub c1) A1 A2 s2 r
            = (if num_cols (row_gb (g s2)) = 0 \<or> \<not> same_attr c1 (row_gb (g s2)) r
               then open_group2 A1 A2 s2 g' r else add_into2 A1 A2 s2 r)
          \<and> write_record (row_gb g') = write_record r \<and> GroupBy_inv rub c1 g')
     \<and> (\<exists>g'. Aggregator1_aggregate (GroupBy2_ops rub c1 c2) A1 t1 r
            = (if num_cols (row_gb2 (g t1)) = 0
                  \<or> \<not> (same_attr c1 (row_gb2 (g t1)) r \<and> same_attr c2 (row_gb2 (g t1)) r)
               then open_group1 A1 t1 g' r else add_into1 A1 t1 r)
          \<and> write_record (row_gb2 g') = write_record r \<and> GroupBy2_inv rub c1 c2 g')
     \<and> (\<exists>g'. Aggregator2_aggregate (GroupBy2_ops rub c1 c2) A1 A2 t2 r
            = (if num_cols (row_gb2 (g t2)) = 0
                  \<or> \<not> (same_attr c1 (row_gb2 (g t2)) r \<and> same_attr c2 (row_gb2 (g t2)) r)
               then open_group2 A1 A2 t2 g' r else add_into2 A1 A2 t2 r)
          \<and> write_record (row_gb2 g') = write_record r \<and> GroupBy2_inv rub c1 c2 g')
     \<and> (\<exists>g'. Aggregator1_aggregate (GroupBy_ops rub c1) (Sum_ops ca) p1 r
            = Inr (if num_cols (row_gb (g p1)) = 0 \<or> \<not> same_attr c1 (row_gb (g p1)) r
                   then p1\<lparr> num_distinct := num_distinct p1 + 1, g := g',
                            a1 := \<lparr> sum_val = v \<rparr> \<rparr>
                   else p1\<lparr> a1 := \<lparr> sum_val = sum_val (a1 p1) + v \<rparr> \<rparr>)
          \<and> write_record (row_gb g') = write_record r \<and> GroupBy_inv rub c1 g')
     \<and> (\<exists>g'. Aggregator2_aggregate (GroupBy_ops rub c1) (Sum_ops ca) (Avg_ops cb) p2 r
            = Inr (if num_cols (row_gb (g p2)) = 0 \<or> \<not> same_attr c1 (row_gb (g p2)) r
                   then p2\<lparr> num_distinct := num_distinct p2 + 1, g := g',
                            a1 := \<lparr> sum_val = v \<rparr>,
                            a2 := \<lparr> sum_avg = w, count_avg = 1 \<rparr> \<rparr>
                   else p2\<lparr> a1 := \<lparr> sum_val = sum_val (a1 p2) + v \<rparr>,
                            a2 := \<lparr> sum_avg = sum_avg (a2 p2) + w,
                                   count_avg = count_avg (a2 p2) + 1 \<rparr> \<rparr>)
          \<and> write_record (row_gb g') = write_record r \<and> GroupBy_inv rub c1 g')
     \<and> (\<exists>g'. Aggregator1_aggregate (GroupBy2_ops rub c1 c2) (Avg_ops cb) q1 r
            = Inr (if num_cols (row_gb2 (g q1)) = 0
                      \<or> \<not> (same_attr c1 (row_gb2 (g q1)) r \<and> same_attr c2 (row_gb2 (g q1)) r)
                   then q1\<lparr> num_distinct := num_distinct q1 + 1, g := g',
                            a1 := \<lparr> sum_avg = w, count_avg = 1 \<rparr> \<rparr>
                   else q1\<lparr> a1 := \<lparr> sum_avg = sum_avg (a1 q1) + w,
                                   count_avg = count_avg (a1 q1) + 1 \<rparr> \<rparr>)
          \<and> write_record (row_gb2 g') = write_record r \<and> GroupBy2_inv rub c1 c2 g')
     \<and> (\<exists>g'. Aggregator2_aggregate (GroupBy2_ops rub c1 c2) (Sum_ops ca) (Avg_ops cb) q2 r
            = Inr (if num_cols (row_gb2 (g q2)) = 0
                      \<or> \<not> (same_attr c1 (row_gb2 (g q2)) r \<and> same_attr c2 (row_gb2 (g q2)) r)
                   then q2\<lparr> num_distinct := num_distinct q2 + 1, g := g',
                            a1 := \<lparr> sum_val = v \<rparr>,
                            a2 := \<lparr> sum_avg = w, count_avg = 1 \<rparr> \<rparr>
                   else q2\<lparr> a1 := \<lparr> sum_val = sum_val (a1 q2) + v \<rparr>,
                            a2 := \<lparr> sum_avg = sum_avg (a2 q2) + w,
                                   count_avg = count_avg (a2 q2) + 1 \<rparr> \<rparr>)
          \<and> write_record (row_gb2 g') = write_record r \<and> GroupBy2_inv rub c1 c2 g')"
  using Aggregator1_GroupBy_transition [OF inv(1) r cols(1,2), of A1]
    Aggregator2_GroupBy_transition [OF inv(2) r cols(1,2), of A1 A2]
    Aggregator1_GroupBy2_transition [OF inv(3) r cols, of A1]
    Aggregator2_GroupBy2_transition [OF inv(4) r cols, of A1 A2]
    Aggregator1_GroupBy_Sum [OF inv'(1) r cols(1,2) val(1)]
    Aggregator2_GroupBy_Sum_Avg [OF inv'(2) r cols(1,2) val]
    Aggregator1_GroupBy2_Avg [OF inv'(3) r cols val(2)]
    Aggregator2_GroupBy2_Sum_Avg [OF inv'(4) r cols val]
  by (intro conjI)

theorem aggregate_record_transitions_witness:
  "wf_record sample_record \<and> wf_record sample_record2
   \<and> column_u32 sample_record 2 = Inr 5 \<and> column_u32 sample_record2 2 = Inr 3
   \<and> sample_aggregator1
       = \<lparr> num_distinct = 1, offset = 0, g = \<lparr> row_gb = sample_record, attr = Some 4 \<rparr>,
           a1 = \<lparr> sum_val = 5 \<rparr> \<rparr>
   \<and> (\<exists>g'. Aggregator1_aggregate (GroupBy_ops 32 1) (Sum_ops 2)
              sample_aggregator1 sample_record2
            = Inr \<lparr> num_distinct = 2, offset = 0, g = g', a1 = \<lparr> sum_val = 3 \<rparr> \<rparr>
          \<and> write_record (row_gb g') = write_record sample_record2)
   \<and> Aggregator1_aggregate (GroupBy_ops 32 1) (Sum_ops 2) sample_aggregator1 sample_record
       = Inr \<lparr> num_distinct = 1, offset = 0,
               g = \<lparr> row_gb = sample_record, attr = Some 4 \<rparr>, a1 = \<lparr> sum_val = 10 \<rparr> \<rparr>
   \<and> (\<exists>g'. Aggregator2_aggregate (GroupBy_ops 32 1) (Sum_ops 2) (Avg_ops 2)
              sample_aggregator2 sample_record2
            = Inr \<lparr> num_distinct = 2, offset = 0, g = g', a1 = \<lparr> sum_val = 3 \<rparr>,
                    a2 = \<lparr> sum_avg = 3, count_avg = 1 \<rparr> \<rparr>
          \<and> write_record (row_gb g') = write_record sample_record2)
   \<and> Aggregator2_aggregate (GroupBy_ops 32 1) (Sum_ops 2) (Avg_ops 2)
         sample_aggregator2 sample_record
       = Inr \<lparr> num_distinct = 1, offset = 0,
               g = \<lparr> row_gb = sample_record, attr = Some 4 \<rparr>, a1 = \<lparr> sum_val = 10 \<rparr>,
               a2 = \<lparr> sum_avg = 10, count_avg = 2 \<rparr> \<rparr>
   \<and> (\<exists>g'. Aggregator1_aggregate (GroupBy2_ops 32 1 2) (Avg_ops 2)
              \<lparr> num_distinct = 1, offset = 0,
                g = \<lparr> row_gb2 = sample_record, attr1 = Some 4, attr2 = Some 13 \<rparr>,
                a1 = \<lparr> sum_avg = 5, count_avg = 1 \<rparr> \<rparr> sample_record2
            = Inr \<lparr> num_distinct = 2, offset = 0, g = g',
                    a1 = \<lparr> sum_avg = 3, count_avg = 1 \<rparr> \<rparr>
          \<and> write_record (row_gb2 g') = write_record sample_record2)
   \<and> Aggregator2_aggregate (GroupBy2_ops 32 1 2) (Sum_ops 2) (Avg_ops 2)
         \<lparr> num_distinct = 1, offset = 0,
           g = \<lparr> row_gb2 = sample_record, attr1 = Some 4, attr2 = Some 13 \<rparr>,
           a1 = \<lparr> sum_val = 5 \<rparr>, a2 = \<lparr> sum_avg = 5, count_avg = 1 \<rparr> \<rparr> sample_record
       = Inr \<lparr> num_distinct = 1, offset = 0,
               g = \<lparr> row_gb2 = sample_record, attr1 = Some 4, attr2 = Some 13 \<rparr>,
               a1 = \<lparr> sum_val = 10 \<rparr>, a2 = \<lparr> sum_avg = 10, count_avg = 2 \<rparr> \<rparr>"
proof -
  let ?q1 = "\<lparr> num_distinct = 1, offset = 0,
                g = \<lparr> row_gb2 = sample_record, attr1 = Some 4, attr2 = Some 13 \<rparr>,
                a1 = \<lparr> sum_avg = 5, count_avg = 1 \<rparr> \<rparr>"
  let ?q2 = "\<lparr> num_distinct = 1, offset = 0,
                g = \<lparr> row_gb2 = sample_record, attr1 = Some 4, attr2 = Some 13 \<rparr>,
                a1 = \<lparr> sum_val = 5 \<rparr>, a2 = \<lparr> sum_avg = 5, count_avg = 1 \<rparr> \<rparr>"
  have wf: "wf_record sample_record" by code_simp
  have fit: "unat (row_length sample_record) \<le> unat (32 :: u32)" by code_simp
  have c1: "(0 :: u32) < 1" "1 \<le> num_cols sample_record" by code_simp+
  have c2: "(0 :: u32) < 2" "2 \<le> num_cols sample_record" by code_simp+
  have wf': "wf_record sample_record2" by code_simp
  have fit': "unat (row_length sample_record2) \<le> unat (32 :: u32)" by code_simp
  have c1': "(0 :: u32) < 1" "1 \<le> num_cols sample_record2" by code_simp+
  have c2': "(0 :: u32) < 2" "2 \<le> num_cols sample_record2" by code_simp+
  have v: "column_u32 sample_record 2 = Inr 5" by code_simp
  have v': "column_u32 sample_record2 2 = Inr 3" by code_simp
  have i1: "GroupBy_inv 32 1 (g sample_aggregator1)" by code_simp
  have i2: "GroupBy_inv 32 1 (g sample_aggregator2)" by code_simp
  have i3: "GroupBy2_inv 32 1 2 (g ?q1)" by code_simp
  have i4: "GroupBy2_inv 32 1 2 (g ?q2)" by code_simp
  have i5: "GroupBy2_inv 32 1 2 (g (Aggregator1_new (GroupBy2_ops 32 1 2) (Sum_ops 2)))"
    by code_simp
  have same: "num_cols (row_gb (g sample_aggregator1)) \<noteq> 0"
    "same_attr 1 (row_gb (g sample_aggregator1)) sample_record"
    "num_cols (row_gb (g sample_aggregator2)) \<noteq> 0"
    "same_attr 1 (row_gb (g sample_aggregator2)) sample_record"
    "num_cols (row_gb2 (g ?q2)) \<noteq> 0"
    "same_attr 1 (row_gb2 (g ?q2)) sample_record"
    "same_attr 2 (row_gb2 (g ?q2)) sample_record"
    by code_simp+
  have other: "\<not> same_attr 1 (row_gb (g sample_aggregator1)) sample_record2"
    "\<not> same_attr 1 (row_gb (g sample_aggregator2)) sample_record2"
    "\<not> same_attr 1 (row_gb2 (g ?q1)) sample_record2"
    by code_simp+
  have s1: "sample_aggregator1
       = \<lparr> num_distinct = 1, offset = 0, g = \<lparr> row_gb = sample_record, attr = Some 4 \<rparr>,
           a1 = \<lparr> sum_val = 5 \<rparr> \<rparr>"
    by (simp add: sample_aggregator1_def)
  note T = aggregate_record_transitions [OF wf fit c1 c2 i1 i2 i5 i4 i1 i2 i3 i4 v v]
  note T' = aggregate_record_transitions [OF wf' fit' c1' c2' i1 i2 i5 i4 i1 i2 i3 i4 v' v']
  note D = conjunct2 [OF conjunct2 [OF conjunct2 [OF conjunct2 [OF T]]]]
  note D' = conjunct2 [OF conjunct2 [OF conjunct2 [OF conjunct2 [OF T']]]]
  from D' [THEN conjunct1] other(1)
  have n1: "\<exists>g'. Aggregator1_aggregate (GroupBy_ops 32 1) (Sum_ops 2)
              sample_aggregator1 sample_record2
            = Inr \<lparr> num_distinct = 2, offset = 0, g = g', a1 = \<lparr> sum_val = 3 \<rparr> \<rparr>
          \<and> write_record (row_gb g') = write_record sample_record2"
    by (auto simp: sample_aggregator1_def)
  from D [THEN conjunct1] same(1,2)
  have a1: "Aggregator1_aggregate (GroupBy_ops 32 1) (Sum_ops 2) sample_aggregator1 sample_record
       = Inr \<lparr> num_distinct = 1, offset = 0,
               g = \<lparr> row_gb = sample_record, attr = Some 4 \<rparr>, a1 = \<lparr> sum_val = 10 \<rparr> \<rparr>"
    by (auto simp: sample_aggregator1_def)
  from D' [THEN conjunct2, THEN conjunct1] other(2)
  have n2: "\<exists>g'. Aggregator2_aggregate (GroupBy_ops 32 1) (Sum_ops 2) (Avg_ops 2)
              sample_aggregator2 sample_record2
            = Inr \<lparr> num_distinct = 2, offset = 0, g = g', a1 = \<lparr> sum_val = 3 \<rparr>,
                    a2 = \<lparr> sum_avg = 3, count_avg = 1 \<rparr> \<rparr>
          \<and> write_record (row_gb g') = write_record sample_record2"
    by (auto simp: sample_aggregator2_def)
  from D [THEN conjunct2, THEN conjunct1] same(3,4)
  have a2: "Aggregator2_aggregate (GroupBy_ops 32 1) (Sum_ops 2) (Avg_ops 2)
         sample_aggregator2 sample_record
       = Inr \<lparr> num_distinct = 1, offset = 0,
               g = \<lparr> row_gb = sample_record, attr = Some 4 \<rparr>, a1 = \<lparr> sum_val = 10 \<rparr>,
               a2 = \<lparr> sum_avg = 10, count_avg = 2 \<rparr> \<rparr>"
    by (auto simp: sample_aggregator2_def)
  from D' [THEN conjunct2, THEN conjunct2, THEN conjunct1] other(3)
  have n3: "\<exists>g'. Aggregator1_aggregate (GroupBy2_ops 32 1 2) (Avg_ops 2) ?q1 sample_record2
            = Inr \<lparr> num_distinct = 2, offset = 0, g = g',
                    a1 = \<lparr> sum_avg = 3, count_avg = 1 \<rparr> \<rparr>
          \<and> write_record (row_gb2 g') = write_record sample_record2"
    by auto
  from D [THEN conjunct2, THEN conjunct2, THEN conjunct2] same(5,6,7)
  have a4: "Aggregator2_aggregate (GroupBy2_ops 32 1 2) (Sum_ops 2) (Avg_ops 2) ?q2 sample_record
       = Inr \<lparr> num_distinct = 1, offset = 0,
               g = \<lparr> row_gb2 = sample_record, attr1 = Some 4, attr2 = Some 13 \<rparr>,
               a1 = \<lparr> sum_val = 10 \<rparr>, a2 = \<lparr> sum_avg = 10, count_avg = 2 \<rparr> \<rparr>"
    by auto
  show ?thesis using wf wf' v v' s1 n1 a1 n2 a2 n3 a4 by (intro conjI)
qed

section \<open>Aggregating a dummy record\<close>

lemma grouping_attrs_equal_record_dummy:
  "is_dummy D r = Inr True \<Longrightarrow> grouping_attrs_equal_record D G this r = Inr False"
  by (simp add: grouping_attrs_equal_record_def ebind_def)


text \<open>
  C5, as stated, fails: \<^verbatim>\<open>aggregate(record)\<close> has no test for a dummy record. The
  \<^verbatim>\<open>Aggregator1<GroupBy<1>, Sum<2, uint32_t>>\<close> that holds the group of \<open>sample_record\<close> with
  the sum 5 and aggregates the dummy record \<open>sample_dummy_record2\<close> ends with
  \<^verbatim>\<open>num_distinct = 2\<close>, the dummy record as its group row and the sum 3, the dummy record's
  value; the \<^verbatim>\<open>Aggregator2\<close> with an \<^verbatim>\<open>Avg<2, uint32_t>\<close> likewise, with the average state
  \<open>(3, 1)\<close>. A new aggregator that aggregates the dummy record \<open>sample_dummy_record\<close> ends
  with \<^verbatim>\<open>num_distinct = 1\<close>, that record as its group row and its value 5 as the sum.
\<close>

theorem aggregate_dummy_no_op_counterexample:
  "is_dummy sample_is_dummy_type sample_dummy_record2 = Inr True
   \<and> sample_aggregator1
       = \<lparr> num_distinct = 1, offset = 0, g = \<lparr> row_gb = sample_record, attr = Some 4 \<rparr>,
           a1 = \<lparr> sum_val = 5 \<rparr> \<rparr>
   \<and> Aggregator1_aggregate (GroupBy_ops 32 1) (Sum_ops 2)
         sample_aggregator1 sample_dummy_record2
       = Inr \<lparr> num_distinct = 2, offset = 0,
               g = \<lparr> row_gb = sample_dummy_record2, attr = Some 4 \<rparr>,
               a1 = \<lparr> sum_val = 3 \<rparr> \<rparr>
   \<and> Aggregator1_aggregate (GroupBy_ops 32 1) (Sum_ops 2)
         sample_aggregator1 sample_dummy_record2 \<noteq> Inr sample_aggregator1
   \<and> sample_aggregator2
       = \<lparr> num_distinct = 1, offset = 0, g = \<lparr> row_gb = sample_record, attr = Some 4 \<rparr>,
           a1 = \<lparr> sum_val = 5 \<rparr>, a2 = \<lparr> sum_avg = 5, count_avg = 1 \<rparr> \<rparr>
   \<and> Aggregator2_aggregate (GroupBy_ops 32 1) (Sum_ops 2) (Avg_ops 2)
         sample_aggregator2 sample_dummy_record2
       = Inr \<lparr> num_distinct = 2, offset = 0,
               g = \<lparr> row_gb = sample_dummy_record2, attr = Some 4 \<rparr>,
               a1 = \<lparr> sum_val = 3 \<rparr>, a2 = \<lparr> sum_avg = 3, count_avg = 1 \<rparr> \<rparr>
   \<and> Aggregator2_aggregate (GroupBy_ops 32 1) (Sum_ops 2) (Avg_ops 2)
         sample_aggregator2 sample_dummy_record2 \<noteq> Inr sample_aggregator2
   \<and> is_dummy sample_is_dummy_type sample_dummy_record = Inr True
   \<and> Aggregator1_new (GroupBy_ops 32 1) (Sum_ops 2)
       = \<lparr> num_distinct = 0, offset = 0,
           g = \<lparr> row_gb = \<lparr> row = replicate 32 0, row_length = 4 \<rparr>, attr = None \<rparr>,
           a1 = \<lparr> sum_val = 0 \<rparr> \<rparr>
   \<and> Aggregator1_aggregate (GroupBy_ops 32 1) (Sum_ops 2)
         (Aggregator1_new (GroupBy_ops 32 1) (Sum_ops 2)) sample_dummy_record
       = Inr \<lparr> num_distinct = 1, offset = 0,
               g = \<lparr> row_gb = sample_dummy_record, attr = Some 4 \<rparr>,
               a1 = \<lparr> sum_val = 5 \<rparr> \<rparr>
   \<and> Aggregator2_aggregate (GroupBy_ops 32 1) (Sum_ops 2) (Avg_ops 2)
         (Aggregator2_new (GroupBy_ops 32 1) (Sum_ops 2) (Avg_ops 2)) sample_dummy_record
       = Inr \<lparr> num_distinct = 1, offset = 0,
               g = \<lparr> row_gb = sample_dummy_record, attr = Some 4 \<rparr>,
               a1 = \<lparr> sum_val = 5 \<rparr>, a2 = \<lparr> sum_avg = 5, count_avg = 1 \<rparr> \<rparr>"
  by code_simp


text \<open>
  C5, amended: only \<^verbatim>\<open>grouping_attrs_equal(record)\<close> treats a dummy record specially (it
  returns false). \<^verbatim>\<open>aggregate(r)\<close> on a dummy record \<open>r\<close> makes the same transition as on any
  other record: it opens a new group (incrementing \<^verbatim>\<open>num_distinct\<close>, replacing the group
  row by a copy of \<open>r\<close>, zeroing the aggregate states and adding \<open>r\<close> into each) when the
  aggregator is empty or \<open>r\<close>'s grouping attributes differ, and otherwise adds \<open>r\<close> into
  each aggregate state. As for C6, this is stated for any aggregation functions \<open>A1\<close> and
  \<open>A2\<close>, and the resulting state is given for \<^verbatim>\<open>Sum<ca, uint32_t>\<close> and
  \<^verbatim>\<open>Avg<cb, uint32_t>\<close>, where \<open>v\<close> and \<open>w\<close> are the values of the columns \<open>ca\<close> and \<open>cb\<close> of
  the dummy record.
\<close>

theorem aggregate_dummy_record_transitions:
  assumes dummy: "is_dummy D r = Inr True"
    and r: "wf_record r" "unat (row_length r) \<le> unat rub"
    and cols: "0 < c1" "c1 \<le> num_cols r" "0 < c2" "c2 \<le> num_cols r"
    and inv: "GroupBy_inv rub c1 (g s1)" "GroupBy_inv rub c1 (g s2)"
      "GroupBy2_inv rub c1 c2 (g t1)" "GroupBy2_inv rub c1 c2 (g t2)"
    and inv': "GroupBy_inv rub c1 (g p1)" "GroupBy_inv rub c1 (g p2)"
      "GroupBy2_inv rub c1 c2 (g q1)" "GroupBy2_inv rub c1 c2 (g q2)"
    and val: "column_u32 r ca = Inr v" "column_u32 r cb = Inr w"
  shows
    "grouping_attrs_equal_record D (GroupBy_ops rub c1) s1 r = Inr False
     \<and> grouping_attrs_equal_record D (GroupBy_ops rub c1) s2 r = Inr False
     \<and> (\<exists>g'. Aggregator1_aggregate (GroupBy_ops rub c1) A1 s1 r
            = (if num_cols (row_gb (g s1)) = 0 \<or> \<not> same_attr c1 (row_gb (g s1)) r
               then open_group1 A1 s1 g' r else add_into1 A1 s1 r)
          \<and> write_record (row_gb g') = write_record r \<and> GroupBy_inv rub c1 g')
     \<and> (\<exists>g'. Aggregator2_aggregate (GroupBy_ops rub c1) A1 A2 s2 r
            = (if num_cols (row_gb (g s2)) = 0 \<or> \<not> same_attr c1 (row_gb (g s2)) r
               then open_group2 A1 A2 s2 g' r else add_into2 A1 A2 s2 r)
          \<and> write_record (row_gb g') = write_record r \<and> GroupBy_inv rub c1 g')
     \<and> (\<exists>g'. Aggregator1_aggregate (GroupBy2_ops rub c1 c2) A1 t1 r
            = (if num_cols (row_gb2 (g t1)) = 0
                  \<or> \<not> (same_attr c1 (row_gb2 (g t1)) r \<and> same_attr c2 (row_gb2 (g t1)) r)
               then open_group1 A1 t1 g' r else add_into1 A1 t1 r)
          \<and> write_record (row_gb2 g') = write_record r \<and> GroupBy2_inv rub c1 c2 g')
     \<and> (\<exists>g'. Aggregator2_aggregate (GroupBy2_ops rub c1 c2) A1 A2 t2 r
            = (if num_cols (row_gb2 (g t2)) = 0
                  \<or> \<not> (same_attr c1 (row_gb2 (g t2)) r \<and> same_attr c2 (row_gb2 (g t2)) r)
               then open_group2 A1 A2 t2 g' r else add_into2 A1 A2 t2 r)
          \<and> write_record (row_gb2 g') = write_record r \<and> GroupBy2_inv rub c1 c2 g')
     \<and> (\<exists>g'. Aggregator1_aggregate (GroupBy_ops rub c1) (Sum_ops ca) p1 r
            = Inr (if num_cols (row_gb (g p1)) = 0 \<or> \<not> same_attr c1 (row_gb (g p1)) r
                   then p1\<lparr> num_distinct := num_distinct p1 + 1, g := g',
                            a1 := \<lparr> sum_val = v \<rparr> \<rparr>
                   else p1\<lparr> a1 := \<lparr> sum_val = sum_val (a1 p1) + v \<rparr> \<rparr>)
          \<and> write_record (row_gb g') = write_record r \<and> GroupBy_inv rub c1 g')
     \<and> (\<exists>g'. Aggregator2_aggregate (GroupBy_ops rub c1) (Sum_ops ca) (Avg_ops cb) p2 r
            = Inr (if num_cols (row_gb (g p2)) = 0 \<or> \<not> same_attr c1 (row_gb (g p2)) r
                   then p2\<lparr> num_distinct := num_distinct p2 + 1, g := g',
                            a1 := \<lparr> sum_val = v \<rparr>,
                            a2 := \<lparr> sum_avg = w, count_avg = 1 \<rparr> \<rparr>
                   else p2\<lparr> a1 := \<lparr> sum_val = sum_val (a1 p2) + v \<rparr>,
                            a2 := \<lparr> sum_avg = sum_avg (a2 p2) + w,
                                   count_avg = count_avg (a2 p2) + 1 \<rparr> \<rparr>)
          \<and> write_record (row_gb g') = write_record r \<and> GroupBy_inv rub c1 g')
     \<and> (\<exists>g'. Aggregator1_aggregate (GroupBy2_ops rub c1 c2) (Avg_ops cb) q1 r
            = Inr (if num_cols (row_gb2 (g q1)) = 0
                      \<or> \<not> (same_attr c1 (row_gb2 (g q1)) r \<and> same_attr c2 (row_gb2 (g q1)) r)
                   then q1\<lparr> num_distinct := num_distinct q1 + 1, g := g',
                            a1 := \<lparr> sum_avg = w, count_avg = 1 \<rparr> \<rparr>
                   else q1\<lparr> a1 := \<lparr> sum_avg = sum_avg (a1 q1) + w,
                                   count_avg = count_avg (a1 q1) + 1 \<rparr> \<rparr>)
          \<and> write_record (row_gb2 g') = write_record r \<and> GroupBy2_inv rub c1 c2 g')
     \<and> (\<exists>g'. Aggregator2_aggregate (GroupBy2_ops rub c1 c2) (Sum_ops ca) (Avg_ops cb) q2 r
            = Inr (if num_cols (row_gb2 (g q2)) = 0
                      \<or> \<not> (same_attr c1 (row_gb2 (g q2)) r \<and> same_attr c2 (row_gb2 (g q2)) r)
                   then q2\<lparr> num_distinct := num_distinct q2 + 1, g := g',
                            a1 := \<lparr> sum_val = v \<rparr>,
                            a2 := \<lparr> sum_avg = w, count_avg = 1 \<rparr> \<rparr>
                   else q2\<lparr> a1 := \<lparr> sum_val = sum_val (a1 q2) + v \<rparr>,
                            a2 := \<lparr> sum_avg = sum_avg (a2 q2) + w,
                                   count_avg = count_avg (a2 q2) + 1 \<rparr> \<rparr>)
          \<and> write_record (row_gb2 g') = write_record r \<and> GroupBy2_inv rub c1 c2 g')"
  using grouping_attrs_equal_record_dummy [OF dummy, of "GroupBy_ops rub c1" s1]
    grouping_attrs_equal_record_dummy [OF dummy, of "GroupBy_ops rub c1" s2]
    Aggregator1_GroupBy_transition [OF inv(1) r cols(1,2), of A1]
    Aggregator2_GroupBy_transition [OF inv(2) r cols(1,2), of A1 A2]
    Aggregator1_GroupBy2_transition [OF inv(3) r cols, of A1]
    Aggregator2_GroupBy2_transition [OF inv(4) r cols, of A1 A2]
    Aggregator1_GroupBy_Sum [OF inv'(1) r cols(1,2) val(1)]
    Aggregator2_GroupBy_Sum_Avg [OF inv'(2) r cols(1,2) val]
    Aggregator1_GroupBy2_Avg [OF inv'(3) r cols val(2)]
    Aggregator2_GroupBy2_Sum_Avg [OF inv'(4) r cols val]
  by (intro conjI)

theorem aggregate_dummy_record_transitions_witness:
  "is_dummy sample_is_dummy_type sample_dummy_record2 = Inr True
   \<and> wf_record sample_dummy_record2
   \<and> column_u32 sample_dummy_record2 2 = Inr 3
   \<and> grouping_attrs_equal_record sample_is_dummy_type (GroupBy_ops 32 1)
        sample_aggregator1 sample_dummy_record2 = Inr False
   \<and> (\<exists>g'. Aggregator1_aggregate (GroupBy_ops 32 1) (Sum_ops 2)
              sample_aggregator1 sample_dummy_record2
            = Inr \<lparr> num_distinct = 2, offset = 0, g = g', a1 = \<lparr> sum_val = 3 \<rparr> \<rparr>
          \<and> write_record (row_gb g') = write_record sample_dummy_record2)
   \<and> Aggregator1_aggregate (GroupBy_ops 32 1) (Sum_ops 2)
         \<lparr> num_distinct = 2, offset = 0,
           g = \<lparr> row_gb = sample_dummy_record2, attr = Some 4 \<rparr>,
           a1 = \<lparr> sum_val = 3 \<rparr> \<rparr> sample_dummy_record2
       = Inr \<lparr> num_distinct = 2, offset = 0,
               g = \<lparr> row_gb = sample_dummy_record2, attr = Some 4 \<rparr>,
               a1 = \<lparr> sum_val = 6 \<rparr> \<rparr>
   \<and> (\<exists>g'. Aggregator2_aggregate (GroupBy_ops 32 1) (Sum_ops 2) (Avg_ops 2)
              sample_aggregator2 sample_dummy_record2
            = Inr \<lparr> num_distinct = 2, offset = 0, g = g', a1 = \<lparr> sum_val = 3 \<rparr>,
                    a2 = \<lparr> sum_avg = 3, count_avg = 1 \<rparr> \<rparr>
          \<and> write_record (row_gb g') = write_record sample_dummy_record2)
   \<and> (\<exists>g'. Aggregator2_aggregate (GroupBy2_ops 32 1 2) (Sum_ops 2) (Avg_ops 2)
              \<lparr> num_distinct = 1, offset = 0,
                g = \<lparr> row_gb2 = sample_record, attr1 = Some 4, attr2 = Some 13 \<rparr>,
                a1 = \<lparr> sum_val = 5 \<rparr>, a2 = \<lparr> sum_avg = 5, count_avg = 1 \<rparr> \<rparr>
              sample_dummy_record2
            = Inr \<lparr> num_distinct = 2, offset = 0, g = g', a1 = \<lparr> sum_val = 3 \<rparr>,
                    a2 = \<lparr> sum_avg = 3, count_avg = 1 \<rparr> \<rparr>
          \<and> write_record (row_gb2 g') = write_record sample_dummy_record2)"
proof -
  let ?p = "\<lparr> num_distinct = 2, offset = 0,
               g = \<lparr> row_gb = sample_dummy_record2, attr = Some 4 \<rparr>,
               a1 = \<lparr> sum_val = 3 \<rparr> \<rparr>"
  let ?q1 = "\<lparr> num_distinct = 1, offset = 0,
                g = \<lparr> row_gb2 = sample_record, attr1 = Some 4, attr2 = Some 13 \<rparr>,
                a1 = \<lparr> sum_avg = 5, count_avg = 1 \<rparr> \<rparr>"
  let ?q2 = "\<lparr> num_distinct = 1, offset = 0,
                g = \<lparr> row_gb2 = sample_record, attr1 = Some 4, attr2 = Some 13 \<rparr>,
                a1 = \<lparr> sum_val = 5 \<rparr>, a2 = \<lparr> sum_avg = 5, count_avg = 1 \<rparr> \<rparr>"
  have d: "is_dummy sample_is_dummy_type sample_dummy_record2 = Inr True" by code_simp
  have wf: "wf_record sample_dummy_record2" by code_simp
  have fit: "unat (row_length sample_dummy_record2) \<le> unat (32 :: u32)" by code_simp
  have c1: "(0 :: u32) < 1" "1 \<le> num_cols sample_dummy_record2" by code_simp+
  have c2: "(0 :: u32) < 2" "2 \<le> num_cols sample_dummy_record2" by code_simp+
  have v: "column_u32 sample_dummy_record2 2 = Inr 3" by code_simp
  have i1: "GroupBy_inv 32 1 (g sample_aggregator1)" by code_simp
  have i2: "GroupBy_inv 32 1 (g sample_aggregator2)" by code_simp
  have i3: "GroupBy2_inv 32 1 2 (g ?q1)" by code_simp
  have i4: "GroupBy2_inv 32 1 2 (g ?q2)" by code_simp
  have i5: "GroupBy2_inv 32 1 2 (g (Aggregator1_new (GroupBy2_ops 32 1 2) (Sum_ops 2)))"
    by code_simp
  have i6: "GroupBy_inv 32 1 (g ?p)" by code_simp
  have same: "num_cols (row_gb (g ?p)) \<noteq> 0"
    "same_attr 1 (row_gb (g ?p)) sample_dummy_record2"
    by code_simp+
  have other: "\<not> same_attr 1 (row_gb (g sample_aggregator1)) sample_dummy_record2"
    "\<not> same_attr 1 (row_gb (g sample_aggregator2)) sample_dummy_record2"
    "\<not> same_attr 1 (row_gb2 (g ?q2)) sample_dummy_record2"
    by code_simp+
  note T = aggregate_dummy_record_transitions
      [OF d wf fit c1 c2 i1 i2 i5 i4 i1 i2 i3 i4 v v]
  note T' = aggregate_dummy_record_transitions
      [OF d wf fit c1 c2 i1 i2 i5 i4 i6 i2 i3 i4 v v]
  note D = conjunct2 [OF conjunct2 [OF conjunct2 [OF conjunct2
      [OF conjunct2 [OF conjunct2 [OF T]]]]]]
  note D' = conjunct2 [OF conjunct2 [OF conjunct2 [OF conjunct2
      [OF conjunct2 [OF conjunct2 [OF T']]]]]]
  have ge: "grouping_attrs_equal_record sample_is_dummy_type (GroupBy_ops 32 1)
        sample_aggregator1 sample_dummy_record2 = Inr False"
    by (rule T [THEN conjunct1])
  from D [THEN conjunct1] other(1)
  have n1: "\<exists>g'. Aggregator1_aggregate (GroupBy_ops 32 1) (Sum_ops 2)
              sample_aggregator1 sample_dummy_record2
            = Inr \<lparr> num_distinct = 2, offset = 0, g = g', a1 = \<lparr> sum_val = 3 \<rparr> \<rparr>
          \<and> write_record (row_gb g') = write_record sample_dummy_record2"
    by (auto simp: sample_aggregator1_def)
  from D' [THEN conjunct1] same
  have a1: "Aggregator1_aggregate (GroupBy_ops 32 1) (Sum_ops 2) ?p sample_dummy_record2
       = Inr \<lparr> num_distinct = 2, offset = 0,
               g = \<lparr> row_gb = sample_dummy_record2, attr = Some 4 \<rparr>,
               a1 = \<lparr> sum_val = 6 \<rparr> \<rparr>"
    by auto
  from D [THEN conjunct2, THEN conjunct1] other(2)
  have n2: "\<exists>g'. Aggregator2_aggregate (GroupBy_ops 32 1) (Sum_ops 2) (Avg_ops 2)
              sample_aggregator2 sample_dummy_record2
            = Inr \<lparr> num_distinct = 2, offset = 0, g = g', a1 = \<lparr> sum_val = 3 \<rparr>,
                    a2 = \<lparr> sum_avg = 3, count_avg = 1 \<rparr> \<rparr>
          \<and> write_record (row_gb g') = write_record sample_dummy_record2"
    by (auto simp: sample_aggregator2_def)
  from D [THEN conjunct2, THEN conjunct2, THEN conjunct2] other(3)
  have n4: "\<exists>g'. Aggregator2_aggregate (GroupBy2_ops 32 1 2) (Sum_ops 2) (Avg_ops 2)
              ?q2 sample_dummy_record2
            = Inr \<lparr> num_distinct = 2, offset = 0, g = g', a1 = \<lparr> sum_val = 3 \<rparr>,
                    a2 = \<lparr> sum_avg = 3, count_avg = 1 \<rparr> \<rparr>
          \<and> write_record (row_gb2 g') = write_record sample_dummy_record2"
    by auto
  show ?thesis using d wf v ge n1 a1 n2 n4 by (intro conjI)
qed


section \<open>Combining two aggregators\<close>

text \<open>
  C7: \<^verbatim>\<open>aggregate(other)\<close> fails with the grouping-mismatch error whenever
  \<^verbatim>\<open>grouping_attrs_equal(other)\<close> is false; when it is true the call succeeds, each
  aggregate state becomes the state combined with \<open>other\<close>'s (for \<^verbatim>\<open>Sum\<close> the sums are
  added, for \<^verbatim>\<open>Avg\<close> the sums and the counts), and \<^verbatim>\<open>num_distinct\<close>, the group and
  \<^verbatim>\<open>offset\<close> are unchanged. This holds for \<^verbatim>\<open>Aggregator1\<close> and \<^verbatim>\<open>Aggregator2\<close> over every
  group-by and aggregation type.
\<close>

theorem aggregate_other_transitions:
  "(if grouping_attrs_equal G s other
    then \<exists>res. Aggregator1_combine G A1 s other = Inr res
           \<and> a1 res = add_other A1 (a1 s) (a1 other)
           \<and> num_distinct res = num_distinct s \<and> g res = g s \<and> offset res = offset s
    else Aggregator1_combine G A1 s other = Inl GroupingMismatch)
   \<and> (if grouping_attrs_equal G t other2
      then \<exists>res. Aggregator2_combine G A1 A2 t other2 = Inr res
             \<and> a1 res = add_other A1 (a1 t) (a1 other2)
             \<and> a2 res = add_other A2 (a2 t) (a2 other2)
             \<and> num_distinct res = num_distinct t \<and> g res = g t \<and> offset res = offset t
      else Aggregator2_combine G A1 A2 t other2 = Inl GroupingMismatch)
   \<and> add_other (Sum_ops c) x y = \<lparr> sum_val = sum_val x + sum_val y \<rparr>
   \<and> add_other (Avg_ops c) v w
       = \<lparr> sum_avg = sum_avg v + sum_avg w, count_avg = count_avg v + count_avg w \<rparr>"
  by (simp add: Aggregator1_combine_def Aggregator2_combine_def Sum_ops_def Avg_ops_def
        Sum_add_def Avg_add_def)

theorem aggregate_other_transitions_witness:
  "grouping_attrs_equal (GroupBy_ops 32 1) sample_aggregator1 sample_aggregator1
   \<and> (\<exists>res. Aggregator1_combine (GroupBy_ops 32 1) (Sum_ops 2) sample_aggregator1
               sample_aggregator1 = Inr res
          \<and> a1 res = \<lparr> sum_val = 10 \<rparr> \<and> num_distinct res = 1
          \<and> g res = g sample_aggregator1)
   \<and> \<not> grouping_attrs_equal (GroupBy_ops 32 1)
         (Aggregator2_new (GroupBy_ops 32 1) (Sum_ops 2) (Avg_ops 2)) sample_aggregator2
   \<and> Aggregator2_combine (GroupBy_ops 32 1) (Sum_ops 2) (Avg_ops 2)
         (Aggregator2_new (GroupBy_ops 32 1) (Sum_ops 2) (Avg_ops 2)) sample_aggregator2
       = Inl GroupingMismatch"
proof -
  have eq: "grouping_attrs_equal (GroupBy_ops 32 1) sample_aggregator1 sample_aggregator1"
    by code_simp
  have ne: "\<not> grouping_attrs_equal (GroupBy_ops 32 1)
         (Aggregator2_new (GroupBy_ops 32 1) (Sum_ops 2) (Avg_ops 2)) sample_aggregator2"
    by code_simp
  have v: "add_other (Sum_ops 2) (a1 sample_aggregator1) (a1 sample_aggregator1)
           = \<lparr> sum_val = 10 \<rparr>" "num_distinct sample_aggregator1 = 1"
    by code_simp+
  note T = aggregate_other_transitions [of "GroupBy_ops 32 1" sample_aggregator1
      sample_aggregator1 "Sum_ops 2"
      "Aggregator2_new (GroupBy_ops 32 1) (Sum_ops 2) (Avg_ops 2)" sample_aggregator2
      "Avg_ops 2"]
  from T [THEN conjunct1] eq v
  have p1: "\<exists>res. Aggregator1_combine (GroupBy_ops 32 1) (Sum_ops 2) sample_aggregator1
               sample_aggregator1 = Inr res
          \<and> a1 res = \<lparr> sum_val = 10 \<rparr> \<and> num_distinct res = 1
          \<and> g res = g sample_aggregator1"
    by auto
  from T [THEN conjunct2, THEN conjunct1] ne
  have p2: "Aggregator2_combine (GroupBy_ops 32 1) (Sum_ops 2) (Avg_ops 2)
         (Aggregator2_new (GroupBy_ops 32 1) (Sum_ops 2) (Avg_ops 2)) sample_aggregator2
       = Inl GroupingMismatch"
    by simp
  show ?thesis using eq p1 ne p2 by (intro conjI)
qed

section \<open>Stores into a buffer\<close>

lemma length_store_bytes:
  "p + length bs \<le> length m \<Longrightarrow> length (store_bytes m p bs) = length m"
  by (simp add: store_bytes_def)

lemma mem_store_ok:
  "p + length bs \<le> length m \<Longrightarrow> mem_store m p bs = Inr (store_bytes m p bs)"
  by (simp add: mem_store_def)

lemma store_header_over_cipher:
  assumes cap: "p + 16 \<le> length m" "p + 12 + length ct \<le> length m"
    and len: "length h1 = 4" "length h2 = 4" "length h3 = 4" "length h4 = 4"
  shows "store_bytes (store_bytes (store_bytes (store_bytes
            (store_bytes m (p + 12) ct) p h1) (p + 4) h2) (p + 8) h3) (p + 12) h4
         = take p m @ h1 @ h2 @ h3 @ h4 @ drop 4 (ct @ drop (p + 12 + length ct) m)"
  using assms by (simp add: store_bytes_def min_def add.commute add.left_commute)

section \<open>StreamRowWriter: blocks\<close>

lemma unat_of_nat_len: "n < 2 ^ 32 \<Longrightarrow> unat (word_of_nat n :: u32) = n"
  by (simp add: unat_of_nat)

lemma finish_block_stores:
  assumes pinned: "out_ptr (StreamRowWriter.cipher w) = StreamRowWriter.buf_pos w + 12"
    and ct: "ct = stream_encrypt E (fed (StreamRowWriter.cipher w))"
    and cap: "StreamRowWriter.buf_pos w + 16 \<le> length (StreamRowWriter.mem w)"
      "StreamRowWriter.buf_pos w + 12 + length ct \<le> length (StreamRowWriter.mem w)"
    and small: "length ct < 2 ^ 32"
  shows "StreamRowWriter_finish_block E w =
      Inr (w\<lparr> StreamRowWriter.mem :=
                 take (StreamRowWriter.buf_pos w) (StreamRowWriter.mem w)
                 @ le32 (word_of_nat (length ct))
                 @ le32 (StreamRowWriter.block_num_rows w)
                 @ le32 (ROW_UPPER_BOUND E)
                 @ le32 (task_id_parser E (opcode w) (part w))
                 @ drop 4 (ct @ drop (StreamRowWriter.buf_pos w + 12 + length ct)
                                  (StreamRowWriter.mem w)),
               StreamRowWriter.block_num_rows := 0,
               block_len := 0,
               StreamRowWriter.buf_pos := StreamRowWriter.buf_pos w + 16 + length ct,
               StreamRowWriter.cipher :=
                 StreamCipher_reset (StreamRowWriter.cipher w)
                   (StreamRowWriter.buf_pos w + 16 + length ct + 12) \<rparr>)"
proof -
  let ?p = "StreamRowWriter.buf_pos w"
  let ?m = "StreamRowWriter.mem w"
  let ?ma = "store_bytes ?m (?p + 12) ct"
  let ?mb = "store_bytes ?ma ?p (le32 (word_of_nat (length ct)))"
  let ?mc = "store_bytes ?mb (?p + 4) (le32 (StreamRowWriter.block_num_rows w))"
  let ?md = "store_bytes ?mc (?p + 8) (le32 (ROW_UPPER_BOUND E))"
  let ?me = "store_bytes ?md (?p + 12) (le32 (task_id_parser E (opcode w) (part w)))"
  have l0: "length ?ma = length ?m" using cap by (simp add: length_store_bytes)
  have l1: "length ?mb = length ?m" using cap l0 by (simp add: length_store_bytes)
  have l2: "length ?mc = length ?m" using cap l1 by (simp add: length_store_bytes)
  have l3: "length ?md = length ?m" using cap l2 by (simp add: length_store_bytes)
  have s0: "StreamCipher_finish E (StreamRowWriter.cipher w) ?m = Inr ?ma"
    using cap pinned ct by (simp add: StreamCipher_finish_def mem_store_ok)
  have s1: "mem_store ?ma ?p (le32 (word_of_nat (length ct))) = Inr ?mb"
    using cap l0 by (simp add: mem_store_ok)
  have s2: "mem_store ?mb (?p + 4) (le32 (StreamRowWriter.block_num_rows w)) = Inr ?mc"
    using cap l1 by (simp add: mem_store_ok)
  have s3: "mem_store ?mc (?p + 8) (le32 (ROW_UPPER_BOUND E)) = Inr ?md"
    using cap l2 by (simp add: mem_store_ok)
  have s4: "mem_store ?md (?p + 12) (le32 (task_id_parser E (opcode w) (part w))) = Inr ?me"
    using cap l3 by (simp add: mem_store_ok)
  have wb: "StreamCipher_bytes_written E (StreamRowWriter.cipher w) = word_of_nat (length ct)"
    using ct by (simp add: StreamCipher_bytes_written_def)
  have shape: "?me = take ?p ?m @ le32 (word_of_nat (length ct))
                 @ le32 (StreamRowWriter.block_num_rows w)
                 @ le32 (ROW_UPPER_BOUND E)
                 @ le32 (task_id_parser E (opcode w) (part w))
                 @ drop 4 (ct @ drop (?p + 12 + length ct) ?m)"
    by (rule store_header_over_cipher [OF cap]) simp_all
  show ?thesis
    unfolding StreamRowWriter_finish_block_def
    by (simp only: s0 wb ebind_def sum.case Let_def s1 s2 s3 s4 shape
          unat_of_nat_len [OF small])
qed

lemma maybe_finish_block_never:
  "block_len w = 0 \<Longrightarrow> StreamRowWriter_maybe_finish_block E w = Inr w"
  by (simp add: StreamRowWriter_maybe_finish_block_def)

lemma finish_block_block_len:
  "StreamRowWriter_finish_block E w = Inr w' \<Longrightarrow> block_len w' = 0"
  by (auto simp: StreamRowWriter_finish_block_def ebind_def Let_def split: sum.splits)

lemma write_block_len:
  "StreamRowWriter_write E w r = Inr (n, w') \<Longrightarrow> block_len w = 0 \<Longrightarrow> block_len w' = 0"
  by (auto simp: StreamRowWriter_write_def maybe_finish_block_never ebind_def
        write_record_stream_def write_bytes_def split: sum.splits)

lemma sw_step_block_len:
  "sw_step E w x = Inr w' \<Longrightarrow> block_len w = 0 \<Longrightarrow> block_len w' = 0"
proof (cases x)
  case (Write r)
  assume "sw_step E w x = Inr w'" "block_len w = 0"
  with Write show ?thesis
    by (auto simp: ebind_def split: sum.splits dest: write_block_len)
next
  case (WriteJoin j)
  assume "sw_step E w x = Inr w'" "block_len w = 0"
  with WriteJoin show ?thesis
    by (auto simp: ebind_def StreamRowWriter_write_join_def split: sum.splits
          dest: write_block_len)
qed (auto simp: set_opcode_def set_part_index_def StreamRowWriter_finish_def
        StreamRowWriter_close_def dest: finish_block_block_len)

lemma sw_run_block_len:
  "sw_run E w xs = Inr w' \<Longrightarrow> block_len w = 0 \<Longrightarrow> block_len w' = 0"
proof (induction xs arbitrary: w)
  case Nil then show ?case by simp
next
  case (Cons x xs)
  then show ?case
    by (auto simp: ebind_def split: sum.splits dest: sw_step_block_len)
qed

lemma sw_run_append:
  "sw_run E w (xs @ ys) = ebind (sw_run E w xs) (\<lambda>w'. sw_run E w' ys)"
  by (induction xs arbitrary: w) (auto simp: ebind_def split: sum.splits)

lemma StreamRowWriter_write_ok:
  assumes "unat (row_length r) \<le> length (row r)" "block_len w = 0"
  shows "StreamRowWriter_write E w r
         = Inr (word_of_nat (length (logical_bytes r)),
                w\<lparr> StreamRowWriter.cipher :=
                      StreamCipher_encrypt (StreamRowWriter.cipher w) (logical_bytes r),
                    StreamRowWriter.block_num_rows := StreamRowWriter.block_num_rows w + 1 \<rparr>)"
  using assms
  by (simp add: StreamRowWriter_write_def maybe_finish_block_never ebind_def
        write_record_stream_def write_record_def write_bytes_def logical_bytes_def)

lemma sw_step_write_op:
  assumes "unat (row_length (written_row x)) \<le> length (row (written_row x))"
    "block_len w = 0"
  shows "sw_step E w (write_op x)
         = Inr (w\<lparr> StreamRowWriter.cipher :=
                      StreamCipher_encrypt (StreamRowWriter.cipher w)
                        (logical_bytes (written_row x)),
                    StreamRowWriter.block_num_rows := StreamRowWriter.block_num_rows w + 1 \<rparr>)"
proof (cases x)
  case (Inl r)
  then show ?thesis using assms
    by (simp add: write_op_def written_row_def StreamRowWriter_write_ok ebind_def)
next
  case (Inr j)
  then show ?thesis using assms
    by (simp add: write_op_def written_row_def StreamRowWriter_write_join_def
          StreamRowWriter_write_ok ebind_def)
qed

lemma sw_run_writes:
  assumes "\<forall>x \<in> set rs. unat (row_length (written_row x)) \<le> length (row (written_row x))"
    "block_len w = 0"
  shows "\<exists>w'. sw_run E w (map write_op rs) = Inr w'
           \<and> StreamRowWriter.mem w' = StreamRowWriter.mem w
           \<and> StreamRowWriter.buf_start w' = StreamRowWriter.buf_start w
           \<and> StreamRowWriter.buf_pos w' = StreamRowWriter.buf_pos w
           \<and> block_len w' = 0
           \<and> opcode w' = opcode w \<and> part w' = part w
           \<and> StreamRowWriter.block_num_rows w'
               = StreamRowWriter.block_num_rows w + word_of_nat (length rs)
           \<and> out_ptr (StreamRowWriter.cipher w') = out_ptr (StreamRowWriter.cipher w)
           \<and> fed (StreamRowWriter.cipher w')
               = fed (StreamRowWriter.cipher w)
                 @ concat (map (\<lambda>x. logical_bytes (written_row x)) rs)"
  using assms
proof (induction rs arbitrary: w)
  case Nil
  then show ?case by simp
next
  case (Cons r rs)
  let ?w1 = "w\<lparr> StreamRowWriter.cipher :=
                      StreamCipher_encrypt (StreamRowWriter.cipher w)
                        (logical_bytes (written_row r)),
                    StreamRowWriter.block_num_rows := StreamRowWriter.block_num_rows w + 1 \<rparr>"
  have step: "sw_step E w (write_op r) = Inr ?w1"
    using Cons.prems by (simp add: sw_step_write_op)
  have "\<forall>x \<in> set rs. unat (row_length (written_row x)) \<le> length (row (written_row x))"
    "block_len ?w1 = 0"
    using Cons.prems by simp_all
  from Cons.IH [OF this] obtain w' where
    run: "sw_run E ?w1 (map write_op rs) = Inr w'"
    and props: "StreamRowWriter.mem w' = StreamRowWriter.mem ?w1"
      "StreamRowWriter.buf_start w' = StreamRowWriter.buf_start ?w1"
      "StreamRowWriter.buf_pos w' = StreamRowWriter.buf_pos ?w1"
      "block_len w' = 0" "opcode w' = opcode ?w1" "part w' = part ?w1"
      "StreamRowWriter.block_num_rows w'
         = StreamRowWriter.block_num_rows ?w1 + word_of_nat (length rs)"
      "out_ptr (StreamRowWriter.cipher w') = out_ptr (StreamRowWriter.cipher ?w1)"
      "fed (StreamRowWriter.cipher w')
         = fed (StreamRowWriter.cipher ?w1)
           @ concat (map (\<lambda>x. logical_bytes (written_row x)) rs)"
    by blast
  have "sw_run E w (map write_op (r # rs)) = Inr w'"
    using step run by (simp add: ebind_def)
  then show ?case using props by (simp add: StreamCipher_encrypt_def)
qed

text \<open>
  C9: in a \<^verbatim>\<open>StreamRowWriter\<close>, \<^verbatim>\<open>block_len\<close> is 0 after construction and after every run of
  public operations, so the guard \<^verbatim>\<open>block_len > MAX_BLOCK_SIZE\<close> of \<^verbatim>\<open>maybe_finish_block\<close>
  never fires, whatever \<^verbatim>\<open>MAX_BLOCK_SIZE\<close> is. Any number of rows written after
  construction, each by \<^verbatim>\<open>write(NewRecord *)\<close> or by \<^verbatim>\<open>write(NewJoinRecord *)\<close>, stay in the
  cipher's current block: nothing is emitted, the row count is the number of writes and
  the cipher has been fed the logical bytes of the rows in order. A \<^verbatim>\<open>close()\<close> then emits
  exactly one block: its header counts all the rows, \<^verbatim>\<open>buf_pos\<close> has advanced by the 16
  header bytes and the length of the ciphertext of all the rows' bytes together, and
  \<^verbatim>\<open>bytes_written()\<close> is that number as a \<^verbatim>\<open>uint32_t\<close>.
\<close>

theorem StreamRowWriter_never_splits:
  assumes rows: "\<forall>x \<in> set rs. unat (row_length (written_row x)) \<le> length (row (written_row x))"
    and ct: "ct = stream_encrypt E (concat (map (\<lambda>x. logical_bytes (written_row x)) rs))"
  shows
    "block_len (StreamRowWriter_new out) = 0
     \<and> (\<forall>ops w. sw_run E (StreamRowWriter_new out) ops = Inr w
            \<longrightarrow> block_len w = 0 \<and> StreamRowWriter_maybe_finish_block E w = Inr w)
     \<and> (\<exists>w. sw_run E (StreamRowWriter_new out) (map write_op rs) = Inr w
            \<and> StreamRowWriter.mem w = out
            \<and> StreamRowWriter.buf_pos w = StreamRowWriter.buf_start w
            \<and> StreamRowWriter.block_num_rows w = word_of_nat (length rs)
            \<and> fed (StreamRowWriter.cipher w)
                = concat (map (\<lambda>x. logical_bytes (written_row x)) rs))
     \<and> (16 \<le> length out \<and> 12 + length ct \<le> length out \<and> length ct < 2 ^ 32
          \<longrightarrow> (\<exists>w'. sw_run E (StreamRowWriter_new out) (map write_op rs @ [Close]) = Inr w'
                 \<and> StreamRowWriter.buf_pos w' - StreamRowWriter.buf_start w' = 16 + length ct
                 \<and> StreamRowWriter_bytes_written w' = word_of_nat (16 + length ct)
                 \<and> take 16 (StreamRowWriter.mem w')
                     = le32 (word_of_nat (length ct)) @ le32 (word_of_nat (length rs))
                       @ le32 (ROW_UPPER_BOUND E) @ le32 (task_id_parser E 0 0)))"
proof -
  let ?w0 = "StreamRowWriter_new out"
  let ?bytes = "concat (map (\<lambda>x. logical_bytes (written_row x)) rs)"
  have zero: "block_len ?w0 = 0" by (simp add: StreamRowWriter_new_def)
  have inv: "\<forall>ops w. sw_run E ?w0 ops = Inr w
            \<longrightarrow> block_len w = 0 \<and> StreamRowWriter_maybe_finish_block E w = Inr w"
    using sw_run_block_len [OF _ zero] maybe_finish_block_never by blast
  from sw_run_writes [OF rows zero, of E] obtain w where
    run: "sw_run E ?w0 (map write_op rs) = Inr w"
    and m: "StreamRowWriter.mem w = out"
    and bs: "StreamRowWriter.buf_start w = 0"
    and bp: "StreamRowWriter.buf_pos w = 0"
    and bl: "block_len w = 0"
    and op: "opcode w = 0" "part w = 0"
    and n: "StreamRowWriter.block_num_rows w = word_of_nat (length rs)"
    and ptr: "out_ptr (StreamRowWriter.cipher w) = 12"
    and fed: "fed (StreamRowWriter.cipher w) = ?bytes"
    by (auto simp: StreamRowWriter_new_def StreamCipher_new_def)
  have one: "\<exists>w. sw_run E ?w0 (map write_op rs) = Inr w
            \<and> StreamRowWriter.mem w = out
            \<and> StreamRowWriter.buf_pos w = StreamRowWriter.buf_start w
            \<and> StreamRowWriter.block_num_rows w = word_of_nat (length rs)
            \<and> fed (StreamRowWriter.cipher w) = ?bytes"
    using run m bs bp n fed by simp
  have closed: "\<exists>w'. sw_run E ?w0 (map write_op rs @ [Close]) = Inr w'
                 \<and> StreamRowWriter.buf_pos w' - StreamRowWriter.buf_start w' = 16 + length ct
                 \<and> StreamRowWriter_bytes_written w' = word_of_nat (16 + length ct)
                 \<and> take 16 (StreamRowWriter.mem w')
                     = le32 (word_of_nat (length ct)) @ le32 (word_of_nat (length rs))
                       @ le32 (ROW_UPPER_BOUND E) @ le32 (task_id_parser E 0 0)"
    if cap: "16 \<le> length out" "12 + length ct \<le> length out" "length ct < 2 ^ 32"
  proof -
    have pinned: "out_ptr (StreamRowWriter.cipher w) = StreamRowWriter.buf_pos w + 12"
      using ptr bp by simp
    have ct': "ct = stream_encrypt E (fed (StreamRowWriter.cipher w))" using ct fed by simp
    have c1: "StreamRowWriter.buf_pos w + 16 \<le> length (StreamRowWriter.mem w)"
      and c2: "StreamRowWriter.buf_pos w + 12 + length ct \<le> length (StreamRowWriter.mem w)"
      using cap bp m by simp_all
    note L = finish_block_stores [OF pinned ct' c1 c2 cap(3)]
    show ?thesis
      using run L bp bs n op
      by (simp add: sw_run_append ebind_def StreamRowWriter_close_def
            StreamRowWriter_bytes_written_def)
  qed
  show ?thesis using zero inv one closed by blast
qed

theorem StreamRowWriter_never_splits_witness:
  "unat (row_length sample_record) \<le> length (row sample_record)
   \<and> unat (row_length sample_record2) \<le> length (row sample_record2)
   \<and> block_len (StreamRowWriter_new (replicate 96 0)) = 0
   \<and> (\<exists>w. sw_run sample_env (StreamRowWriter_new (replicate 96 0))
              [Write sample_record,
               WriteJoin \<lparr> row_jr = sample_record2, join_attr = None \<rparr>] = Inr w
          \<and> StreamRowWriter.mem w = replicate 96 0
          \<and> StreamRowWriter.buf_pos w = StreamRowWriter.buf_start w
          \<and> StreamRowWriter.block_num_rows w = 2
          \<and> fed (StreamRowWriter.cipher w)
              = [2, 0, 0, 0,  1, 4, 0, 0, 0, 7, 0, 0, 0,  1, 4, 0, 0, 0, 5, 0, 0, 0,
                 2, 0, 0, 0,  1, 4, 0, 0, 0, 9, 0, 0, 0,  1, 4, 0, 0, 0, 3, 0, 0, 0])
   \<and> (\<exists>w'. sw_run sample_env (StreamRowWriter_new (replicate 96 0))
              [Write sample_record,
               WriteJoin \<lparr> row_jr = sample_record2, join_attr = None \<rparr>, Close] = Inr w'
          \<and> StreamRowWriter.buf_pos w' - StreamRowWriter.buf_start w' = 60
          \<and> StreamRowWriter_bytes_written w' = 60
          \<and> take 16 (StreamRowWriter.mem w')
              = [44, 0, 0, 0,  2, 0, 0, 0,  32, 0, 0, 0,  0, 0, 0, 0])"
proof -
  let ?j = "\<lparr> row_jr = sample_record2, join_attr = None \<rparr>"
  let ?rs = "[Inl sample_record, Inr ?j]"
  have r1: "unat (row_length sample_record) \<le> length (row sample_record)" by code_simp
  have r2: "unat (row_length sample_record2) \<le> length (row sample_record2)" by code_simp
  have rows: "\<forall>x \<in> set ?rs. unat (row_length (written_row x)) \<le> length (row (written_row x))"
    using r1 r2 by (simp add: written_row_def)
  have ops: "map write_op ?rs = [Write sample_record, WriteJoin ?j]"
    by (simp add: write_op_def)
  have bytes: "concat (map (\<lambda>x. logical_bytes (written_row x)) ?rs)
             = [2, 0, 0, 0,  1, 4, 0, 0, 0, 7, 0, 0, 0,  1, 4, 0, 0, 0, 5, 0, 0, 0,
                2, 0, 0, 0,  1, 4, 0, 0, 0, 9, 0, 0, 0,  1, 4, 0, 0, 0, 3, 0, 0, 0]"
    by code_simp
  define ct where "ct = stream_encrypt sample_env
                          (concat (map (\<lambda>x. logical_bytes (written_row x)) ?rs))"
  have len: "length ct = 44" unfolding ct_def by code_simp
  have cap: "16 \<le> length (replicate 96 (0 :: byte))
             \<and> 12 + length ct \<le> length (replicate 96 (0 :: byte))
             \<and> length ct < 2 ^ 32"
    using len by simp
  have hdr: "le32 (word_of_nat 44) @ le32 (word_of_nat (length ?rs))
             @ le32 (ROW_UPPER_BOUND sample_env) @ le32 (task_id_parser sample_env 0 0)
             = [44, 0, 0, 0,  2, 0, 0, 0,  32, 0, 0, 0,  0, 0, 0, 0]"
    by code_simp
  have two: "word_of_nat (length ?rs) = (2 :: u32)" by simp
  have sixty: "word_of_nat (16 + 44) = (60 :: u32)" by simp
  note T = StreamRowWriter_never_splits [OF rows ct_def, of "replicate 96 0"]
  have p1: "block_len (StreamRowWriter_new (replicate 96 0)) = 0"
    using T [THEN conjunct1] .
  note T3 = T [THEN conjunct2, THEN conjunct2, THEN conjunct1, unfolded ops bytes two]
  have p3: "\<exists>w. sw_run sample_env (StreamRowWriter_new (replicate 96 0))
              [Write sample_record, WriteJoin ?j] = Inr w
          \<and> StreamRowWriter.mem w = replicate 96 0
          \<and> StreamRowWriter.buf_pos w = StreamRowWriter.buf_start w
          \<and> StreamRowWriter.block_num_rows w = 2
          \<and> fed (StreamRowWriter.cipher w)
              = [2, 0, 0, 0,  1, 4, 0, 0, 0, 7, 0, 0, 0,  1, 4, 0, 0, 0, 5, 0, 0, 0,
                 2, 0, 0, 0,  1, 4, 0, 0, 0, 9, 0, 0, 0,  1, 4, 0, 0, 0, 3, 0, 0, 0]"
    by (rule T3)
  have app: "[Write sample_record, WriteJoin ?j] @ [Close]
             = [Write sample_record, WriteJoin ?j, Close]" by simp
  note T4 = T [THEN conjunct2, THEN conjunct2, THEN conjunct2, rule_format, OF cap,
      unfolded ops len hdr sixty app]
  have p4: "\<exists>w'. sw_run sample_env (StreamRowWriter_new (replicate 96 0))
              [Write sample_record, WriteJoin ?j, Close] = Inr w'
          \<and> StreamRowWriter.buf_pos w' - StreamRowWriter.buf_start w' = 60
          \<and> StreamRowWriter_bytes_written w' = 60
          \<and> take 16 (StreamRowWriter.mem w')
              = [44, 0, 0, 0,  2, 0, 0, 0,  32, 0, 0, 0,  0, 0, 0, 0]"
    using T4 by simp
  show ?thesis using r1 r2 p1 p3 p4 by (intro conjI)
qed


text \<open>
  C2: what \<^verbatim>\<open>StreamRowWriter::finish_block\<close> emits. The constructor and \<^verbatim>\<open>finish_block\<close> pin
  the cipher 12 bytes after the start of the next block, and in every state that they and
  the writes reach the cipher is pinned at \<^verbatim>\<open>buf_pos + 12\<close>. From such a state
  \<^verbatim>\<open>finish_block\<close> stores the 16-byte header
  \<^verbatim>\<open>(w_bytes, block_num_rows, ROW_UPPER_BOUND, task_id_parser(opcode, part))\<close>, but the
  ciphertext \<open>ct\<close> that the cipher stored begins 12 bytes after the start of the header
  (not 16) and the \<^verbatim>\<open>task_id\<close> overwrites its first four bytes: the \<open>w_bytes\<close> bytes after
  the header are the ciphertext without its first four bytes, followed by four bytes of
  the buffer that \<^verbatim>\<open>finish_block\<close> never writes.
\<close>

theorem StreamRowWriter_finish_block_layout:
  assumes pinned: "out_ptr (StreamRowWriter.cipher w) = StreamRowWriter.buf_pos w + 12"
    and ct: "ct = stream_encrypt E (fed (StreamRowWriter.cipher w))"
    and len: "4 \<le> length ct" "length ct < 2 ^ 32"
    and cap: "StreamRowWriter.buf_pos w + 16 + length ct \<le> length (StreamRowWriter.mem w)"
  shows "\<exists>w'. StreamRowWriter_finish_block E w = Inr w'
      \<and> load_bytes (StreamRowWriter.mem w') (StreamRowWriter.buf_pos w) 16
          = le32 (word_of_nat (length ct)) @ le32 (StreamRowWriter.block_num_rows w)
            @ le32 (ROW_UPPER_BOUND E) @ le32 (task_id_parser E (opcode w) (part w))
      \<and> load_bytes (StreamRowWriter.mem w') (StreamRowWriter.buf_pos w + 16) (length ct)
          = drop 4 ct
            @ load_bytes (StreamRowWriter.mem w) (StreamRowWriter.buf_pos w + 12 + length ct) 4
      \<and> StreamRowWriter.buf_pos w' = StreamRowWriter.buf_pos w + 16 + length ct
      \<and> out_ptr (StreamRowWriter.cipher w') = StreamRowWriter.buf_pos w' + 12"
proof -
  let ?p = "StreamRowWriter.buf_pos w"
  let ?m = "StreamRowWriter.mem w"
  have c1: "?p + 16 \<le> length ?m" and c2: "?p + 12 + length ct \<le> length ?m"
    using cap by simp_all
  note L = finish_block_stores [OF pinned ct c1 c2 len(2)]
  let ?hdr = "le32 (word_of_nat (length ct)) @ le32 (StreamRowWriter.block_num_rows w)
            @ le32 (ROW_UPPER_BOUND E) @ le32 (task_id_parser E (opcode w) (part w))"
  let ?mem' = "take ?p ?m @ ?hdr @ drop 4 (ct @ drop (?p + 12 + length ct) ?m)"
  have lh: "length ?hdr = 16" by simp
  have lp: "length (take ?p ?m) = ?p" using cap by simp
  have h: "load_bytes ?mem' ?p 16 = ?hdr"
    using lp by (simp add: load_bytes_def)
  have tail: "drop 4 (ct @ drop (?p + 12 + length ct) ?m)
              = drop 4 ct @ drop (?p + 12 + length ct) ?m"
    using len(1) by simp
  have b: "load_bytes ?mem' (?p + 16) (length ct)
           = drop 4 ct @ load_bytes ?m (?p + 12 + length ct) 4"
    using lp len(1) by (simp add: load_bytes_def tail)
  show ?thesis
    using L h b by (simp add: StreamCipher_reset_def)
qed

theorem StreamRowWriter_finish_block_layout_witness:
  "StreamRowWriter_write sample_env (StreamRowWriter_new (replicate 64 170)) sample_record
     = Inr (22, sample_stream_writer)
   \<and> out_ptr (StreamRowWriter.cipher sample_stream_writer)
       = StreamRowWriter.buf_pos sample_stream_writer + 12
   \<and> (\<exists>w'. StreamRowWriter_finish_block sample_env sample_stream_writer = Inr w'
        \<and> load_bytes (StreamRowWriter.mem w') 0 16
            = [22, 0, 0, 0,  1, 0, 0, 0,  32, 0, 0, 0,  0, 0, 0, 0]
        \<and> load_bytes (StreamRowWriter.mem w') 16 22
            = [1, 4, 0, 0, 0, 7, 0, 0, 0,  1, 4, 0, 0, 0, 5, 0, 0, 0,  170, 170, 170, 170]
        \<and> StreamRowWriter.buf_pos w' = 38)"
proof -
  have wr: "StreamRowWriter_write sample_env (StreamRowWriter_new (replicate 64 170))
              sample_record = Inr (22, sample_stream_writer)"
    by code_simp
  have pinned: "out_ptr (StreamRowWriter.cipher sample_stream_writer)
       = StreamRowWriter.buf_pos sample_stream_writer + 12"
    by code_simp
  define ct where "ct = stream_encrypt sample_env (fed (StreamRowWriter.cipher sample_stream_writer))"
  have ctv: "ct = [2, 0, 0, 0,  1, 4, 0, 0, 0, 7, 0, 0, 0,  1, 4, 0, 0, 0, 5, 0, 0, 0]"
    unfolding ct_def by code_simp
  have len: "4 \<le> length ct" "length ct < 2 ^ 32" using ctv by simp_all
  have cap: "StreamRowWriter.buf_pos sample_stream_writer + 16 + length ct
             \<le> length (StreamRowWriter.mem sample_stream_writer)"
    using ctv by (simp add: sample_stream_writer_def)
  have bp: "StreamRowWriter.buf_pos sample_stream_writer = 0"
    by (simp add: sample_stream_writer_def)
  have l22: "length ct = 22" using ctv by simp
  have hdr: "le32 (word_of_nat 22)
             @ le32 (StreamRowWriter.block_num_rows sample_stream_writer)
             @ le32 (ROW_UPPER_BOUND sample_env)
             @ le32 (task_id_parser sample_env (opcode sample_stream_writer)
                       (part sample_stream_writer))
             = [22, 0, 0, 0,  1, 0, 0, 0,  32, 0, 0, 0,  0, 0, 0, 0]"
    by code_simp
  have stale: "load_bytes (StreamRowWriter.mem sample_stream_writer) (0 + 12 + 22) 4
               = [170, 170, 170, 170]"
    by code_simp
  have d4: "drop 4 ct = [1, 4, 0, 0, 0, 7, 0, 0, 0,  1, 4, 0, 0, 0, 5, 0, 0, 0]"
    using ctv by simp
  note T = StreamRowWriter_finish_block_layout [OF pinned ct_def len cap,
      unfolded bp l22 hdr stale d4]
  from T have "\<exists>w'. StreamRowWriter_finish_block sample_env sample_stream_writer = Inr w'
        \<and> load_bytes (StreamRowWriter.mem w') 0 16
            = [22, 0, 0, 0,  1, 0, 0, 0,  32, 0, 0, 0,  0, 0, 0, 0]
        \<and> load_bytes (StreamRowWriter.mem w') 16 22
            = [1, 4, 0, 0, 0, 7, 0, 0, 0,  1, 4, 0, 0, 0, 5, 0, 0, 0,  170, 170, 170, 170]
        \<and> StreamRowWriter.buf_pos w' = 38"
    by auto
  then show ?thesis using wr pinned by (intro conjI)
qed

section \<open>RowWriter: the block header as associated data\<close>

lemma store_four_words:
  assumes cap: "p + 16 \<le> length m"
    and len: "length h1 = 4" "length h2 = 4" "length h3 = 4" "length h4 = 4"
  shows "store_bytes (store_bytes (store_bytes (store_bytes m p h1) (p + 4) h2) (p + 8) h3)
           (p + 12) h4
         = take p m @ h1 @ h2 @ h3 @ h4 @ drop (p + 16) m"
  using assms by (simp add: store_bytes_def min_def add.commute add.left_commute)

lemma RowWriter_finish_block_stores:
  assumes hdr: "hdr = le32 (enc_size E (block_padded_len w)) @ le32 (RowWriter.block_num_rows w)
                      @ le32 (row_upper_bound w) @ le32 (self_task_id w)"
    and ct: "ct = encrypt_with_aad E
                    (load_bytes (RowWriter.block w) 0 (unat (block_padded_len w))) hdr"
    and cap: "RowWriter.buf_pos w + 16 + length ct \<le> length (RowWriter.mem w)"
    and blk: "unat (block_padded_len w) \<le> length (RowWriter.block w)"
  shows "RowWriter_finish_block E w =
      Inr (w\<lparr> RowWriter.mem :=
                 take (RowWriter.buf_pos w) (RowWriter.mem w) @ hdr @ ct
                 @ drop (RowWriter.buf_pos w + 16 + length ct) (RowWriter.mem w),
               RowWriter.buf_pos :=
                 RowWriter.buf_pos w + 16 + unat (enc_size E (block_padded_len w)),
               RowWriter.block_pos := 0,
               RowWriter.block_num_rows := 0,
               block_padded_len := 0 \<rparr>)"
proof -
  let ?p = "RowWriter.buf_pos w"
  let ?m = "RowWriter.mem w"
  let ?a = "store_bytes ?m ?p (le32 (enc_size E (block_padded_len w)))"
  let ?b = "store_bytes ?a (?p + 4) (le32 (RowWriter.block_num_rows w))"
  let ?c = "store_bytes ?b (?p + 8) (le32 (row_upper_bound w))"
  let ?d = "store_bytes ?c (?p + 12) (le32 (self_task_id w))"
  have c16: "?p + 16 \<le> length ?m" using cap by simp
  have la: "length ?a = length ?m" using c16 by (simp add: length_store_bytes)
  have lb: "length ?b = length ?m" using c16 la by (simp add: length_store_bytes)
  have lc: "length ?c = length ?m" using c16 lb by (simp add: length_store_bytes)
  have ld: "length ?d = length ?m" using c16 lc by (simp add: length_store_bytes)
  have s1: "mem_store ?m ?p (le32 (enc_size E (block_padded_len w))) = Inr ?a"
    using c16 by (simp add: mem_store_ok)
  have s2: "mem_store ?a (?p + 4) (le32 (RowWriter.block_num_rows w)) = Inr ?b"
    using c16 la by (simp add: mem_store_ok)
  have s3: "mem_store ?b (?p + 8) (le32 (row_upper_bound w)) = Inr ?c"
    using c16 lb by (simp add: mem_store_ok)
  have s4: "mem_store ?c (?p + 12) (le32 (self_task_id w)) = Inr ?d"
    using c16 lc by (simp add: mem_store_ok)
  have d: "?d = take ?p ?m @ hdr @ drop (?p + 16) ?m"
    unfolding hdr using store_four_words [OF c16, of "le32 (enc_size E (block_padded_len w))"
        "le32 (RowWriter.block_num_rows w)" "le32 (row_upper_bound w)" "le32 (self_task_id w)"]
    by simp
  have lh: "length hdr = 16" by (simp add: hdr)
  have lp: "length (take ?p ?m) = ?p" using c16 by simp
  have aad: "load_bytes ?d (?p + 16 - 16) 16 = hdr"
    unfolding d using lp lh by (simp add: load_bytes_def)
  have s5: "mem_store ?d (?p + 16) ct = Inr (store_bytes ?d (?p + 16) ct)"
    using cap ld by (simp add: mem_store_ok)
  have fin: "store_bytes ?d (?p + 16) ct
             = take ?p ?m @ hdr @ ct @ drop (?p + 16 + length ct) ?m"
    unfolding d using lp lh c16 by (simp add: store_bytes_def add.commute add.left_commute)
  show ?thesis
    unfolding RowWriter_finish_block_def
    using blk
    by (simp only: s1 s2 s3 s4 ebind_def sum.case Let_def aad if_True ct [symmetric] s5 fin)
qed

lemma sample_cipher_accepts:
  "\<forall>x a. length a = 16
      \<longrightarrow> sample_decrypt_with_aad (encrypt_with_aad sample_env x a) a = Some x"
  by (simp add: sample_env_def sample_decrypt_with_aad_def)

lemma sample_cipher_rejects:
  "\<forall>x a a'. length a = 16 \<and> length a' = 16 \<and> a' \<noteq> a
      \<longrightarrow> sample_decrypt_with_aad (encrypt_with_aad sample_env x a) a' = None"
  by (simp add: sample_env_def sample_decrypt_with_aad_def)


text \<open>
  C4: \<^verbatim>\<open>RowWriter::finish_block\<close> stores the 16-byte header
  \<^verbatim>\<open>(enc_size(block_padded_len), block_num_rows, row_upper_bound, self_task_id)\<close> at
  \<^verbatim>\<open>buf_pos\<close> and, right after it, the ciphertext of the first \<^verbatim>\<open>block_padded_len\<close> bytes of
  the staging block, encrypted with exactly those 16 header bytes as associated data.
  Under the cipher contract (a decryption \<open>dec\<close> with associated data returns the plaintext
  for the associated data used to encrypt, and fails for any other 16 bytes), decrypting
  the stored ciphertext with the stored header gives the plaintext back, and with a header
  that differs in any byte it fails.
\<close>

theorem RowWriter_finish_block_authenticates_header:
  assumes hdr: "hdr = le32 (enc_size E (block_padded_len w)) @ le32 (RowWriter.block_num_rows w)
                      @ le32 (row_upper_bound w) @ le32 (self_task_id w)"
    and pt: "pt = load_bytes (RowWriter.block w) 0 (unat (block_padded_len w))"
    and ct: "ct = encrypt_with_aad E pt hdr"
    and cap: "RowWriter.buf_pos w + 16 + length ct \<le> length (RowWriter.mem w)"
    and blk: "unat (block_padded_len w) \<le> length (RowWriter.block w)"
    and accepts: "\<forall>x a. length a = 16 \<longrightarrow> dec (encrypt_with_aad E x a) a = Some x"
    and rejects: "\<forall>x a a'. length a = 16 \<and> length a' = 16 \<and> a' \<noteq> a
                    \<longrightarrow> dec (encrypt_with_aad E x a) a' = None"
  shows "\<exists>w'. RowWriter_finish_block E w = Inr w'
      \<and> load_bytes (RowWriter.mem w') (RowWriter.buf_pos w) 16 = hdr
      \<and> load_bytes (RowWriter.mem w') (RowWriter.buf_pos w + 16) (length ct) = ct
      \<and> dec (load_bytes (RowWriter.mem w') (RowWriter.buf_pos w + 16) (length ct))
             (load_bytes (RowWriter.mem w') (RowWriter.buf_pos w) 16) = Some pt
      \<and> (\<forall>hdr'. length hdr' = 16
                 \<and> hdr' \<noteq> load_bytes (RowWriter.mem w') (RowWriter.buf_pos w) 16
             \<longrightarrow> dec (load_bytes (RowWriter.mem w') (RowWriter.buf_pos w + 16) (length ct)) hdr'
                 = None)
      \<and> RowWriter.buf_pos w'
          = RowWriter.buf_pos w + 16 + unat (enc_size E (block_padded_len w))"
proof -
  let ?p = "RowWriter.buf_pos w"
  let ?m = "RowWriter.mem w"
  let ?mem' = "take ?p ?m @ hdr @ ct @ drop (?p + 16 + length ct) ?m"
  note L = RowWriter_finish_block_stores [OF hdr ct [unfolded pt] cap blk]
  have lh: "length hdr = 16" by (simp add: hdr)
  have lp: "length (take ?p ?m) = ?p" using cap by simp
  have h: "load_bytes ?mem' ?p 16 = hdr" using lp lh by (simp add: load_bytes_def)
  have c: "load_bytes ?mem' (?p + 16) (length ct) = ct"
    using lp lh by (simp add: load_bytes_def)
  have ok: "dec ct hdr = Some pt" using accepts lh ct by simp
  have bad: "\<forall>hdr'. length hdr' = 16 \<and> hdr' \<noteq> hdr \<longrightarrow> dec ct hdr' = None"
    using rejects lh ct by simp
  show ?thesis using L h c ok bad by simp
qed


theorem RowWriter_finish_block_authenticates_header_witness:
  "RowWriter_write sample_env (RowWriter_new (replicate 96 170) 0 (replicate 64 170))
     sample_record = Inr sample_row_writer
   \<and> (\<exists>w'. RowWriter_finish_block sample_env sample_row_writer = Inr w'
        \<and> load_bytes (RowWriter.mem w') 0 16
            = [48, 0, 0, 0,  1, 0, 0, 0,  32, 0, 0, 0,  0, 0, 0, 0]
        \<and> sample_decrypt_with_aad (load_bytes (RowWriter.mem w') 16 48)
             [48, 0, 0, 0,  1, 0, 0, 0,  32, 0, 0, 0,  0, 0, 0, 0]
            = Some (logical_bytes sample_record @ replicate 10 170)
        \<and> sample_decrypt_with_aad (load_bytes (RowWriter.mem w') 16 48)
             [48, 0, 0, 0,  2, 0, 0, 0,  32, 0, 0, 0,  0, 0, 0, 0]
            = None
        \<and> RowWriter.buf_pos w' = 64)"
proof -
  have wr: "RowWriter_write sample_env (RowWriter_new (replicate 96 170) 0 (replicate 64 170))
     sample_record = Inr sample_row_writer"
    by code_simp
  define hdr where "hdr = le32 (enc_size sample_env (block_padded_len sample_row_writer))
                      @ le32 (RowWriter.block_num_rows sample_row_writer)
                      @ le32 (row_upper_bound sample_row_writer)
                      @ le32 (self_task_id sample_row_writer)"
  define pt where "pt = load_bytes (RowWriter.block sample_row_writer) 0
                          (unat (block_padded_len sample_row_writer))"
  define ct where "ct = encrypt_with_aad sample_env pt hdr"
  have hv: "hdr = [48, 0, 0, 0,  1, 0, 0, 0,  32, 0, 0, 0,  0, 0, 0, 0]"
    unfolding hdr_def by code_simp
  have pv: "pt = logical_bytes sample_record @ replicate 10 170"
    unfolding pt_def by code_simp
  have lpt: "length pt = 32" unfolding pt_def by code_simp
  have lct: "length ct = 48" unfolding ct_def using lpt hv by (simp add: sample_env_def)
  have bp: "RowWriter.buf_pos sample_row_writer = 0"
    by (simp add: sample_row_writer_def)
  have es: "unat (enc_size sample_env (block_padded_len sample_row_writer)) = 48"
    by code_simp
  have cap: "RowWriter.buf_pos sample_row_writer + 16 + length ct
             \<le> length (RowWriter.mem sample_row_writer)"
    using lct by (simp add: sample_row_writer_def)
  have blk: "unat (block_padded_len sample_row_writer)
             \<le> length (RowWriter.block sample_row_writer)"
    by code_simp
  note T = RowWriter_finish_block_authenticates_header
      [OF hdr_def pt_def ct_def cap blk sample_cipher_accepts sample_cipher_rejects,
       unfolded bp lct es]
  then obtain w' where fin: "RowWriter_finish_block sample_env sample_row_writer = Inr w'"
    and h: "load_bytes (RowWriter.mem w') 0 16 = hdr"
    and ok: "sample_decrypt_with_aad (load_bytes (RowWriter.mem w') (0 + 16) 48)
               (load_bytes (RowWriter.mem w') 0 16) = Some pt"
    and bad: "\<forall>hdr'. length hdr' = 16 \<and> hdr' \<noteq> load_bytes (RowWriter.mem w') 0 16
             \<longrightarrow> sample_decrypt_with_aad (load_bytes (RowWriter.mem w') (0 + 16) 48) hdr' = None"
    and pos: "RowWriter.buf_pos w' = 0 + 16 + 48"
    by blast
  have tampered: "length [48, 0, 0, 0,  2, 0, 0, 0,  32, 0, 0, 0,  0, 0, 0, 0 :: byte] = 16
      \<and> [48, 0, 0, 0,  2, 0, 0, 0,  32, 0, 0, 0,  0, 0, 0, 0] \<noteq> load_bytes (RowWriter.mem w') 0 16"
    using h hv by simp
  have "sample_decrypt_with_aad (load_bytes (RowWriter.mem w') (0 + 16) 48)
             [48, 0, 0, 0,  2, 0, 0, 0,  32, 0, 0, 0,  0, 0, 0, 0] = None"
    using bad tampered by blast
  then have "RowWriter_finish_block sample_env sample_row_writer = Inr w'
        \<and> load_bytes (RowWriter.mem w') 0 16
            = [48, 0, 0, 0,  1, 0, 0, 0,  32, 0, 0, 0,  0, 0, 0, 0]
        \<and> sample_decrypt_with_aad (load_bytes (RowWriter.mem w') 16 48)
             [48, 0, 0, 0,  1, 0, 0, 0,  32, 0, 0, 0,  0, 0, 0, 0]
            = Some (logical_bytes sample_record @ replicate 10 170)
        \<and> sample_decrypt_with_aad (load_bytes (RowWriter.mem w') 16 48)
             [48, 0, 0, 0,  2, 0, 0, 0,  32, 0, 0, 0,  0, 0, 0, 0]
            = None
        \<and> RowWriter.buf_pos w' = 64"
    using fin h ok pos hv pv by simp
  then show ?thesis using wr by blast
qed

section \<open>RowReader: the block header it reads\<close>

lemma RowReader_new_first_block:
  assumes n: "0 < n" and len: "unat enc \<le> length tail"
  shows "RowReader_new E (le32 enc @ le32 n @ le32 rub @ tail) e v blk
     = (case decrypt E (take (unat enc) tail) of
          None \<Rightarrow> Inl CipherError
        | Some pt \<Rightarrow>
            ebind (mem_store blk 0 pt)
              (\<lambda>b. Inr \<lparr> RowReader.mem = le32 enc @ le32 n @ le32 rub @ tail,
                          buf = 12 + unat enc, buf_end = e, RowReader.block = b,
                          RowReader.block_pos = 0, RowReader.block_num_rows = n,
                          block_rows_read = 0, verify_set = v \<rparr>))"
proof -
  let ?m = "le32 enc @ le32 n @ le32 rub @ tail"
  let ?r = "\<lparr> RowReader.mem = ?m, buf = 0, buf_end = e, RowReader.block = blk,
         RowReader.block_pos = 0, RowReader.block_num_rows = 0, block_rows_read = 0,
         verify_set = v \<rparr>"
  have a: "RowReader.buf ?r + 12 \<le> length (RowReader.mem ?r)" by simp
  have b: "rd32 (drop (RowReader.buf ?r) (RowReader.mem ?r)) = enc" by simp
  have c: "rd32 (drop (RowReader.buf ?r + 4) (RowReader.mem ?r)) = n" by simp
  have d: "RowReader.buf ?r + 12 + unat enc \<le> length (RowReader.mem ?r)" using len by simp
  have w: "load_bytes (RowReader.mem ?r) (RowReader.buf ?r + 12) (unat enc)
           = take (unat enc) tail"
    by (simp add: load_bytes_def)
  have "RowReader_read_encrypted_block E ?r
     = (case decrypt E (take (unat enc) tail) of
          None \<Rightarrow> Inl CipherError
        | Some pt \<Rightarrow>
            ebind (mem_store blk 0 pt)
              (\<lambda>b. Inr \<lparr> RowReader.mem = ?m,
                          buf = 12 + unat enc, buf_end = e, RowReader.block = b,
                          RowReader.block_pos = 0, RowReader.block_num_rows = n,
                          block_rows_read = 0, verify_set = v \<rparr>))"
    apply (subst RowReader_read_encrypted_block.simps)
    apply (simp only: a b c d w if_True Let_def n)
    apply (simp add: ebind_def split: option.splits sum.splits)
    done
  then show ?thesis by (simp only: RowReader_new_def)
qed


lemma RowReader_read_encrypted_block_nonzero:
  "RowReader_read_encrypted_block E r = Inr r' \<Longrightarrow> 0 < RowReader.block_num_rows r'"
proof (induction E r rule: RowReader_read_encrypted_block.induct)
  case (1 E r)
  let ?enc = "rd32 (drop (RowReader.buf r) (RowReader.mem r))"
  let ?n = "rd32 (drop (RowReader.buf r + 4) (RowReader.mem r))"
  let ?b = "RowReader.buf r + 12"
  from "1.prems" have eq: "RowReader_read_encrypted_block E r = Inr r'" .
  have b1: "RowReader.buf r + 12 \<le> length (RowReader.mem r)"
    using eq by (subst (asm) RowReader_read_encrypted_block.simps) (simp split: if_splits)
  have b2: "?b + unat ?enc \<le> length (RowReader.mem r)"
    using eq b1
    by (subst (asm) RowReader_read_encrypted_block.simps) (simp add: Let_def split: if_splits)
  obtain pt where pt: "decrypt E (load_bytes (RowReader.mem r) ?b (unat ?enc)) = Some pt"
    using eq b1 b2
    by (subst (asm) RowReader_read_encrypted_block.simps)
       (auto simp: Let_def split: option.splits)
  obtain blk where blk: "mem_store (RowReader.block r) 0 pt = Inr blk"
    using eq b1 b2 pt
    by (subst (asm) RowReader_read_encrypted_block.simps)
       (auto simp: Let_def ebind_def split: sum.splits)
  let ?r' = "r\<lparr> RowReader.buf := ?b + unat ?enc, RowReader.block := blk,
                 RowReader.block_num_rows := ?n \<rparr>"
  have unfold: "RowReader_read_encrypted_block E r
     = (if ?n > 0 then Inr (?r'\<lparr> RowReader.block_pos := 0, RowReader.block_rows_read := 0 \<rparr>)
        else RowReader_read_encrypted_block E ?r')"
    using b1 b2 pt blk
    by (subst RowReader_read_encrypted_block.simps) (simp add: Let_def ebind_def)
  show ?case
  proof (cases "?n > 0")
    case True
    with unfold eq show ?thesis by auto
  next
    case False
    with unfold eq have rec: "RowReader_read_encrypted_block E ?r' = Inr r'" by simp
    show ?thesis
      by (rule "1.IH" [OF b1 refl refl refl b2 pt refl False rec])
  qed
qed

text \<open>
  C3: what the constructor of the bulk \<^verbatim>\<open>RowReader\<close> does with a block
  \<^verbatim>\<open>[enc_size][num_rows][row_upper_bound][task_id][ciphertext]\<close> that has rows. It reads
  12 header bytes, not 16: the bytes given to \<^verbatim>\<open>decrypt\<close> are the four \<^verbatim>\<open>task_id\<close> bytes
  followed by the ciphertext without its last four bytes, \<^verbatim>\<open>buf\<close> ends four bytes before
  the end of the block, and the verify sink is returned as it was passed in: the task id
  is never recorded.
\<close>

theorem RowReader_skips_task_id:
  assumes n: "0 < n" and len: "length ct = unat enc" "4 \<le> unat enc"
  shows "RowReader_new E (le32 enc @ le32 n @ le32 rub @ le32 tid @ ct @ rest) e v blk
     = (case decrypt E (le32 tid @ take (unat enc - 4) ct) of
          None \<Rightarrow> Inl CipherError
        | Some pt \<Rightarrow>
            ebind (mem_store blk 0 pt)
              (\<lambda>b. Inr \<lparr> RowReader.mem = le32 enc @ le32 n @ le32 rub @ le32 tid @ ct @ rest,
                          buf = 12 + unat enc, buf_end = e, RowReader.block = b,
                          RowReader.block_pos = 0, RowReader.block_num_rows = n,
                          block_rows_read = 0, verify_set = v \<rparr>))"
proof -
  have fits: "unat enc \<le> length (le32 tid @ ct @ rest)" using len by simp
  have window: "take (unat enc) (le32 tid @ ct @ rest) = le32 tid @ take (unat enc - 4) ct"
    using len by simp
  show ?thesis
    using RowReader_new_first_block [OF n fits, of E rub e v blk] window by simp
qed

theorem RowReader_skips_task_id_witness:
  "\<exists>r. RowReader_new sample_env
          (le32 48 @ le32 1 @ le32 32 @ le32 7
           @ (logical_bytes sample_record @ replicate 10 170
              @ [48, 0, 0, 0,  1, 0, 0, 0,  32, 0, 0, 0,  7, 0, 0, 0]) @ [])
          64 (Some []) (replicate 64 0) = Inr r
       \<and> RowReader.verify_set r = Some []
       \<and> RowReader.buf r = 60
       \<and> take 8 (RowReader.block r) = [7, 0, 0, 0,  2, 0, 0, 0]"
proof -
  define ct where "ct = logical_bytes sample_record @ replicate 10 170
              @ [48, 0, 0, 0,  1, 0, 0, 0,  32, 0, 0, 0,  7, 0, 0, 0 :: byte]"
  have n: "(0 :: u32) < 1" by simp
  have len: "length ct = unat (48 :: u32)" "4 \<le> unat (48 :: u32)"
    unfolding ct_def by code_simp+
  have dec: "decrypt sample_env (le32 7 @ take (unat (48 :: u32) - 4) ct)
             = Some ([7, 0, 0, 0] @ take 28 (logical_bytes sample_record @ replicate 10 170))"
    unfolding ct_def by code_simp
  have st: "mem_store (replicate 64 0) 0
              ([7, 0, 0, 0] @ take 28 (logical_bytes sample_record @ replicate 10 170))
            = Inr ([7, 0, 0, 0] @ take 28 (logical_bytes sample_record @ replicate 10 170)
                   @ replicate 32 0)"
    by code_simp
  have t8: "take 8 ([7, 0, 0, 0] @ take 28 (logical_bytes sample_record @ replicate 10 170)
                   @ replicate 32 0) = [7, 0, 0, 0,  2, 0, 0, 0 :: byte]"
    by code_simp
  have u: "12 + unat (48 :: u32) = 60" by simp
  note T = RowReader_skips_task_id [OF n len, of sample_env 32 7 "[]" 64 "Some []"
      "replicate 64 0", unfolded dec option.case st ebind_def sum.case u]
  show ?thesis
    unfolding ct_def [symmetric]
    using T t8 by simp
qed


section \<open>From RowWriter to RowReader\<close>

text \<open>
  C1: what a \<^verbatim>\<open>RowReader\<close> gets from the buffer of a \<^verbatim>\<open>RowWriter\<close>. A writer at the start
  of its buffer that holds rows and is closed emits the header and the ciphertext \<open>ct\<close>,
  \<open>16 + length ct\<close> bytes, which \<^verbatim>\<open>bytes_written()\<close> reports as a \<^verbatim>\<open>uint32_t\<close>; a reader constructed over that buffer hands \<^verbatim>\<open>decrypt\<close> the four
  bytes of the writer's task id followed by \<open>ct\<close> without its last four bytes, not \<open>ct\<close>,
  and leaves \<^verbatim>\<open>buf\<close> at \<open>12 + length ct\<close>, four bytes before the end of the block.
\<close>

theorem RowWriter_RowReader_misaligned:
  assumes start: "RowWriter.buf_start w = 0" "RowWriter.buf_pos w = 0"
    and rows: "0 < RowWriter.block_num_rows w"
    and hdr: "hdr = le32 (enc_size E (block_padded_len w)) @ le32 (RowWriter.block_num_rows w)
                      @ le32 (row_upper_bound w) @ le32 (self_task_id w)"
    and ct: "ct = encrypt_with_aad E
                    (load_bytes (RowWriter.block w) 0 (unat (block_padded_len w))) hdr"
    and size: "length ct = unat (enc_size E (block_padded_len w))" "4 \<le> length ct"
    and cap: "16 + length ct \<le> length (RowWriter.mem w)"
    and blk: "unat (block_padded_len w) \<le> length (RowWriter.block w)"
  shows "\<exists>w'. RowWriter_close E w = Inr w'
      \<and> RowWriter.buf_pos w' - RowWriter.buf_start w' = 16 + length ct
      \<and> RowWriter_bytes_written w' = word_of_nat (16 + length ct)
      \<and> load_bytes (RowWriter.mem w') 0 (16 + length ct) = hdr @ ct
      \<and> RowReader_new E (RowWriter.mem w') e v blk0
          = (case decrypt E (le32 (self_task_id w) @ take (length ct - 4) ct) of
               None \<Rightarrow> Inl CipherError
             | Some pt \<Rightarrow>
                 ebind (mem_store blk0 0 pt)
                   (\<lambda>b. Inr \<lparr> RowReader.mem = RowWriter.mem w',
                               buf = 12 + length ct, buf_end = e, RowReader.block = b,
                               RowReader.block_pos = 0,
                               RowReader.block_num_rows = RowWriter.block_num_rows w,
                               block_rows_read = 0, verify_set = v \<rparr>))"
proof -
  let ?rest = "drop (16 + length ct) (RowWriter.mem w)"
  let ?mem' = "hdr @ ct @ ?rest"
  have cap': "RowWriter.buf_pos w + 16 + length ct \<le> length (RowWriter.mem w)"
    using cap start by simp
  note L = RowWriter_finish_block_stores [OF hdr ct cap' blk,
      unfolded start size(1) [symmetric]]
  have lh: "length hdr = 16" by (simp add: hdr)
  have shape: "?mem' = le32 (enc_size E (block_padded_len w))
                 @ le32 (RowWriter.block_num_rows w) @ le32 (row_upper_bound w)
                 @ le32 (self_task_id w) @ ct @ ?rest"
    by (simp add: hdr)
  have len: "length ct = unat (enc_size E (block_padded_len w))"
    "4 \<le> unat (enc_size E (block_padded_len w))"
    using size by simp_all
  have fits: "unat (enc_size E (block_padded_len w))
              \<le> length (le32 (self_task_id w) @ ct @ ?rest)" using len by simp
  have window: "take (length ct) (le32 (self_task_id w) @ ct @ ?rest)
                = le32 (self_task_id w) @ take (length ct - 4) ct"
    using size(2) by simp
  note R = RowReader_new_first_block [OF rows fits, of E "row_upper_bound w" e v blk0,
      unfolded len(1) [symmetric] window]
  have rd: "RowReader_new E ?mem' e v blk0
          = (case decrypt E (le32 (self_task_id w) @ take (length ct - 4) ct) of
               None \<Rightarrow> Inl CipherError
             | Some pt \<Rightarrow>
                 ebind (mem_store blk0 0 pt)
                   (\<lambda>b. Inr \<lparr> RowReader.mem = ?mem',
                               buf = 12 + length ct, buf_end = e, RowReader.block = b,
                               RowReader.block_pos = 0,
                               RowReader.block_num_rows = RowWriter.block_num_rows w,
                               block_rows_read = 0, verify_set = v \<rparr>))"
    unfolding shape by (rule R)
  have ld: "load_bytes ?mem' 0 (16 + length ct) = hdr @ ct"
    using lh by (simp add: load_bytes_def)
  define w' where "w' = w\<lparr> RowWriter.mem := ?mem', RowWriter.buf_pos := 16 + length ct,
      RowWriter.block_pos := 0, RowWriter.block_num_rows := 0, block_padded_len := 0 \<rparr>"
  have fin: "RowWriter_close E w = Inr w'"
    using L by (simp add: RowWriter_close_def w'_def)
  have m': "RowWriter.mem w' = ?mem'" by (simp add: w'_def)
  have bp: "RowWriter.buf_pos w' - RowWriter.buf_start w' = 16 + length ct"
    using start(1) by (simp add: w'_def)
  have bw: "RowWriter_bytes_written w' = word_of_nat (16 + length ct)"
    using bp by (simp add: RowWriter_bytes_written_def)
  have "RowWriter_close E w = Inr w'
      \<and> RowWriter.buf_pos w' - RowWriter.buf_start w' = 16 + length ct
      \<and> RowWriter_bytes_written w' = word_of_nat (16 + length ct)
      \<and> load_bytes (RowWriter.mem w') 0 (16 + length ct) = hdr @ ct
      \<and> RowReader_new E (RowWriter.mem w') e v blk0
          = (case decrypt E (le32 (self_task_id w) @ take (length ct - 4) ct) of
               None \<Rightarrow> Inl CipherError
             | Some pt \<Rightarrow>
                 ebind (mem_store blk0 0 pt)
                   (\<lambda>b. Inr \<lparr> RowReader.mem = RowWriter.mem w',
                               buf = 12 + length ct, buf_end = e, RowReader.block = b,
                               RowReader.block_pos = 0,
                               RowReader.block_num_rows = RowWriter.block_num_rows w,
                               block_rows_read = 0, verify_set = v \<rparr>))"
    unfolding m' using fin bp bw ld rd by (intro conjI)
  then show ?thesis by (rule exI)
qed

theorem RowWriter_RowReader_misaligned_witness:
  "RowWriter_write sample_env (RowWriter_new (replicate 96 170) 0 (replicate 64 170))
     sample_record = Inr sample_row_writer
   \<and> num_cols sample_record = 2
   \<and> (\<exists>w' r row r'. RowWriter_close sample_env sample_row_writer = Inr w'
        \<and> RowReader_new sample_env (RowWriter.mem w') 64 None (replicate 64 0) = Inr r
        \<and> RowReader.buf r = 60 \<and> RowWriter_bytes_written w' = 64
        \<and> RowReader_read sample_env r (NewRecord_new 32) = Inr (row, r')
        \<and> num_cols row = 0 \<and> row_length row = 4)"
proof -
  have wr: "RowWriter_write sample_env (RowWriter_new (replicate 96 170) 0 (replicate 64 170))
     sample_record = Inr sample_row_writer"
    by code_simp
  have nc: "num_cols sample_record = 2" by code_simp
  define hdr where "hdr = le32 (enc_size sample_env (block_padded_len sample_row_writer))
                      @ le32 (RowWriter.block_num_rows sample_row_writer)
                      @ le32 (row_upper_bound sample_row_writer)
                      @ le32 (self_task_id sample_row_writer)"
  define ct where "ct = encrypt_with_aad sample_env
                    (load_bytes (RowWriter.block sample_row_writer) 0
                       (unat (block_padded_len sample_row_writer))) hdr"
  define B where "B = [0, 0, 0, 0] @ take 28 (logical_bytes sample_record @ replicate 10 170)
                      @ replicate 32 (0 :: byte)"
  have start: "RowWriter.buf_start sample_row_writer = 0"
    "RowWriter.buf_pos sample_row_writer = 0"
    by (simp_all add: sample_row_writer_def)
  have rows: "0 < RowWriter.block_num_rows sample_row_writer"
    by (simp add: sample_row_writer_def)
  have lct: "length ct = 48" unfolding ct_def hdr_def by code_simp
  have size: "length ct = unat (enc_size sample_env (block_padded_len sample_row_writer))"
    "4 \<le> length ct"
    unfolding ct_def hdr_def by code_simp+
  have cap: "16 + length ct \<le> length (RowWriter.mem sample_row_writer)"
    unfolding ct_def hdr_def by code_simp
  have blk: "unat (block_padded_len sample_row_writer)
             \<le> length (RowWriter.block sample_row_writer)"
    by code_simp
  have dec: "decrypt sample_env (le32 (self_task_id sample_row_writer) @ take (48 - 4) ct)
             = Some ([0, 0, 0, 0] @ take 28 (logical_bytes sample_record @ replicate 10 170))"
    unfolding ct_def hdr_def by code_simp
  have st: "mem_store (replicate 64 0) 0
              ([0, 0, 0, 0] @ take 28 (logical_bytes sample_record @ replicate 10 170))
            = Inr B"
    unfolding B_def by code_simp
  have rr: "read_record (NewRecord_new 32) B 0 = Inr (NewRecord_new 32, 4)"
    unfolding B_def by code_simp
  have rec: "num_cols (NewRecord_new 32) = 0" "row_length (NewRecord_new 32) = 4"
    by code_simp+
  have nr: "RowWriter.block_num_rows sample_row_writer = 1"
    by (simp add: sample_row_writer_def)
  note T = RowWriter_RowReader_misaligned [OF start rows hdr_def ct_def size cap blk,
      of 64 None "replicate 64 0", unfolded lct dec option.case st ebind_def sum.case nr]
  then obtain w' where cl: "RowWriter_close sample_env sample_row_writer = Inr w'"
    and bw: "RowWriter_bytes_written w' = word_of_nat (16 + 48)"
    and rd: "RowReader_new sample_env (RowWriter.mem w') 64 None (replicate 64 0)
             = Inr \<lparr> RowReader.mem = RowWriter.mem w', buf = 12 + 48, buf_end = 64,
                     RowReader.block = B, RowReader.block_pos = 0,
                     RowReader.block_num_rows = 1, block_rows_read = 0,
                     verify_set = None \<rparr>"
    by blast
  let ?r = "\<lparr> RowReader.mem = RowWriter.mem w', buf = 12 + 48, buf_end = 64,
                     RowReader.block = B, RowReader.block_pos = 0,
                     RowReader.block_num_rows = 1, block_rows_read = 0,
                     verify_set = None \<rparr>"
  have read: "RowReader_read sample_env ?r (NewRecord_new 32)
              = Inr (NewRecord_new 32,
                     ?r\<lparr> RowReader.block_pos := 4, RowReader.block_rows_read := 1 \<rparr>)"
    by (simp add: RowReader_read_def RowReader_maybe_advance_block_def ebind_def rr)
  have "RowWriter_close sample_env sample_row_writer = Inr w'
        \<and> RowReader_new sample_env (RowWriter.mem w') 64 None (replicate 64 0) = Inr ?r
        \<and> RowReader.buf ?r = 60 \<and> RowWriter_bytes_written w' = 64
        \<and> RowReader_read sample_env ?r (NewRecord_new 32)
            = Inr (NewRecord_new 32,
                   ?r\<lparr> RowReader.block_pos := 4, RowReader.block_rows_read := 1 \<rparr>)
        \<and> num_cols (NewRecord_new 32) = 0 \<and> row_length (NewRecord_new 32) = 4"
    using cl rd bw read rec by simp
  then have "\<exists>w' r row r'. RowWriter_close sample_env sample_row_writer = Inr w'
        \<and> RowReader_new sample_env (RowWriter.mem w') 64 None (replicate 64 0) = Inr r
        \<and> RowReader.buf r = 60 \<and> RowWriter_bytes_written w' = 64
        \<and> RowReader_read sample_env r (NewRecord_new 32) = Inr (row, r')
        \<and> num_cols row = 0 \<and> row_length row = 4"
    by blast
  then show ?thesis using wr nc by (intro conjI)
qed

section \<open>Blocks without rows\<close>

lemma StreamRowReader_read_encrypted_block_at:
  assumes m: "StreamRowReader.mem r = pre @ le32 enc @ le32 n @ le32 rub @ le32 tid @ ct @ rest"
    and p: "StreamRowReader.buf r = length pre" and len: "length ct = unat enc"
  shows "StreamRowReader_read_encrypted_block E r
     = Inr (r\<lparr> StreamRowReader.block_num_rows := n,
               StreamRowReader.verify_set := insert tid (StreamRowReader.verify_set r),
               StreamRowReader.cipher :=
                 Some (case StreamRowReader.cipher r of
                         None \<Rightarrow> StreamDecipher_new ct
                       | Some d \<Rightarrow> StreamDecipher_reset d ct),
               StreamRowReader.buf := length pre + 16 + length ct,
               block_start := length pre + 16 + length ct,
               StreamRowReader.block_pos := length pre + 16 + length ct,
               StreamRowReader.block_rows_read := 0,
               cur_block_num := cur_block_num r + 1 \<rparr>)"
proof -
  let ?m = "pre @ le32 enc @ le32 n @ le32 rub @ le32 tid @ ct @ rest"
  have a: "rd32 (drop (length pre) ?m) = enc" by simp
  have b: "rd32 (drop (length pre + 4) ?m) = n" by simp
  have c: "rd32 (drop (length pre + 12) ?m) = tid" by simp
  have d: "load_bytes ?m (length pre + 16) (unat enc) = ct"
    using len by (simp add: load_bytes_def)
  have e: "length pre + 16 \<le> length ?m" by simp
  show ?thesis
    unfolding StreamRowReader_read_encrypted_block_def m p
    by (simp only: a b c d e if_True Let_def len StreamRowReader_add_parent_def)
       (simp add: len)
qed



text \<open>
  C8: what the readers do with blocks whose header has \<^verbatim>\<open>num_rows = 0\<close>. Over a buffer
  that begins with two such blocks, the constructor of a \<^verbatim>\<open>StreamRowReader\<close> stops on the
  first, and the first \<^verbatim>\<open>read\<close> advances by one block only: it reads its row through the
  cipher over the ciphertext of the second zero-row block and never reaches the blocks
  after it. The bulk reader's \<^verbatim>\<open>read_encrypted_block\<close> loops instead and, when it
  returns, is on a block with \<^verbatim>\<open>num_rows > 0\<close>.
\<close>

theorem StreamRowReader_serves_zero_row_block:
  assumes len: "length ct1 = unat e1" "length ct2 = unat e2"
    and input: "input = (le32 e1 @ le32 0 @ le32 u1 @ le32 t1 @ ct1)
                        @ (le32 e2 @ le32 0 @ le32 u2 @ le32 t2 @ ct2) @ rest"
  shows "(\<exists>r1 r2. StreamRowReader_new E input e = Inr r1
            \<and> StreamRowReader.block_num_rows r1 = 0
            \<and> StreamRowReader_maybe_advance_block E r1 = Inr r2
            \<and> StreamRowReader.block_num_rows r2 = 0
            \<and> StreamRowReader.block_rows_read r2 = 0
            \<and> cur_block_num r2 = 2
            \<and> StreamRowReader.cipher r2 = Some \<lparr> window = ct2, served = 0 \<rparr>
            \<and> StreamRowReader.buf r2 = 32 + length ct1 + length ct2
            \<and> StreamRowReader_read E r1 row0
                = ebind (read_record_stream E row0 r2)
                    (\<lambda>(row1, k, r').
                       Inr (row1,
                            r'\<lparr> StreamRowReader.block_pos :=
                                   StreamRowReader.block_pos r' + unat k,
                                 StreamRowReader.block_rows_read :=
                                   StreamRowReader.block_rows_read r' + 1 \<rparr>)))
         \<and> (RowReader_read_encrypted_block E b = Inr b'
              \<longrightarrow> 0 < RowReader.block_num_rows b')"
proof -
  let ?r0 = "\<lparr> StreamRowReader.cipher = None, StreamRowReader.mem = input,
         StreamRowReader.buf = 0, StreamRowReader.buf_end = e, block_start = 0,
         StreamRowReader.block_pos = 0, StreamRowReader.block_num_rows = 0,
         StreamRowReader.block_rows_read = 0, cur_block_num = 0,
         StreamRowReader.verify_set = {} \<rparr>"
  let ?z1 = "le32 e1 @ le32 0 @ le32 u1 @ le32 t1 @ ct1"
  let ?tail = "(le32 e2 @ le32 0 @ le32 u2 @ le32 t2 @ ct2) @ rest"
  have m0: "StreamRowReader.mem ?r0
            = [] @ le32 e1 @ le32 0 @ le32 u1 @ le32 t1 @ ct1 @ ?tail"
    by (simp add: input)
  have p0: "StreamRowReader.buf ?r0 = length ([] :: byte list)" by simp
  define r1 where "r1 = ?r0\<lparr> StreamRowReader.block_num_rows := 0,
               StreamRowReader.verify_set := insert t1 (StreamRowReader.verify_set ?r0),
               StreamRowReader.cipher :=
                 Some (case StreamRowReader.cipher ?r0 of
                         None \<Rightarrow> StreamDecipher_new ct1
                       | Some d \<Rightarrow> StreamDecipher_reset d ct1),
               StreamRowReader.buf := length ([] :: byte list) + 16 + length ct1,
               block_start := length ([] :: byte list) + 16 + length ct1,
               StreamRowReader.block_pos := length ([] :: byte list) + 16 + length ct1,
               StreamRowReader.block_rows_read := 0,
               cur_block_num := cur_block_num ?r0 + 1 \<rparr>"
  have new: "StreamRowReader_new E input e = Inr r1"
    unfolding StreamRowReader_new_def r1_def
    by (rule StreamRowReader_read_encrypted_block_at [OF m0 p0 len(1)])
  have n1: "StreamRowReader.block_num_rows r1 = 0" by (simp add: r1_def)
  have m1: "StreamRowReader.mem r1 = ?z1 @ le32 e2 @ le32 0 @ le32 u2 @ le32 t2 @ ct2 @ rest"
    by (simp add: r1_def input)
  have p1: "StreamRowReader.buf r1 = length ?z1" by (simp add: r1_def)
  define r2 where "r2 = r1\<lparr> StreamRowReader.block_num_rows := 0,
               StreamRowReader.verify_set := insert t2 (StreamRowReader.verify_set r1),
               StreamRowReader.cipher :=
                 Some (case StreamRowReader.cipher r1 of
                         None \<Rightarrow> StreamDecipher_new ct2
                       | Some d \<Rightarrow> StreamDecipher_reset d ct2),
               StreamRowReader.buf := length ?z1 + 16 + length ct2,
               block_start := length ?z1 + 16 + length ct2,
               StreamRowReader.block_pos := length ?z1 + 16 + length ct2,
               StreamRowReader.block_rows_read := 0,
               cur_block_num := cur_block_num r1 + 1 \<rparr>"
  have blk2: "StreamRowReader_read_encrypted_block E r1 = Inr r2"
    unfolding r2_def by (rule StreamRowReader_read_encrypted_block_at [OF m1 p1 len(2)])
  have adv: "StreamRowReader_maybe_advance_block E r1 = Inr r2"
    using blk2 by (simp add: StreamRowReader_maybe_advance_block_def r1_def)
  have props: "StreamRowReader.block_num_rows r2 = 0"
    "StreamRowReader.block_rows_read r2 = 0" "cur_block_num r2 = 2"
    "StreamRowReader.cipher r2 = Some \<lparr> window = ct2, served = 0 \<rparr>"
    "StreamRowReader.buf r2 = 32 + length ct1 + length ct2"
    by (simp_all add: r2_def r1_def StreamDecipher_new_def StreamDecipher_reset_def)
  have read: "StreamRowReader_read E r1 row0
                = ebind (read_record_stream E row0 r2)
                    (\<lambda>(row1, k, r').
                       Inr (row1,
                            r'\<lparr> StreamRowReader.block_pos :=
                                   StreamRowReader.block_pos r' + unat k,
                                 StreamRowReader.block_rows_read :=
                                   StreamRowReader.block_rows_read r' + 1 \<rparr>))"
    by (simp add: StreamRowReader_read_def adv ebind_def)
  have bulk: "RowReader_read_encrypted_block E b = Inr b' \<longrightarrow> 0 < RowReader.block_num_rows b'"
    using RowReader_read_encrypted_block_nonzero by blast
  show ?thesis using new n1 adv props read bulk by blast
qed

theorem StreamRowReader_serves_zero_row_block_witness:
  "\<exists>r1. StreamRowReader_new sample_env
           ((le32 0 @ le32 0 @ le32 32 @ le32 0 @ [])
            @ (le32 0 @ le32 0 @ le32 32 @ le32 0 @ [])
            @ (le32 22 @ le32 1 @ le32 32 @ le32 0 @ logical_bytes sample_record)) 70 = Inr r1
        \<and> StreamRowReader.block_num_rows r1 = 0
        \<and> StreamRowReader_read sample_env r1 (NewRecord_new 32) = Inl CipherError"
proof -
  have len: "length ([] :: byte list) = unat (0 :: u32)" by simp
  from StreamRowReader_serves_zero_row_block [OF len len refl,
      of sample_env 32 0 32 0 "le32 22 @ le32 1 @ le32 32 @ le32 0 @ logical_bytes sample_record"
         70 "NewRecord_new 32"]
  obtain r1 r2 where new: "StreamRowReader_new sample_env
           ((le32 0 @ le32 0 @ le32 32 @ le32 0 @ [])
            @ (le32 0 @ le32 0 @ le32 32 @ le32 0 @ [])
            @ (le32 22 @ le32 1 @ le32 32 @ le32 0 @ logical_bytes sample_record)) 70 = Inr r1"
    and n1: "StreamRowReader.block_num_rows r1 = 0"
    and c2: "StreamRowReader.cipher r2 = Some \<lparr> window = [], served = 0 \<rparr>"
    and read: "StreamRowReader_read sample_env r1 (NewRecord_new 32)
                = ebind (read_record_stream sample_env (NewRecord_new 32) r2)
                    (\<lambda>(row1, k, r').
                       Inr (row1,
                            r'\<lparr> StreamRowReader.block_pos :=
                                   StreamRowReader.block_pos r' + unat k,
                                 StreamRowReader.block_rows_read :=
                                   StreamRowReader.block_rows_read r' + 1 \<rparr>))"
    by blast
  have "read_record_stream sample_env (NewRecord_new 32) r2 = Inl CipherError"
    by (simp add: read_record_stream_def read_bytes_def c2 StreamDecipher_decrypt_def
          sample_env_def ebind_def)
  then have "StreamRowReader_read sample_env r1 (NewRecord_new 32) = Inl CipherError"
    using read by (simp add: ebind_def)
  then show ?thesis using new n1 by blast
qed

end
